theory Spec2Isabelle
  imports Main "HOL-Library.AList" "HOL-Library.Multiset"
begin

section \<open>Syntax trees\<close>

text \<open>
  The serializer builds its output with the constructors of \<^verbatim>\<open>babel-types\<close>.  Only the node
  kinds that the two source files construct or inspect are given a constructor of their own.
  \<open>Pattern\<close> stands for any parameter node whose \<^verbatim>\<open>type\<close> is not \<^verbatim>\<open>"Identifier"\<close> (a destructuring
  pattern, a rest element, ...), \<open>OtherExpression\<close> and \<open>OtherStatement\<close> for an expression
  or a statement produced by a collaborator and passed through untouched.

  A class expression node is created once per class prototype, stored in the map
  \<^verbatim>\<open>classes\<close>, pushed into the result arrays and still mutated afterwards.  The arrays
  therefore hold \<open>ClassExpressionRef p\<close>, the reference to the node stored under the
  prototype \<open>p\<close>; the node itself lives in the store (see \<open>class_node\<close> below).

  A block statement carries the source offsets \<^verbatim>\<open>start\<close> and \<^verbatim>\<open>end\<close> and the
  \<^verbatim>\<open>uniqueOrderedTag\<close> of the function body it came from; a block built by
  \<^verbatim>\<open>t.blockStatement\<close> has none of them.
\<close>

datatype node =
    Identifier string
  | NumericLiteral int
  | StringLiteral string
  | NullLiteral
  | ThisExpression
  | MemberExpression node node
  | CallExpression node "node list"
  | NewExpression node "node list"
  | FunctionExpression "node list" block
  | ClassExpressionRef nat
  | ClassMethod string node "node list" block bool bool
  | VariableDeclarator node node
  | VariableDeclaration string "node list"
  | ExpressionStatement node
  | ReturnStatement node
  | BreakStatement
  | ThrowStatement node
  | SwitchCase "node option" "node list"
  | SwitchStatement node "node list"
  | Pattern string
  | OtherExpression string
  | OtherStatement string
and block =
    BlockStatement (bstart: "int option") (bend: "int option")
      (uniqueOrderedTag: "nat option") (body: "node list")

text \<open>\<^verbatim>\<open>t.blockStatement(stmts)\<close>: a block without location or tag.\<close>

definition blockStatement :: "node list \<Rightarrow> block" where
  "blockStatement stmts = BlockStatement None None None stmts"

text \<open>\<^verbatim>\<open>t.variableDeclaration("var", [t.variableDeclarator(id, init)])\<close>.\<close>

definition varDeclaration :: "node \<Rightarrow> node \<Rightarrow> node" where
  "varDeclaration ident init = VariableDeclaration ''var'' [VariableDeclarator ident init]"

datatype error = InvariantViolation | FatalError string | TypeError

text \<open>\<^verbatim>\<open>invariant(c)\<close> followed by the rest of the function.\<close>

definition invariant :: "bool \<Rightarrow> (error + 'a) \<Rightarrow> error + 'a" where
  "invariant c k = (if c then k else Inl InvariantViolation)"

text \<open>The rest of the function is not evaluated when the invariant fails.\<close>

declare invariant_def [code_unfold]

section \<open>Helpers of \<^verbatim>\<open>serializer/utils.js\<close>\<close>

text \<open>
  Modelled from the spec: \<^verbatim>\<open>getOrDefault(map, key, defaultFunc)\<close> of
  \<^verbatim>\<open>serializer/utils.js\<close> is imported by both source files but is not among them.  The spec
  describes its use for lazy ids (an id is assigned on first request, a second request
  returns the same id), and \<^verbatim>\<open>addFunctionInstance\<close> pushes into the array it returns and later
  reads the array back from the map: on a miss the default is computed, stored under the key
  and returned; on a hit the stored value is returned and the default is not computed.

  A JavaScript \<^verbatim>\<open>Map\<close> iterates in insertion order and \<^verbatim>\<open>set\<close> on a present key keeps the key's
  position; it is an association list with distinct keys, \<^verbatim>\<open>get\<close> is \<open>map_of\<close> and \<^verbatim>\<open>set\<close> is
  \<open>AList.update\<close>.  The default is a computation on a state \<open>'s\<close>, run only on a miss.
\<close>

definition getOrDefault ::
  "('k \<times> 'v) list \<Rightarrow> 'k \<Rightarrow> ('s \<Rightarrow> 'v \<times> 's) \<Rightarrow> 's \<Rightarrow> 'v \<times> ('k \<times> 'v) list \<times> 's" where
  "getOrDefault m k defaultFunc s =
     (case map_of m k of
        Some v \<Rightarrow> (v, m, s)
      | None \<Rightarrow> (let (v, s') = defaultFunc s in (v, AList.update k v m, s')))"

section \<open>The lazy objects serializer\<close>

text \<open>
  A heap value is either an object value, identified by its address and carrying its
  \<^verbatim>\<open>temporalAlias\<close> (if any), or a value for which \<^verbatim>\<open>instanceof ObjectValue\<close> is false.
\<close>

datatype val =
    ObjectValue (address: nat) (temporalAlias: "nat option")
  | NonObjectValue nat

fun instanceofObjectValue :: "val \<Rightarrow> bool" where
  "instanceofObjectValue (ObjectValue _ _) = True"
| "instanceofObjectValue (NonObjectValue _) = False"

text \<open>
  A \<^verbatim>\<open>SerializedBody\<close>: the record \<^verbatim>\<open>{type, parentBody, entries, done}\<close>.  The field \<^verbatim>\<open>done\<close> is \<open>bdone\<close>.  Bodies are compared
  by reference in the source, so each carries the address \<open>baddr\<close> of the object.
\<close>

datatype serialized_body =
  SerializedBody (baddr: nat) (btype: string) (parentBody: "serialized_body option")
    (entries: "node list") (bdone: bool)

definition LAZY_OBJECTS_SERIALIZER_BODY_TYPE :: string where
  "LAZY_OBJECTS_SERIALIZER_BODY_TYPE = ''LazyObjectInitializer''"

text \<open>
  Modelled from the spec: \<^verbatim>\<open>Emitter.isCurrentBodyOffspringOf\<close> belongs to the emission
  context, which is not among the source files.  The spec gives its contract: the emission
  context is a tree of body records with parent links, and "is the current body an
  offspring of X" is a walk up the parent chain from the current body, which finds X when X
  is the current body itself or one of its ancestors.
\<close>

fun isBodyOffspringOf :: "serialized_body \<Rightarrow> serialized_body \<Rightarrow> bool" where
  "isBodyOffspringOf (SerializedBody a ty p es d) target =
     (a = baddr target \<or>
      (case p of None \<Rightarrow> False | Some parent \<Rightarrow> isBodyOffspringOf parent target))"

text \<open>
  The fields that \<^verbatim>\<open>LazyObjectsSerializer\<close> adds to the heap serializer, together with the
  two fields of the base class that its methods touch: the prelude and the emitter's current
  body.  \<open>nextBodyAddress\<close> is the address that the next body object gets when it is created.
\<close>

record lazy_serializer =
  lazyObjectIdSeed :: nat
  valueLazyIds :: "(val \<times> nat) list"
  lazyObjectInitializers :: "(val \<times> serialized_body) list"
  callbackLazyObjectParam :: node
  lazyObjectJSRuntimeName :: node
  initializationCallbackName :: node
  prelude :: "node list"
  emitterBody :: serialized_body
  nextBodyAddress :: nat

text \<open>
  The constructor (after \<^verbatim>\<open>super(...)\<close>, which supplies the prelude and the emitter): the
  seed starts at 1, both maps are empty, and a missing \<^verbatim>\<open>lazyObjectsRuntime\<close> option violates
  the invariant.
\<close>

definition LazyObjectsSerializer ::
  "string option \<Rightarrow> node list \<Rightarrow> serialized_body \<Rightarrow> nat \<Rightarrow> error + lazy_serializer" where
  "LazyObjectsSerializer lazyObjectsRuntime prel mainBody fresh =
     invariant (lazyObjectsRuntime \<noteq> None)
       (Inr \<lparr> lazyObjectIdSeed = 1,
              valueLazyIds = [],
              lazyObjectInitializers = [],
              callbackLazyObjectParam = Identifier ''obj'',
              lazyObjectJSRuntimeName = Identifier (the lazyObjectsRuntime),
              initializationCallbackName = Identifier ''__initializerCallback'',
              prelude = prel,
              emitterBody = mainBody,
              nextBodyAddress = fresh \<rparr>)"

text \<open>
  \<^verbatim>\<open>_getValueLazyId\<close>: \<^verbatim>\<open>getOrDefault(this._valueLazyIds, obj, () => this._lazyObjectIdSeed++)\<close>.
  The seed is a JavaScript number counting objects from 1; it is modelled as a natural number
  (the count of objects of a heap stays far below \<open>2^53\<close>, where a double stops counting).
\<close>

definition getValueLazyId :: "lazy_serializer \<Rightarrow> val \<Rightarrow> nat \<times> lazy_serializer" where
  "getValueLazyId s obj =
     (let (lazyId, ids, seed) =
            getOrDefault (valueLazyIds s) obj (\<lambda>seed. (seed, seed + 1)) (lazyObjectIdSeed s)
      in (lazyId, s\<lparr>valueLazyIds := ids, lazyObjectIdSeed := seed\<rparr>))"

text \<open>A sequence of id requests within one pass, with the ids returned in order.\<close>

fun getValueLazyIds :: "lazy_serializer \<Rightarrow> val list \<Rightarrow> nat list \<times> lazy_serializer" where
  "getValueLazyIds s [] = ([], s)"
| "getValueLazyIds s (obj # objs) =
     (let (lazyId, s') = getValueLazyId s obj;
          (lazyIds, s'') = getValueLazyIds s' objs
      in (lazyId # lazyIds, s''))"

text \<open>\<^verbatim>\<open>_serializeLazyObjectInitializerSwitchCase\<close>.\<close>

definition serializeLazyObjectInitializerSwitchCase ::
  "lazy_serializer \<Rightarrow> val \<Rightarrow> serialized_body \<Rightarrow> node \<times> lazy_serializer" where
  "serializeLazyObjectInitializerSwitchCase s obj initializer =
     (let caseBody = entries initializer @ [BreakStatement];
          (lazyId, s') = getValueLazyId s obj
      in (SwitchCase (Some (NumericLiteral (int lazyId))) caseBody, s'))"

text \<open>The loop of \<^verbatim>\<open>_serializeInitializationCallback\<close> over \<^verbatim>\<open>this._lazyObjectInitializers\<close>.\<close>

fun switchCasesLoop ::
  "lazy_serializer \<Rightarrow> (val \<times> serialized_body) list \<Rightarrow> node list \<times> lazy_serializer" where
  "switchCasesLoop s [] = ([], s)"
| "switchCasesLoop s ((obj, initializer) # rest) =
     (let (c, s') = serializeLazyObjectInitializerSwitchCase s obj initializer;
          (cs, s'') = switchCasesLoop s' rest
      in (c # cs, s''))"

definition defaultSwitchCase :: node where
  "defaultSwitchCase =
     SwitchCase None
       [ThrowStatement (NewExpression (Identifier ''Error'') [StringLiteral ''Unknown lazy id''])]"

text \<open>\<^verbatim>\<open>_serializeInitializationCallback\<close>.\<close>

definition serializeInitializationCallback :: "lazy_serializer \<Rightarrow> node \<times> lazy_serializer" where
  "serializeInitializationCallback s =
     (let (cases0, s') = switchCasesLoop s (lazyObjectInitializers s);
          switchCases = cases0 @ [defaultSwitchCase];
          selector = Identifier ''id'';
          body0 = [SwitchStatement selector switchCases];
          params = [callbackLazyObjectParam s', selector];
          initializerCallbackFunction = FunctionExpression params (blockStatement body0)
      in (varDeclaration (initializationCallbackName s') initializerCallbackFunction, s'))"

text \<open>\<^verbatim>\<open>_serializeRegisterInitializationCallback\<close>.\<close>

definition serializeRegisterInitializationCallback :: "lazy_serializer \<Rightarrow> node" where
  "serializeRegisterInitializationCallback s =
     ExpressionStatement
       (CallExpression
          (MemberExpression (lazyObjectJSRuntimeName s) (Identifier ''setLazyObjectInitializer''))
          [initializationCallbackName s])"

text \<open>\<^verbatim>\<open>_serializeCreateLazyObject\<close>.\<close>

definition serializeCreateLazyObject :: "lazy_serializer \<Rightarrow> val \<Rightarrow> node \<times> lazy_serializer" where
  "serializeCreateLazyObject s obj =
     (let (lazyId, s') = getValueLazyId s obj
      in (CallExpression
            (MemberExpression (lazyObjectJSRuntimeName s') (Identifier ''createLazyObject''))
            [NumericLiteral (int lazyId)], s'))"

text \<open>\<^verbatim>\<open>_isEmittingIntoLazyObjectInitializerBody\<close>.\<close>

definition isEmittingIntoLazyObjectInitializerBody :: "lazy_serializer \<Rightarrow> val \<Rightarrow> bool" where
  "isEmittingIntoLazyObjectInitializerBody s obj =
     (case map_of (lazyObjectInitializers s) obj of
        None \<Rightarrow> False
      | Some objLazyBody \<Rightarrow> isBodyOffspringOf (emitterBody s) objLazyBody)"

text \<open>
  \<^verbatim>\<open>getSerializeObjectIdentifier\<close>.  The method of the base class that it falls back to is
  not among the source files; \<open>super\<close> is that method, the value's normal identifier.
\<close>

definition getSerializeObjectIdentifier ::
  "(val \<Rightarrow> node) \<Rightarrow> lazy_serializer \<Rightarrow> val \<Rightarrow> node" where
  "getSerializeObjectIdentifier super s v =
     (if instanceofObjectValue v \<and> isEmittingIntoLazyObjectInitializerBody s v
      then callbackLazyObjectParam s
      else super v)"

text \<open>
  \<^verbatim>\<open>_serializeLazyObjectInitializer\<close>: a fresh body of type \<^verbatim>\<open>LazyObjectInitializer\<close> with no
  parent becomes the emitter's current body, the object's properties (and the integrity
  command) are emitted into it, and the old body is restored.  The emission itself belongs
  to the base class and the emitter; \<open>emitObjectProperties obj\<close> is what it leaves in the
  body.
\<close>

definition serializeLazyObjectInitializer ::
  "(val \<Rightarrow> node list) \<Rightarrow> lazy_serializer \<Rightarrow> val \<Rightarrow> serialized_body \<times> lazy_serializer" where
  "serializeLazyObjectInitializer emitObjectProperties s obj =
     (let initializerBody =
            SerializedBody (nextBodyAddress s) LAZY_OBJECTS_SERIALIZER_BODY_TYPE None
              (emitObjectProperties obj) False
      in (initializerBody, s\<lparr>nextBodyAddress := nextBodyAddress s + 1\<rparr>))"

text \<open>
  \<^verbatim>\<open>serializeValueRawObject\<close>.  An object with a temporal alias takes the method of the base
  class (\<open>super\<close>, not among the source files); every other object is selected for laziness.
\<close>

definition serializeValueRawObject ::
  "(val \<Rightarrow> node) \<Rightarrow> (val \<Rightarrow> node list) \<Rightarrow> lazy_serializer \<Rightarrow> val \<Rightarrow> node \<times> lazy_serializer" where
  "serializeValueRawObject super emitObjectProperties s obj =
     (if temporalAlias obj \<noteq> None then (super obj, s)
      else
        let (initializerBody, s1) = serializeLazyObjectInitializer emitObjectProperties s obj;
            s2 = s1\<lparr>lazyObjectInitializers :=
                      AList.update obj initializerBody (lazyObjectInitializers s1)\<rparr>
        in serializeCreateLazyObject s2 obj)"

text \<open>\<^verbatim>\<open>postGeneratorSerialization\<close>.\<close>

definition postGeneratorSerialization :: "lazy_serializer \<Rightarrow> lazy_serializer" where
  "postGeneratorSerialization s =
     (if length (lazyObjectInitializers s) > 0 then
        let (callback, s1) = serializeInitializationCallback s;
            s2 = s1\<lparr>prelude := prelude s1 @ [callback]\<rparr>
        in s2\<lparr>prelude := prelude s2 @ [serializeRegisterInitializationCallback s2]\<rparr>
      else s)"

text \<open>A sequence of objects handed to \<^verbatim>\<open>serializeValueRawObject\<close> within one pass.\<close>

fun serializeValueRawObjects ::
  "(val \<Rightarrow> node) \<Rightarrow> (val \<Rightarrow> node list) \<Rightarrow> lazy_serializer \<Rightarrow> val list \<Rightarrow> lazy_serializer" where
  "serializeValueRawObjects super emitObjectProperties s [] = s"
| "serializeValueRawObjects super emitObjectProperties s (obj # objs) =
     serializeValueRawObjects super emitObjectProperties
       (snd (serializeValueRawObject super emitObjectProperties s obj)) objs"

text \<open>
  The invariant of the id allocator: every assigned id is positive and below the seed, and
  no id is assigned to two objects.
\<close>

definition lazyIdsInv :: "lazy_serializer \<Rightarrow> bool" where
  "lazyIdsInv s =
     ((\<forall>k v. map_of (valueLazyIds s) k = Some v \<longrightarrow> 0 < v \<and> v < lazyObjectIdSeed s) \<and>
      (\<forall>k k' v. map_of (valueLazyIds s) k = Some v \<and> map_of (valueLazyIds s) k' = Some v
          \<longrightarrow> k = k'))"


section \<open>Residual functions: the data model\<close>

text \<open>
  The value of a residual binding is only tested with \<^verbatim>\<open>instanceof FunctionValue\<close> and handed
  to \<^verbatim>\<open>getReplacement\<close>.
\<close>

datatype binding_value = FunctionValue nat | NonFunctionValue nat

fun instanceofFunctionValue :: "binding_value \<Rightarrow> bool" where
  "instanceofFunctionValue (FunctionValue _) = True"
| "instanceofFunctionValue (NonFunctionValue _) = False"

text \<open>
  \<^verbatim>\<open>ResidualFunctionBinding\<close>: the fields that \<^verbatim>\<open>ResidualFunctions.js\<close> reads.  The field
  \<^verbatim>\<open>value\<close> is \<open>bvalue\<close>; \<^verbatim>\<open>declarativeEnvironmentRecord\<close> is \<open>None\<close> when it is \<^verbatim>\<open>null\<close>.
\<close>

record residual_function_binding =
  bvalue :: "binding_value option"
  serializedValue :: "node option"
  modified :: bool
  referentialized :: bool
  declarativeEnvironmentRecord :: "nat option"

text \<open>A referentialized scope (\<^verbatim>\<open>ScopeBinding\<close>): its name and its \<^verbatim>\<open>id\<close>.\<close>

record scope_binding =
  scopeName :: string
  scopeId :: int

text \<open>An insertion point or a usage: \<^verbatim>\<open>new BodyReference(body, index)\<close>, the body by address.\<close>

datatype body_reference = BodyReference (refBody: nat) (refIndex: nat)

text \<open>
  A function value (\<^verbatim>\<open>ECMAScriptSourceFunctionValue\<close>): its identity, the internal slots
  that are read, and its property \<^verbatim>\<open>__originalName\<close>.  \<open>None\<close> is \<^verbatim>\<open>undefined\<close>.
\<close>

record function_value =
  functionAddress :: nat
  ECMAScriptCode :: "block option"
  FormalParameters :: "node list option"
  Strict :: bool
  HasEmptyConstructor :: bool
  originalName :: "string option"

record function_instance =
  functionValue :: function_value
  residualFunctionBindings :: "(string \<times> residual_function_binding) list"
  scopeInstances :: "(string \<times> scope_binding) list"
  insertionPoint :: "body_reference option"
  initializationStatements :: "node list"
  containingAdditionalFunction :: "function_value option"

text \<open>
  \<^verbatim>\<open>FunctionInfo\<close>.  An occurrence of an identifier in the function body is a node of the
  original tree, named here by a number.  A require call is its call node (a number) with the
  name of its callee, mapped to the module id as the string \<^verbatim>\<open>"" + moduleId\<close>.  The set
  \<^verbatim>\<open>modified\<close> is \<open>modifiedNames\<close>.
\<close>

record function_info =
  unbound :: "(string \<times> nat list) list"
  usesArguments :: bool
  usesThis :: bool
  requireCalls :: "((nat \<times> string) \<times> string) list"
  modifiedNames :: "string set"

record class_method_instance =
  classSuperNode :: "node option"
  classMethodKeyNode :: "node option"
  methodType :: string
  classMethodComputed :: bool
  classPrototype :: val
  classMethodIsStatic :: bool

text \<open>
  The class expression node of \<^verbatim>\<open>t.classExpression(null, null, t.classBody([]), [])\<close>: its
  super class and the list of class methods in its body.
\<close>

record class_node =
  superClass :: "node option"
  classBody :: "node list"

text \<open>\<^verbatim>\<open>getReplacement(serializedValue, value)\<close> of the instantiator, uninterpreted.\<close>

datatype replacement = Replacement node "binding_value option"

text \<open>
  \<^verbatim>\<open>FactoryFunctionInfo\<close>.  The field \<^verbatim>\<open>factoryId\<close> is \<open>None\<close> when it was set to the
  \<^verbatim>\<open>undefined\<close> that \<^verbatim>\<open>getLocation\<close> returned.
\<close>

record factory_function_info =
  factoryId :: "node option"
  factoryFunctionInfo :: function_info
  anyContainingAdditionalFunction :: bool

text \<open>
  The collaborators of \<^verbatim>\<open>ResidualFunctions\<close> and the maps it only reads.  None of them is
  among the source files, so each is a parameter:
  \<^item> \<open>getLocation\<close> is \<^verbatim>\<open>locationService.getLocation\<close>;
  \<^item> \<open>hasInitializerStatement\<close> is the method of \<^verbatim>\<open>residualFunctionInitializers\<close>;
  \<^item> \<open>isNotEarlierThan a b\<close> is \<^verbatim>\<open>a.isNotEarlierThan(b)\<close> of \<^verbatim>\<open>BodyReference\<close>;
  \<^item> \<open>getReferentializedScopeInitialization\<close> is the method of the referentializer;
  \<^item> \<open>AreSameResidualBinding\<close> is the function of \<^verbatim>\<open>types.js\<close> (with the realm applied);
  \<^item> \<open>instantiate infos ids calls root\<close> is
    \<^verbatim>\<open>new ResidualFunctionInstantiator(infos, ids, calls, root).instantiate()\<close>;
  \<^item> \<open>statisticsAvailable\<close> tells whether \<^verbatim>\<open>realm.statistics\<close> is a \<^verbatim>\<open>SerializerStatistics\<close>;
  \<^item> \<open>debugNames\<close> is \<^verbatim>\<open>realm.debugNames\<close>;
  \<^item> \<open>rewrittenAdditionalFunctions\<close> is the map passed to \<^verbatim>\<open>spliceFunctions\<close>;
  \<^item> \<open>generateFactoryName n suffix\<close> is the name that \<^verbatim>\<open>factoryNameGenerator.generate(suffix)\<close>
    returns when the generator has handed out \<open>n\<close> names before.
\<close>

record environment =
  getLocation :: "function_value \<Rightarrow> node option"
  hasInitializerStatement :: "function_value \<Rightarrow> bool"
  isNotEarlierThan :: "body_reference \<Rightarrow> body_reference \<Rightarrow> bool"
  getReferentializedScopeInitialization :: "scope_binding \<Rightarrow> node \<Rightarrow> node list"
  AreSameResidualBinding :: "residual_function_binding \<Rightarrow> residual_function_binding \<Rightarrow> bool"
  instantiate :: "(nat \<times> factory_function_info) list \<Rightarrow> (nat \<times> replacement) list \<Rightarrow>
                  ((nat \<times> string) \<times> replacement) list \<Rightarrow> node \<Rightarrow> node"
  statisticsAvailable :: bool
  requireReturns :: "string \<Rightarrow> replacement option"
  residualFunctionInfos :: "block \<Rightarrow> function_info option"
  residualClassMethodInstances :: "function_value \<Rightarrow> class_method_instance option"
  additionalFunctionValueInfos :: "function_value \<Rightarrow> bool"
  additionalFunctionValueNestedFunctions :: "function_value \<Rightarrow> bool"
  debugNames :: bool
  rewrittenAdditionalFunctions :: "function_value \<Rightarrow> node list option"
  generateFactoryName :: "nat \<Rightarrow> string \<Rightarrow> string"

text \<open>
  The mutable fields of \<^verbatim>\<open>ResidualFunctions\<close> (\<^verbatim>\<open>this.prelude\<close> is \<open>globalPrelude\<close>, the name
  \<^verbatim>\<open>spliceFunctions\<close> gives it, and \<^verbatim>\<open>this.functions\<close> is \<open>functionsMap\<close>), the three counters of the statistics that the class updates,
  the local maps and arrays of \<^verbatim>\<open>spliceFunctions\<close>, the entries of the serialized bodies
  that the insertion points refer to (\<open>bodyEntries a\<close> is \<^verbatim>\<open>body.entries\<close> of the body at
  address \<open>a\<close>), and the number of names that \<^verbatim>\<open>factoryNameGenerator\<close> has handed out.

  The prelude, the serialized bodies and the name generator are objects that the caller
  created and still holds, so what is done to them before an exception is thrown stays done.
\<close>

record residual_functions =
  globalPrelude :: "node list"
  functionPrototypes :: "(function_value \<times> node) list"
  firstFunctionUsages :: "(function_value \<times> body_reference) list"
  functionsMap :: "(block \<times> function_instance list) list"
  classes :: "(nat \<times> class_node) list"
  functionInstances :: "function_instance list"
  functionClones :: int
  requireCallsSeen :: int
  requireCallsReplaced :: int
  functionBodies :: "(function_instance \<times> node list) list"
  additionalFunctionPreludes :: "(function_value \<times> node list) list"
  unstrictFunctionBodies :: "node list"
  strictFunctionBodies :: "node list"
  funcNodes :: "(function_value \<times> node) list"
  bodyEntries :: "nat \<Rightarrow> node list"
  factoryNamesGenerated :: nat

text \<open>A \<^verbatim>\<open>for\<close> loop whose body may throw: the first error ends it.\<close>

fun forEach :: "('s \<Rightarrow> 'a \<Rightarrow> 'e + 's) \<Rightarrow> 's \<Rightarrow> 'a list \<Rightarrow> 'e + 's" where
  "forEach f s [] = Inr s"
| "forEach f s (x # xs) = (case f s x of Inl e \<Rightarrow> Inl e | Inr s' \<Rightarrow> forEach f s' xs)"

text \<open>A JavaScript number is truthy when it is present and not zero.\<close>

fun truthy :: "'a::zero option \<Rightarrow> bool" where
  "truthy None = False"
| "truthy (Some n) = (n \<noteq> 0)"

section \<open>Residual functions: the operations\<close>

text \<open>
  The methods of \<^verbatim>\<open>ResidualFunctions\<close> and, of \<^verbatim>\<open>spliceFunctions\<close>, the closures
  \<^verbatim>\<open>defineFunction\<close>, \<^verbatim>\<open>getPrelude\<close>, \<^verbatim>\<open>getFunctionBody\<close> and \<^verbatim>\<open>naiveProcessInstances\<close>, the
  sort of the entries, the loop "Process normal functions" and the loop that splices the
  statements of the instances into their insertion points.  The parts of \<^verbatim>\<open>spliceFunctions\<close>
  that deal with additional functions, with the preludes of the referentializer and with
  the delayed initializer statements are not modelled.

  Every \<^verbatim>\<open>invariant\<close> that fails and every \<^verbatim>\<open>throw\<close> is an error result.  The exception
  leaves \<^verbatim>\<open>spliceFunctions\<close> without a return value, but it undoes nothing: the error result
  of an operation on the state carries the state as it is when the exception is thrown.
\<close>

text \<open>
  A failed \<^verbatim>\<open>invariant\<close> in the state \<open>this\<close>, and the exception of a computation that does
  not change the state, raised in the state \<open>this\<close>.
\<close>

definition invariantAt ::
  "residual_functions \<Rightarrow> bool \<Rightarrow> (error \<times> residual_functions) + 'a \<Rightarrow>
   (error \<times> residual_functions) + 'a" where
  "invariantAt this condition k = (if condition then k else Inl (InvariantViolation, this))"

definition raisedAt ::
  "residual_functions \<Rightarrow> error + 'a \<Rightarrow> (error \<times> residual_functions) + 'a" where
  "raisedAt this r = (case r of Inl e \<Rightarrow> Inl (e, this) | Inr x \<Rightarrow> Inr x)"

declare invariantAt_def [code_unfold]

text \<open>\<^verbatim>\<open>getStatistics\<close>, followed by the rest of the caller.\<close>

definition getStatistics ::
  "environment \<Rightarrow> residual_functions \<Rightarrow> (error \<times> residual_functions) + 'a \<Rightarrow>
   (error \<times> residual_functions) + 'a" where
  "getStatistics env this k = invariantAt this (statisticsAvailable env) k"

declare getStatistics_def [code_unfold]

text \<open>\<^verbatim>\<open>addFunctionInstance\<close>.\<close>

definition addFunctionInstance ::
  "residual_functions \<Rightarrow> function_instance \<Rightarrow>
   (error \<times> residual_functions) + residual_functions" where
  "addFunctionInstance this inst =
     (let this1 = this\<lparr>functionInstances := functionInstances this @ [inst]\<rparr>
      in case ECMAScriptCode (functionValue inst) of
           None \<Rightarrow> Inl (InvariantViolation, this1)
         | Some code \<Rightarrow>
             let (instances, m, u) = getOrDefault (functionsMap this1) code (\<lambda>u. ([], u)) ()
             in Inr (this1\<lparr>functionsMap := AList.update code (instances @ [inst]) m\<rparr>))"

text \<open>
  The fields as the constructor initializes them, before it adds the instances; the local
  maps and arrays as \<^verbatim>\<open>spliceFunctions\<close> creates them; a name generator that has handed
  out no name.
\<close>

definition initialResidualFunctions :: "node list \<Rightarrow> (nat \<Rightarrow> node list) \<Rightarrow> residual_functions" where
  "initialResidualFunctions prel bodies =
     \<lparr> globalPrelude = prel, functionPrototypes = [], firstFunctionUsages = [],
       functionsMap = [], classes = [], functionInstances = [],
       functionClones = 0, requireCallsSeen = 0, requireCallsReplaced = 0,
       functionBodies = [], additionalFunctionPreludes = [],
       unstrictFunctionBodies = [], strictFunctionBodies = [], funcNodes = [],
       bodyEntries = bodies, factoryNamesGenerated = 0 \<rparr>"

text \<open>
  The constructor: the fields start empty, and every instance of
  \<^verbatim>\<open>residualFunctionInstances.values()\<close> (in the iteration order of that map) whose function
  value is no additional function is added.
\<close>

definition ResidualFunctions ::
  "environment \<Rightarrow> node list \<Rightarrow> (nat \<Rightarrow> node list) \<Rightarrow> function_instance list \<Rightarrow>
   (error \<times> residual_functions) + residual_functions" where
  "ResidualFunctions env prel bodies residualFunctionInstances =
     forEach
       (\<lambda>this inst.
          if \<not> additionalFunctionValueInfos env (functionValue inst)
          then addFunctionInstance this inst else Inr this)
       (initialResidualFunctions prel bodies) residualFunctionInstances"

text \<open>\<^verbatim>\<open>setFunctionPrototype\<close> and \<^verbatim>\<open>addFunctionUsage\<close>.\<close>

definition setFunctionPrototype ::
  "residual_functions \<Rightarrow> function_value \<Rightarrow> node \<Rightarrow> residual_functions" where
  "setFunctionPrototype this constructor prototypeId =
     this\<lparr>functionPrototypes := AList.update constructor prototypeId (functionPrototypes this)\<rparr>"

definition addFunctionUsage ::
  "residual_functions \<Rightarrow> function_value \<Rightarrow> body_reference \<Rightarrow> residual_functions" where
  "addFunctionUsage this v bodyReference =
     (if map_of (firstFunctionUsages this) v = None
      then this\<lparr>firstFunctionUsages := AList.update v bodyReference (firstFunctionUsages this)\<rparr>
      else this)"

text \<open>
  \<^verbatim>\<open>_shouldUseFactoryFunction\<close>.  The size test is made only when both offsets of the block
  are truthy; the scope test looks at the first instance.
\<close>

definition shouldInlineFunction :: "block \<Rightarrow> function_instance list \<Rightarrow> bool" where
  "shouldInlineFunction funcBody instances =
     (if length (scopeInstances (hd instances)) > 0 then False
      else if truthy (bstart funcBody) \<and> truthy (bend funcBody)
           then the (bend funcBody) - the (bstart funcBody) \<le> 30
           else True)"

definition shouldUseFactoryFunction ::
  "environment \<Rightarrow> block \<Rightarrow> function_instance list \<Rightarrow> error + bool" where
  "shouldUseFactoryFunction env funcBody instances =
     invariant (length instances > 0)
       (case residualFunctionInfos env funcBody of
          None \<Rightarrow> Inl InvariantViolation
        | Some functionInfo \<Rightarrow>
            Inr (\<not> shouldInlineFunction funcBody instances \<and> length instances > 1 \<and>
                 \<not> usesArguments functionInfo))"


text \<open>The tests of \<^verbatim>\<open>babel-types\<close> that the class uses.\<close>

fun isFunctionExpression :: "node \<Rightarrow> bool" where
  "isFunctionExpression (FunctionExpression _ _) = True"
| "isFunctionExpression _ = False"

fun isCallExpression :: "node \<Rightarrow> bool" where
  "isCallExpression (CallExpression _ _) = True"
| "isCallExpression _ = False"

fun isClassExpression :: "node \<Rightarrow> bool" where
  "isClassExpression (ClassExpressionRef _) = True"
| "isClassExpression _ = False"

fun isIdentifier :: "node \<Rightarrow> bool" where
  "isIdentifier (Identifier _) = True"
| "isIdentifier _ = False"

fun isExpression :: "node \<Rightarrow> bool" where
  "isExpression (Identifier _) = True"
| "isExpression (NumericLiteral _) = True"
| "isExpression (StringLiteral _) = True"
| "isExpression NullLiteral = True"
| "isExpression ThisExpression = True"
| "isExpression (MemberExpression _ _) = True"
| "isExpression (CallExpression _ _) = True"
| "isExpression (NewExpression _ _) = True"
| "isExpression (FunctionExpression _ _) = True"
| "isExpression (ClassExpressionRef _) = True"
| "isExpression (OtherExpression _) = True"
| "isExpression _ = False"

text \<open>\<^verbatim>\<open>_getIdentifierReplacements\<close>.\<close>

definition getIdentifierReplacements ::
  "environment \<Rightarrow> block \<Rightarrow> (string \<times> residual_function_binding) list \<Rightarrow>
   error + (nat \<times> replacement) list" where
  "getIdentifierReplacements env funcBody bindings =
     (case residualFunctionInfos env funcBody of
        None \<Rightarrow> Inl InvariantViolation
      | Some functionInfo \<Rightarrow>
          forEach
            (\<lambda>res (name, nodes).
               case map_of bindings name of
                 None \<Rightarrow> Inr res
               | Some residualFunctionBinding \<Rightarrow>
                   if declarativeEnvironmentRecord residualFunctionBinding = None \<and>
                      bvalue residualFunctionBinding = None
                   then Inr res
                   else
                     (case serializedValue residualFunctionBinding of
                        None \<Rightarrow> Inl InvariantViolation
                      | Some sv \<Rightarrow>
                          Inr (fold
                                 (\<lambda>n. AList.update n
                                    (Replacement sv
                                       (if referentialized residualFunctionBinding then None
                                        else bvalue residualFunctionBinding)))
                                 nodes res)))
            [] (unbound functionInfo))"

text \<open>\<^verbatim>\<open>_getCallReplacements\<close>, which also counts in the statistics.\<close>

definition getCallReplacements ::
  "environment \<Rightarrow> residual_functions \<Rightarrow> block \<Rightarrow>
   (error \<times> residual_functions) +
   ((nat \<times> string) \<times> replacement) list \<times> residual_functions" where
  "getCallReplacements env this funcBody =
     (case residualFunctionInfos env funcBody of
        None \<Rightarrow> Inl (InvariantViolation, this)
      | Some functionInfo \<Rightarrow>
          forEach
            (\<lambda>(res, this) (callNode, moduleId).
               getStatistics env this
                 (let this1 = this\<lparr>requireCallsSeen := requireCallsSeen this + 1\<rparr>
                  in if snd callNode \<in> modifiedNames functionInfo then Inr (res, this1)
                     else
                       (case requireReturns env moduleId of
                          None \<Rightarrow> Inr (res, this1)
                        | Some r \<Rightarrow>
                            Inr (AList.update callNode r res,
                                 this1\<lparr>requireCallsReplaced :=
                                          requireCallsReplaced this1 + 1\<rparr>))))
            ([], this) (requireCalls functionInfo))"

text \<open>
  \<^verbatim>\<open>_sortFunctionByOriginalOrdering\<close>: \<^verbatim>\<open>Array.prototype.sort\<close> with the comparator
  \<^verbatim>\<open>funcAUniqueTag - funcBUniqueTag\<close>.  The comparator checks that both tags are truthy; a
  sort of two or more entries compares every entry at least once, a sort of fewer entries
  compares nothing.  On distinct tags every sorting algorithm returns the one ascending
  arrangement, given here by the insertion sort \<open>sort_key\<close>.
\<close>

definition sortFunctionByOriginalOrdering ::
  "(block \<times> function_instance list) list \<Rightarrow> error + (block \<times> function_instance list) list" where
  "sortFunctionByOriginalOrdering functionEntries =
     invariant (length functionEntries < 2 \<or>
                list_all (\<lambda>func. truthy (uniqueOrderedTag (fst func))) functionEntries)
       (Inr (sort_key (\<lambda>func. the (uniqueOrderedTag (fst func))) functionEntries))"

text \<open>\<^verbatim>\<open>_createFunctionExpression\<close>: the block is copied, the copy belongs to the new node.\<close>

definition createFunctionExpression :: "node list \<Rightarrow> block \<Rightarrow> node" where
  "createFunctionExpression params funcBody = FunctionExpression params funcBody"

text \<open>
  \<^verbatim>\<open>_getOrCreateClassNode\<close>, for the class prototype at the given address: the reference to
  the class node, and the store with the node created when it was missing.
\<close>

definition getOrCreateClassNode :: "residual_functions \<Rightarrow> nat \<Rightarrow> node \<times> residual_functions" where
  "getOrCreateClassNode this classPrototypeAddress =
     (if map_of (classes this) classPrototypeAddress = None
      then (ClassExpressionRef classPrototypeAddress,
            this\<lparr>classes := AList.update classPrototypeAddress
                               \<lparr>superClass = None, classBody = []\<rparr> (classes this)\<rparr>)
      else (ClassExpressionRef classPrototypeAddress, this))"

text \<open>
  The arrays that \<^verbatim>\<open>spliceFunctions\<close> pushes statements into: the global prelude, the prelude
  of an additional function, and the statements to splice at the insertion point of an
  instance (\<^verbatim>\<open>functionBodies\<close>).
\<close>

datatype statement_target =
    GlobalPrelude
  | AdditionalFunctionPrelude function_value
  | FunctionBody function_instance

text \<open>\<^verbatim>\<open>getPrelude\<close> and \<^verbatim>\<open>getFunctionBody\<close>; both create the array when it is missing.\<close>

definition getPrelude ::
  "residual_functions \<Rightarrow> function_instance \<Rightarrow> statement_target \<times> residual_functions" where
  "getPrelude this inst =
     (case containingAdditionalFunction inst of
        Some additionalFunction \<Rightarrow>
          let (b, m, u) = getOrDefault (additionalFunctionPreludes this) additionalFunction
                            (\<lambda>u. ([], u)) ()
          in (AdditionalFunctionPrelude additionalFunction,
              this\<lparr>additionalFunctionPreludes := m\<rparr>)
      | None \<Rightarrow> (GlobalPrelude, this))"

definition getFunctionBody ::
  "residual_functions \<Rightarrow> function_instance \<Rightarrow> statement_target \<times> residual_functions" where
  "getFunctionBody this inst =
     (let (b, m, u) = getOrDefault (functionBodies this) inst (\<lambda>u. ([], u)) ()
      in (FunctionBody inst, this\<lparr>functionBodies := m\<rparr>))"

text \<open>\<^verbatim>\<open>body.push(...statements)\<close> on one of these arrays.\<close>

fun pushStatements ::
  "residual_functions \<Rightarrow> statement_target \<Rightarrow> node list \<Rightarrow> residual_functions" where
  "pushStatements this GlobalPrelude stmts =
     this\<lparr>globalPrelude := globalPrelude this @ stmts\<rparr>"
| "pushStatements this (AdditionalFunctionPrelude additionalFunction) stmts =
     this\<lparr>additionalFunctionPreludes :=
            AList.update additionalFunction
              ((case map_of (additionalFunctionPreludes this) additionalFunction of
                  None \<Rightarrow> [] | Some b \<Rightarrow> b) @ stmts)
              (additionalFunctionPreludes this)\<rparr>"
| "pushStatements this (FunctionBody inst) stmts =
     this\<lparr>functionBodies :=
            AList.update inst
              ((case map_of (functionBodies this) inst of None \<Rightarrow> [] | Some b \<Rightarrow> b) @ stmts)
              (functionBodies this)\<rparr>"

text \<open>The closure \<^verbatim>\<open>defineFunction\<close> of \<^verbatim>\<open>spliceFunctions\<close>.\<close>

definition defineFunction ::
  "environment \<Rightarrow> residual_functions \<Rightarrow> function_instance \<Rightarrow> node \<Rightarrow> node \<Rightarrow>
   (error \<times> residual_functions) + residual_functions" where
  "defineFunction env this inst funcId funcOrClassNode =
     (let this1 =
            (if length (initializationStatements inst) > 0
             then (let (initializationBody, t) = getFunctionBody this inst
                   in pushStatements t initializationBody (initializationStatements inst))
             else this)
      in case (if isFunctionExpression funcOrClassNode
               then Inr (getPrelude
                           (this1\<lparr>funcNodes := AList.update (functionValue inst) funcOrClassNode
                                                  (funcNodes this1)\<rparr>) inst)
               else invariantAt this1
                      (isCallExpression funcOrClassNode \<or> isClassExpression funcOrClassNode)
                      (Inr (getFunctionBody this1 inst))) of
           Inl e \<Rightarrow> Inl e
         | Inr (target, this2) \<Rightarrow>
             let this3 = pushStatements this2 target [varDeclaration funcId funcOrClassNode]
             in (case map_of (functionPrototypes this3) (functionValue inst) of
                   None \<Rightarrow> Inr this3
                 | Some prototypeId \<Rightarrow>
                     (case getLocation env (functionValue inst) of
                        None \<Rightarrow> Inl (InvariantViolation, this3)
                      | Some ident \<Rightarrow>
                          Inr (pushStatements this3 target
                                 [varDeclaration prototypeId
                                    (MemberExpression ident (Identifier ''prototype''))]))))"


text \<open>
  \<^verbatim>\<open>strictFunctionBodies.push(node)\<close> or \<^verbatim>\<open>unstrictFunctionBodies.push(node)\<close>, by the
  \<^verbatim>\<open>$Strict\<close> slot of the function value.
\<close>

definition pushFunctionBodyNode ::
  "residual_functions \<Rightarrow> function_value \<Rightarrow> node \<Rightarrow> residual_functions" where
  "pushFunctionBodyNode this fv funcOrClassNode =
     (if Strict fv
      then this\<lparr>strictFunctionBodies := strictFunctionBodies this @ [funcOrClassNode]\<rparr>
      else this\<lparr>unstrictFunctionBodies := unstrictFunctionBodies this @ [funcOrClassNode]\<rparr>)"

text \<open>
  \<^verbatim>\<open>node.body.body = statements.concat(node.body.body)\<close>.  A node without a block as its
  body has no \<^verbatim>\<open>body.body\<close> to read.
\<close>

fun prependToBody :: "node list \<Rightarrow> node \<Rightarrow> error + node" where
  "prependToBody stmts (FunctionExpression ps b) =
     Inr (FunctionExpression ps
            (BlockStatement (bstart b) (bend b) (uniqueOrderedTag b) (stmts @ body b)))"
| "prependToBody stmts (ClassMethod kind key ps b computed static) =
     Inr (ClassMethod kind key ps
            (BlockStatement (bstart b) (bend b) (uniqueOrderedTag b) (stmts @ body b))
            computed static)"
| "prependToBody stmts _ = Inl TypeError"

text \<open>
  \<^verbatim>\<open>funcOrClassNode.body.body.unshift(classMethod)\<close> for a constructor,
  \<^verbatim>\<open>funcOrClassNode.body.body.push(classMethod)\<close> for any other method, on the class node
  stored for the prototype.
\<close>

definition addClassMethod ::
  "residual_functions \<Rightarrow> nat \<Rightarrow> bool \<Rightarrow> node \<Rightarrow> residual_functions" where
  "addClassMethod this classPrototypeAddress isConstructor classMethod =
     this\<lparr>classes :=
            AList.map_entry classPrototypeAddress
              (\<lambda>c. c\<lparr>classBody := (if isConstructor then classMethod # classBody c
                                     else classBody c @ [classMethod])\<rparr>)
              (classes this)\<rparr>"

text \<open>
  The class method branch of the loop of \<^verbatim>\<open>naiveProcessInstances\<close>.  The result \<open>None\<close> is the
  \<^verbatim>\<open>continue\<close> of a method that is no constructor; otherwise it is the class node to define.
\<close>

definition naiveClassMethod ::
  "environment \<Rightarrow> (nat \<times> factory_function_info) list \<Rightarrow> block \<Rightarrow> node list \<Rightarrow>
   residual_functions \<Rightarrow> function_instance \<Rightarrow> class_method_instance \<Rightarrow>
   (error \<times> residual_functions) + node option \<times> residual_functions" where
  "naiveClassMethod env factoryFunctionInfos funcBody params this inst classMethodInstance =
     (let isConstructor = (methodType classMethodInstance = ''constructor'')
      in invariantAt this (instanceofObjectValue (classPrototype classMethodInstance))
        (case classMethodKeyNode classMethodInstance of
           None \<Rightarrow> Inl (InvariantViolation, this)
         | Some key \<Rightarrow>
             invariantAt this (isExpression key \<or> isIdentifier key)
               (let (funcOrClassNode, this1) =
                      getOrCreateClassNode this (address (classPrototype classMethodInstance));
                    hasEmptyConstructor = HasEmptyConstructor (functionValue inst)
                in case (if \<not> isConstructor \<or> (isConstructor \<and> \<not> hasEmptyConstructor)
                         then
                           (case raisedAt this1
                                   (getIdentifierReplacements env funcBody
                                      (residualFunctionBindings inst)) of
                              Inl e \<Rightarrow> Inl e
                            | Inr ids \<Rightarrow>
                                (case getCallReplacements env this1 funcBody of
                                   Inl e \<Rightarrow> Inl e
                                 | Inr (calls, this2) \<Rightarrow>
                                     Inr (addClassMethod this2
                                            (address (classPrototype classMethodInstance))
                                            isConstructor
                                            (instantiate env factoryFunctionInfos ids calls
                                               (ClassMethod (methodType classMethodInstance) key
                                                  params funcBody
                                                  (classMethodComputed classMethodInstance)
                                                  (classMethodIsStatic classMethodInstance))))))
                         else Inr this1) of
                     Inl e \<Rightarrow> Inl e
                   | Inr this3 \<Rightarrow>
                       if \<not> isConstructor then Inr (None, this3)
                       else
                         Inr (Some funcOrClassNode,
                              (case classSuperNode classMethodInstance of
                                 None \<Rightarrow> this3
                               | Some superNode \<Rightarrow>
                                   this3\<lparr>classes :=
                                     AList.map_entry
                                       (address (classPrototype classMethodInstance))
                                       (\<lambda>c. c\<lparr>superClass := Some superNode\<rparr>) (classes this3)\<rparr>)))))"

text \<open>The branch of the same loop for a function that is no class method.\<close>

definition naiveFunction ::
  "environment \<Rightarrow> (nat \<times> factory_function_info) list \<Rightarrow> block \<Rightarrow> node list \<Rightarrow>
   residual_functions \<Rightarrow> function_instance \<Rightarrow>
   (error \<times> residual_functions) + node option \<times> residual_functions" where
  "naiveFunction env factoryFunctionInfos funcBody params this inst =
     (case raisedAt this
             (getIdentifierReplacements env funcBody (residualFunctionBindings inst)) of
        Inl e \<Rightarrow> Inl e
      | Inr ids \<Rightarrow>
          (case getCallReplacements env this funcBody of
             Inl e \<Rightarrow> Inl e
           | Inr (calls, this1) \<Rightarrow>
               let funcOrClassNode =
                     instantiate env factoryFunctionInfos ids calls
                       (createFunctionExpression params funcBody);
                   scopeInitialization =
                     concat (map (\<lambda>(name, scope).
                                    getReferentializedScopeInitialization env scope
                                      (NumericLiteral (scopeId scope)))
                               (scopeInstances inst))
               in (case raisedAt this1
                          (if length scopeInitialization > 0
                           then prependToBody scopeInitialization funcOrClassNode
                           else Inr funcOrClassNode) of
                     Inl e \<Rightarrow> Inl e
                   | Inr funcOrClassNode' \<Rightarrow> Inr (Some funcOrClassNode', this1))))"

text \<open>One iteration of the loop of \<^verbatim>\<open>naiveProcessInstances\<close>.\<close>

definition naiveProcessInstance ::
  "environment \<Rightarrow> (nat \<times> factory_function_info) list \<Rightarrow> block \<Rightarrow> node list \<Rightarrow>
   residual_functions \<Rightarrow> function_instance \<Rightarrow>
   (error \<times> residual_functions) + residual_functions" where
  "naiveProcessInstance env factoryFunctionInfos funcBody params this inst =
     (case (case residualClassMethodInstances env (functionValue inst) of
              Some classMethodInstance \<Rightarrow>
                naiveClassMethod env factoryFunctionInfos funcBody params this inst
                  classMethodInstance
            | None \<Rightarrow> naiveFunction env factoryFunctionInfos funcBody params this inst) of
        Inl e \<Rightarrow> Inl e
      | Inr (None, this1) \<Rightarrow> Inr this1
      | Inr (Some funcOrClassNode, this1) \<Rightarrow>
          (case getLocation env (functionValue inst) of
             None \<Rightarrow> Inl (InvariantViolation, this1)
           | Some ident \<Rightarrow>
               defineFunction env
                 (pushFunctionBodyNode this1 (functionValue inst) funcOrClassNode)
                 inst ident funcOrClassNode))"

text \<open>The closure \<^verbatim>\<open>naiveProcessInstances\<close>.\<close>

definition naiveProcessInstances ::
  "environment \<Rightarrow> (nat \<times> factory_function_info) list \<Rightarrow> block \<Rightarrow> node list \<Rightarrow>
   residual_functions \<Rightarrow> function_instance list \<Rightarrow>
   (error \<times> residual_functions) + residual_functions" where
  "naiveProcessInstances env factoryFunctionInfos funcBody params this instancesToSplice =
     getStatistics env this
       (forEach (naiveProcessInstance env factoryFunctionInfos funcBody params)
          (this\<lparr>functionClones := functionClones this + int (length instancesToSplice)\<rparr>)
          instancesToSplice)"


text \<open>
  The inner loop of the factory path over the instances, for one free name: whether the
  binding of some instance differs from the binding of the first, and \<^verbatim>\<open>lastBinding\<close>.
\<close>

fun compareBindings ::
  "environment \<Rightarrow> string \<Rightarrow> residual_function_binding option \<Rightarrow> function_instance list \<Rightarrow>
   error + bool \<times> residual_function_binding option" where
  "compareBindings env name lastBinding [] = Inr (False, lastBinding)"
| "compareBindings env name lastBinding (inst # rest) =
     (case map_of (residualFunctionBindings inst) name of
        None \<Rightarrow> Inl InvariantViolation
      | Some residualBinding \<Rightarrow>
          invariant (\<not> modified residualBinding)
            (case lastBinding of
               None \<Rightarrow> compareBindings env name (Some residualBinding) rest
             | Some lb \<Rightarrow>
                 if \<not> AreSameResidualBinding env residualBinding lb
                 then Inr (True, lastBinding)
                 else compareBindings env name lastBinding rest))"

text \<open>
  The loop over \<^verbatim>\<open>unbound.keys()\<close>: the names whose bindings vary (\<^verbatim>\<open>factoryNames\<close>) and the
  bindings that all instances share (\<^verbatim>\<open>sameResidualBindings\<close>).
\<close>

definition partitionBindings ::
  "environment \<Rightarrow> function_instance list \<Rightarrow> string list \<Rightarrow>
   error + string list \<times> (string \<times> residual_function_binding) list" where
  "partitionBindings env normalInstances names =
     forEach
       (\<lambda>(factoryNames, sameResidualBindings) name.
          case map_of (residualFunctionBindings (hd normalInstances)) name of
            None \<Rightarrow> Inl InvariantViolation
          | Some firstBinding \<Rightarrow>
              if modified firstBinding
              then Inr (factoryNames, AList.update name firstBinding sameResidualBindings)
              else
                (case compareBindings env name None normalInstances of
                   Inl e \<Rightarrow> Inl e
                 | Inr (isDifferent, lastBinding) \<Rightarrow>
                     if isDifferent then Inr (factoryNames @ [name], sameResidualBindings)
                     else
                       (case lastBinding of
                          None \<Rightarrow> Inl InvariantViolation
                        | Some lb \<Rightarrow>
                            Inr (factoryNames, AList.update name lb sameResidualBindings))))
       ([], []) names"

text \<open>
  \<^verbatim>\<open>factoryNames.map(...)\<close> for one instance: the serialized values of the varying bindings,
  and \<^verbatim>\<open>hasFunctionArg\<close>.
\<close>

fun factoryArguments ::
  "(string \<times> residual_function_binding) list \<Rightarrow> string list \<Rightarrow> error + node list \<times> bool" where
  "factoryArguments bindings [] = Inr ([], False)"
| "factoryArguments bindings (name # names) =
     (case map_of bindings name of
        None \<Rightarrow> Inl InvariantViolation
      | Some residualBinding \<Rightarrow>
          (case serializedValue residualBinding of
             None \<Rightarrow> Inl InvariantViolation
           | Some sv \<Rightarrow>
               (case factoryArguments bindings names of
                  Inl e \<Rightarrow> Inl e
                | Inr (args, hasFunctionArg) \<Rightarrow>
                    Inr (sv # args,
                         (case bvalue residualBinding of
                            None \<Rightarrow> False
                          | Some v \<Rightarrow> instanceofFunctionValue v) \<or> hasFunctionArg))))"

text \<open>
  The loop over the formal parameters in the wrapper branch: a parameter that is no
  identifier is a fatal error, every other one is pushed to \<^verbatim>\<open>callArgs\<close>.
\<close>

fun pushParameters :: "node list \<Rightarrow> node list \<Rightarrow> error + node list" where
  "pushParameters callArgs [] = Inr callArgs"
| "pushParameters callArgs (param # params) =
     (if \<not> isIdentifier param
      then Inl (FatalError ''TODO: do not know how to deal with non-Identifier parameters'')
      else pushParameters (callArgs @ [param]) params)"

text \<open>
  The node \<^verbatim>\<open>funcNode\<close> that the factory path computes for one instance: a wrapper function
  around \<^verbatim>\<open>factory.call\<close>, or the expression \<^verbatim>\<open>factory.bind(null, ...)\<close>.
\<close>

definition factoryFuncNode ::
  "environment \<Rightarrow> residual_functions \<Rightarrow> node \<Rightarrow> string list \<Rightarrow> node list \<Rightarrow> bool \<Rightarrow>
   function_instance \<Rightarrow> error + node" where
  "factoryFuncNode env this factoryIdent factoryNames params usesThisFlag inst =
     (case factoryArguments (residualFunctionBindings inst) factoryNames of
        Inl e \<Rightarrow> Inl e
      | Inr (args, hasFunctionArg) \<Rightarrow>
          let flatArgs = args @ map (\<lambda>entry. NumericLiteral (scopeId (snd entry)))
                                  (scopeInstances inst);
              firstUsage = map_of (firstFunctionUsages this) (functionValue inst)
          in (case insertionPoint inst of
                None \<Rightarrow> Inl InvariantViolation
              | Some point \<Rightarrow>
                  if hasInitializerStatement env (functionValue inst) \<or>
                     usesThisFlag \<or>
                     hasFunctionArg \<or>
                     (case firstUsage of
                        None \<Rightarrow> False
                      | Some usage \<Rightarrow> \<not> isNotEarlierThan env usage point) \<or>
                     map_of (functionPrototypes this) (functionValue inst) \<noteq> None
                  then
                    (case pushParameters (ThisExpression # flatArgs) params of
                       Inl e \<Rightarrow> Inl e
                     | Inr callArgs \<Rightarrow>
                         Inr (FunctionExpression params
                                (blockStatement
                                   [ReturnStatement
                                      (CallExpression
                                         (MemberExpression factoryIdent (Identifier ''call''))
                                         callArgs)])))
                  else
                    Inr (CallExpression
                           (MemberExpression factoryIdent (Identifier ''bind''))
                           (NullLiteral # flatArgs))))"

text \<open>
  One iteration of the loop of the factory path over the instances.  Nothing is pushed
  before \<^verbatim>\<open>funcNode\<close> is complete, so an exception is raised in the state in which the
  iteration began.
\<close>

definition factoryProcessInstance ::
  "environment \<Rightarrow> node \<Rightarrow> string list \<Rightarrow> node list \<Rightarrow> bool \<Rightarrow>
   residual_functions \<Rightarrow> function_instance \<Rightarrow>
   (error \<times> residual_functions) + residual_functions" where
  "factoryProcessInstance env factoryIdent factoryNames params usesThisFlag this inst =
     (case getLocation env (functionValue inst) of
        None \<Rightarrow> Inl (InvariantViolation, this)
      | Some functionId \<Rightarrow>
          (case raisedAt this
                  (factoryFuncNode env this factoryIdent factoryNames params usesThisFlag
                     inst) of
             Inl e \<Rightarrow> Inl e
           | Inr funcNode \<Rightarrow>
               defineFunction env
                 (if isFunctionExpression funcNode
                  then pushFunctionBodyNode this (functionValue inst) funcNode
                  else this)
                 inst functionId funcNode))"

text \<open>
  The factory path for one code block and its normal instances, up to the factory node:
  the factory info of the block, the names whose bindings vary (\<^verbatim>\<open>factoryNames\<close>), and the
  factory function, whose parameters are these names, the scope names of the first instance
  and the formal parameters.
\<close>

definition createFactory ::
  "environment \<Rightarrow> (nat \<times> factory_function_info) list \<Rightarrow> block \<Rightarrow> function_info \<Rightarrow>
   node list \<Rightarrow> residual_functions \<Rightarrow> function_instance list \<Rightarrow>
   (error \<times> residual_functions) +
   factory_function_info \<times> string list \<times> node \<times> residual_functions" where
  "createFactory env factoryFunctionInfos funcBody functionInfo params this normalInstances =
     invariantAt this (truthy (uniqueOrderedTag funcBody))
       (case map_of factoryFunctionInfos (the (uniqueOrderedTag funcBody)) of
          None \<Rightarrow> Inl (InvariantViolation, this)
        | Some factoryInfo \<Rightarrow>
            (case raisedAt this
                    (partitionBindings env normalInstances (map fst (unbound functionInfo))) of
               Inl e \<Rightarrow> Inl e
             | Inr (factoryNames, sameResidualBindings) \<Rightarrow>
                 let firstScopes = scopeInstances (hd normalInstances);
                     factoryParams =
                       (map Identifier factoryNames @
                        map (\<lambda>entry. Identifier (fst entry)) firstScopes) @ params;
                     scopeInitialization =
                       concat (map (\<lambda>entry.
                                      getReferentializedScopeInitialization env (snd entry)
                                        (Identifier (fst entry)))
                                 firstScopes)
                 in (case raisedAt this
                            (getIdentifierReplacements env funcBody sameResidualBindings) of
                       Inl e \<Rightarrow> Inl e
                     | Inr ids \<Rightarrow>
                         (case getCallReplacements env this funcBody of
                            Inl e \<Rightarrow> Inl e
                          | Inr (calls, this1) \<Rightarrow>
                              (case raisedAt this1
                                      (let factoryNode =
                                             instantiate env factoryFunctionInfos ids calls
                                               (createFunctionExpression factoryParams
                                                  funcBody)
                                       in if length scopeInitialization > 0
                                          then prependToBody scopeInitialization factoryNode
                                          else Inr factoryNode) of
                                 Inl e \<Rightarrow> Inl e
                               | Inr factoryNode \<Rightarrow>
                                   Inr (factoryInfo, factoryNames, factoryNode, this1))))))"

text \<open>
  The factory path for one code block and its normal instances.  The factory declaration
  is pushed onto \<^verbatim>\<open>this.prelude\<close> and the factory onto the array of function bodies before
  the loop over the instances begins.  When the factory info holds no identifier, the
  declaration cannot be built: the builder \<^verbatim>\<open>t.variableDeclarator\<close> of \<^verbatim>\<open>babel-types\<close>
  validates the fields of the node and throws a \<^verbatim>\<open>TypeError\<close> for an \<^verbatim>\<open>undefined\<close> identifier.
\<close>

definition factoryProcessInstances ::
  "environment \<Rightarrow> (nat \<times> factory_function_info) list \<Rightarrow> block \<Rightarrow> function_info \<Rightarrow>
   node list \<Rightarrow> residual_functions \<Rightarrow> function_instance list \<Rightarrow>
   (error \<times> residual_functions) + residual_functions" where
  "factoryProcessInstances env factoryFunctionInfos funcBody functionInfo params this
     normalInstances =
     (case createFactory env factoryFunctionInfos funcBody functionInfo params this
             normalInstances of
        Inl e \<Rightarrow> Inl e
      | Inr (factoryInfo, factoryNames, factoryNode, this1) \<Rightarrow>
          (case factoryId factoryInfo of
             None \<Rightarrow> Inl (TypeError, this1)
           | Some factoryIdent \<Rightarrow>
               forEach
                 (factoryProcessInstance env factoryIdent factoryNames params
                    (usesThis functionInfo))
                 (pushFunctionBodyNode
                    (this1\<lparr>globalPrelude := globalPrelude this1 @
                        [varDeclaration factoryIdent factoryNode]\<rparr>)
                    (functionValue (hd normalInstances)) factoryNode)
                 normalInstances))"

text \<open>
  \<^verbatim>\<open>_hasRewrittenFunctionInstance\<close> and \<^verbatim>\<open>_generateFactoryFunctionInfos\<close>.  The loop runs over
  \<^verbatim>\<open>this.functions\<close> in the iteration order of the map; a factory name is generated for
  every code block that \<^verbatim>\<open>_shouldUseFactoryFunction\<close> accepts with all of its instances.
  The suffix is \<^verbatim>\<open>(__originalName || debugNames) ? "factoryFunction" : ""\<close>; a string is truthy
  when it is not empty.
\<close>

definition hasRewrittenFunctionInstance :: "environment \<Rightarrow> function_instance list \<Rightarrow> bool" where
  "hasRewrittenFunctionInstance env instances =
     list_ex (\<lambda>inst. rewrittenAdditionalFunctions env (functionValue inst) \<noteq> None) instances"

definition generateFactoryFunctionInfo ::
  "environment \<Rightarrow> (nat \<times> factory_function_info) list \<times> residual_functions \<Rightarrow>
   block \<times> function_instance list \<Rightarrow>
   (error \<times> residual_functions) + (nat \<times> factory_function_info) list \<times> residual_functions" where
  "generateFactoryFunctionInfo env state entry =
     (let factoryFunctionInfos = fst state; this = snd state;
          functionBody = fst entry; instances = snd entry
      in invariantAt this (length instances > 0)
           (let suffix =
                  (if (case originalName (functionValue (hd instances)) of
                         None \<Rightarrow> False | Some name \<Rightarrow> name \<noteq> []) \<or> debugNames env
                   then ''factoryFunction'' else [])
            in case raisedAt this (shouldUseFactoryFunction env functionBody instances) of
                 Inl e \<Rightarrow> Inl e
               | Inr useFactory \<Rightarrow>
                   (case (if useFactory
                          then invariantAt this
                                 (\<not> hasRewrittenFunctionInstance env instances)
                                 (Inr (Some (Identifier
                                               (generateFactoryName env
                                                  (factoryNamesGenerated this) suffix)),
                                       this\<lparr>factoryNamesGenerated :=
                                              Suc (factoryNamesGenerated this)\<rparr>))
                          else Inr (getLocation env (functionValue (hd instances)), this)) of
                      Inl e \<Rightarrow> Inl e
                    | Inr (ident, this1) \<Rightarrow>
                        invariantAt this1 (truthy (uniqueOrderedTag functionBody))
                          (case residualFunctionInfos env functionBody of
                             None \<Rightarrow> Inl (InvariantViolation, this1)
                           | Some functionInfo \<Rightarrow>
                               Inr (AList.update (the (uniqueOrderedTag functionBody))
                                      \<lparr> factoryId = ident, factoryFunctionInfo = functionInfo,
                                        anyContainingAdditionalFunction =
                                          (\<not> list_all
                                               (\<lambda>inst. containingAdditionalFunction inst = None)
                                               instances) \<rparr>
                                      factoryFunctionInfos,
                                    this1)))))"

definition generateFactoryFunctionInfos ::
  "environment \<Rightarrow> residual_functions \<Rightarrow>
   (error \<times> residual_functions) + (nat \<times> factory_function_info) list \<times> residual_functions" where
  "generateFactoryFunctionInfos env this =
     forEach (generateFactoryFunctionInfo env) ([], this) (functionsMap this)"

text \<open>
  One iteration of the loop "Process normal functions" of \<^verbatim>\<open>spliceFunctions\<close>, for the entry
  \<^verbatim>\<open>[funcBody, instances]\<close>, with the map that \<^verbatim>\<open>_generateFactoryFunctionInfos\<close> returned.
\<close>

definition processFunctionEntry ::
  "environment \<Rightarrow> (nat \<times> factory_function_info) list \<Rightarrow> residual_functions \<Rightarrow>
   block \<times> function_instance list \<Rightarrow> (error \<times> residual_functions) + residual_functions" where
  "processFunctionEntry env factoryFunctionInfos this entry =
     (let funcBody = fst entry; instances = snd entry
      in case residualFunctionInfos env funcBody of
           None \<Rightarrow> Inl (InvariantViolation, this)
         | Some functionInfo \<Rightarrow>
             (case instances of
                [] \<Rightarrow> Inl (TypeError, this)
              | first # others \<Rightarrow>
                  (case FormalParameters (functionValue first) of
                     None \<Rightarrow> Inl (InvariantViolation, this)
                   | Some params \<Rightarrow>
                       let normalInstances =
                             filter (\<lambda>inst. \<not> additionalFunctionValueNestedFunctions env
                                                 (functionValue inst)) instances;
                           additionalFunctionNestedInstances =
                             filter (\<lambda>inst. additionalFunctionValueNestedFunctions env
                                               (functionValue inst)) instances
                       in (case (if length additionalFunctionNestedInstances > 0
                                 then naiveProcessInstances env factoryFunctionInfos funcBody
                                        params this additionalFunctionNestedInstances
                                 else Inr this) of
                             Inl e \<Rightarrow> Inl e
                           | Inr this1 \<Rightarrow>
                               if length normalInstances > 0
                               then
                                 (case raisedAt this1
                                         (shouldUseFactoryFunction env funcBody
                                            normalInstances) of
                                    Inl e \<Rightarrow> Inl e
                                  | Inr useFactory \<Rightarrow>
                                      if \<not> useFactory
                                      then
                                        (case naiveProcessInstances env factoryFunctionInfos
                                                funcBody params this1 normalInstances of
                                           Inl e \<Rightarrow> Inl e
                                         | Inr this2 \<Rightarrow>
                                             getStatistics env this2
                                               (Inr (this2\<lparr>functionClones :=
                                                       functionClones this2 - 1\<rparr>)))
                                      else
                                        factoryProcessInstances env factoryFunctionInfos
                                          funcBody functionInfo params this1 normalInstances)
                               else Inr this1))))"

text \<open>
  \<^verbatim>\<open>spliceFunctions\<close> from \<^verbatim>\<open>Array.from(this.functions.entries())\<close> to the end of the loop
  "Process normal functions", for a run without additional functions: the entries of
  \<^verbatim>\<open>this.functions\<close> are sorted, the factory function infos are generated from the map in
  its own order, and the loop processes the entries in the sorted order.  The statistics also
  record the number of entries, which nothing here reads.
\<close>

definition processNormalFunctions ::
  "environment \<Rightarrow> residual_functions \<Rightarrow> (error \<times> residual_functions) + residual_functions" where
  "processNormalFunctions env this =
     (case raisedAt this (sortFunctionByOriginalOrdering (functionsMap this)) of
        Inl e \<Rightarrow> Inl e
      | Inr functionEntries \<Rightarrow>
          getStatistics env this
            (case generateFactoryFunctionInfos env this of
               Inl e \<Rightarrow> Inl e
             | Inr (factoryFunctionInfos, this1) \<Rightarrow>
                 forEach (processFunctionEntry env factoryFunctionInfos) this1
                   functionEntries))"

text \<open>\<^verbatim>\<open>entries.splice(index, 0, ...statements)\<close>; an index past the end inserts at the end.\<close>

definition arraySplice :: "nat \<Rightarrow> 'a list \<Rightarrow> 'a list \<Rightarrow> 'a list" where
  "arraySplice index0 statements es = take index0 es @ statements @ drop index0 es"

text \<open>
  The last loop over the instances: the statements collected for an instance are spliced
  into the body of its insertion point, the instances taken in reverse
  (\<^verbatim>\<open>this.functionInstances.reverse()\<close> reverses the array in place).
\<close>

definition spliceFunctionBody ::
  "residual_functions \<Rightarrow> function_instance \<Rightarrow>
   (error \<times> residual_functions) + residual_functions" where
  "spliceFunctionBody this inst =
     (case map_of (functionBodies this) inst of
        None \<Rightarrow> Inr this
      | Some functionBody \<Rightarrow>
          (case insertionPoint inst of
             None \<Rightarrow> Inl (InvariantViolation, this)
           | Some point \<Rightarrow>
               Inr (this\<lparr>bodyEntries :=
                     (bodyEntries this)
                       (refBody point :=
                          arraySplice (refIndex point) functionBody
                            (bodyEntries this (refBody point)))\<rparr>)))"

definition spliceFunctionBodies ::
  "residual_functions \<Rightarrow> (error \<times> residual_functions) + residual_functions" where
  "spliceFunctionBodies this =
     forEach spliceFunctionBody
       (this\<lparr>functionInstances := rev (functionInstances this)\<rparr>)
       (rev (functionInstances this))"


section \<open>The expected result of the final splice\<close>

text \<open>
  The interleaving that the final splice is meant to produce, computed without any index
  arithmetic on a growing array: walking the original entries from position \<open>p\<close> on, every
  group recorded for the current position is emitted, in processing order, before the entry
  at that position; the groups recorded for the position after the last entry come last.
\<close>

fun expectedInterleaving :: "nat \<Rightarrow> (nat \<times> 'a list) list \<Rightarrow> 'a list \<Rightarrow> 'a list" where
  "expectedInterleaving p groups [] = concat (map snd (filter (\<lambda>g. fst g = p) groups))"
| "expectedInterleaving p groups (e # es) =
     concat (map snd (filter (\<lambda>g. fst g = p) groups)) @
     e # expectedInterleaving (Suc p) groups es"

text \<open>
  The statement group of an instance for the body at address \<open>b\<close>: the index of its insertion
  point with its accumulated statements, when it has accumulated statements and its
  insertion point lies in that body.  \<open>statementGroups\<close> lists the groups for a body in
  processing order, the order of \<^verbatim>\<open>functionInstances\<close>.
\<close>

definition statementGroup ::
  "(function_instance \<times> node list) list \<Rightarrow> nat \<Rightarrow> function_instance \<Rightarrow>
   (nat \<times> node list) option" where
  "statementGroup bodies b inst =
     (case map_of bodies inst of
        None \<Rightarrow> None
      | Some functionBody \<Rightarrow>
          (case insertionPoint inst of
             None \<Rightarrow> None
           | Some point \<Rightarrow>
               if refBody point = b then Some (refIndex point, functionBody) else None))"

definition statementGroups :: "residual_functions \<Rightarrow> nat \<Rightarrow> (nat \<times> node list) list" where
  "statementGroups rf b =
     List.map_filter (statementGroup (functionBodies rf) b) (functionInstances rf)"

section \<open>Example inputs\<close>

text \<open>
  A function value with the given address, code block and formal parameters, not strict; an
  instance of it with the given bindings and insertion point, without scopes, delayed
  initialization or containing additional function; and collaborators that locate a
  function value by the given table, know no initializer statement, no require return, no
  class method and no additional function, take a body reference to be not earlier than
  another when it lies in the same body at an index not below, take two bindings to be the
  same when they are equal, initialize no scope, instantiate a root by returning it, and
  name the factories \<open>$f_0\<close>, \<open>$f_1\<close>, ...
\<close>

fun decimal :: "nat \<Rightarrow> string" where
  "decimal n =
     (if n < 10 then [''0123456789'' ! n]
      else decimal (n div 10) @ [''0123456789'' ! (n mod 10)])"

declare decimal.simps [simp del]

definition plainFunctionValue :: "nat \<Rightarrow> block \<Rightarrow> node list \<Rightarrow> function_value" where
  "plainFunctionValue a code params =
     \<lparr> functionAddress = a, ECMAScriptCode = Some code, FormalParameters = Some params,
       Strict = False, HasEmptyConstructor = False, originalName = None \<rparr>"

definition plainInstance ::
  "function_value \<Rightarrow> (string \<times> residual_function_binding) list \<Rightarrow> body_reference option \<Rightarrow>
   function_instance" where
  "plainInstance fv bindings point =
     \<lparr> functionValue = fv, residualFunctionBindings = bindings, scopeInstances = [],
       insertionPoint = point, initializationStatements = [],
       containingAdditionalFunction = None \<rparr>"

definition plainEnvironment ::
  "(function_value \<Rightarrow> node option) \<Rightarrow> (block \<Rightarrow> function_info option) \<Rightarrow> environment" where
  "plainEnvironment locations infos =
     \<lparr> getLocation = locations,
       hasInitializerStatement = (\<lambda>fv. False),
       isNotEarlierThan = (\<lambda>a b. refBody a = refBody b \<and> refIndex a \<ge> refIndex b),
       getReferentializedScopeInitialization = (\<lambda>scope ident. []),
       AreSameResidualBinding = (\<lambda>a b. a = b),
       instantiate = (\<lambda>infos ids calls root. root),
       statisticsAvailable = True,
       requireReturns = (\<lambda>moduleId. None),
       residualFunctionInfos = infos,
       residualClassMethodInstances = (\<lambda>fv. None),
       additionalFunctionValueInfos = (\<lambda>fv. False),
       additionalFunctionValueNestedFunctions = (\<lambda>fv. False),
       debugNames = False,
       rewrittenAdditionalFunctions = (\<lambda>fv. None),
       generateFactoryName = (\<lambda>n suffix. ''$f_'' @ decimal n @ suffix) \<rparr>"


text \<open>
  A run of the materializer without additional functions, up to the end of the loop
  "Process normal functions": the constructor with an empty prelude, then
  \<^verbatim>\<open>spliceFunctions\<close> up to the end of that loop; the result is the prelude, which holds the
  definitions of the function instances in the order of their emission.
\<close>

definition emittedDefinitions ::
  "environment \<Rightarrow> function_instance list \<Rightarrow> (error \<times> residual_functions) + node list" where
  "emittedDefinitions env residualFunctionInstances =
     (case ResidualFunctions env [] (\<lambda>a. []) residualFunctionInstances of
        Inl e \<Rightarrow> Inl e
      | Inr this \<Rightarrow>
          (case processNormalFunctions env this of
             Inl e \<Rightarrow> Inl e
           | Inr this' \<Rightarrow> Inr (globalPrelude this')))"

text \<open>
  A code block of 20 characters with tag 1 and no free variables, and two function values
  that share it, located at \<open>_1\<close> and \<open>_2\<close>.
\<close>

definition smallCode :: block where
  "smallCode = BlockStatement (Some 10) (Some 30) (Some 1) [ReturnStatement (NumericLiteral 1)]"

definition closedInfo :: function_info where
  "closedInfo = \<lparr> unbound = [], usesArguments = False, usesThis = False,
                  requireCalls = [], modifiedNames = {} \<rparr>"

definition twoLocations :: "function_value \<Rightarrow> node option" where
  "twoLocations fv = Some (Identifier (if functionAddress fv = 1 then ''_1'' else ''_2''))"

definition smallInstance :: "nat \<Rightarrow> function_instance" where
  "smallInstance a =
     plainInstance (plainFunctionValue a smallCode []) [] (Some (BodyReference 1 0))"


text \<open>
  A code block of 40 characters with tag 2 and the free variable \<open>x\<close>; an instance of it at
  address \<open>a\<close> that binds \<open>x\<close> to the constant \<open>a\<close> and has the formal parameter \<open>y\<close>; the factory
  info for the block; an instance of the small block that closes over one referentialized
  scope; and a class method instance for the class prototype at address 5.
\<close>

definition largeCode :: block where
  "largeCode = BlockStatement (Some 10) (Some 50) (Some 2) [ReturnStatement (Identifier ''x'')]"

definition freeVariableInfo :: function_info where
  "freeVariableInfo = \<lparr> unbound = [(''x'', [0])], usesArguments = False, usesThis = False,
                        requireCalls = [], modifiedNames = {} \<rparr>"

definition constantBinding :: "nat \<Rightarrow> residual_function_binding" where
  "constantBinding n =
     \<lparr> bvalue = Some (NonFunctionValue n), serializedValue = Some (NumericLiteral (int n)),
       modified = False, referentialized = False, declarativeEnvironmentRecord = Some 0 \<rparr>"

definition boundInstance :: "nat \<Rightarrow> function_instance" where
  "boundInstance a =
     plainInstance (plainFunctionValue a largeCode [Identifier ''y''])
       [(''x'', constantBinding a)] (Some (BodyReference 1 0))"

text \<open>
  The same code block when its code uses \<^verbatim>\<open>this\<close>, and an instance of it whose only formal
  parameter is a destructuring pattern.
\<close>

definition thisInfo :: function_info where
  "thisInfo = freeVariableInfo\<lparr>usesThis := True\<rparr>"

definition patternInstance :: "nat \<Rightarrow> function_instance" where
  "patternInstance a =
     plainInstance (plainFunctionValue a largeCode [Pattern ''{a, b}''])
       [(''x'', constantBinding a)] (Some (BodyReference 1 0))"

definition factoryInfos :: "(nat \<times> factory_function_info) list" where
  "factoryInfos =
     [(2, \<lparr> factoryId = Some (Identifier ''$f_0''), factoryFunctionInfo = freeVariableInfo,
            anyContainingAdditionalFunction = False \<rparr>)]"

definition scopedInstance :: "nat \<Rightarrow> function_instance" where
  "scopedInstance a =
     (smallInstance a)\<lparr>scopeInstances :=
        [(''__scope_0'', \<lparr> scopeName = ''__scope_0'', scopeId = 0 \<rparr>)]\<rparr>"

definition classMethodOf :: "string \<Rightarrow> string \<Rightarrow> class_method_instance" where
  "classMethodOf kind name =
     \<lparr> classSuperNode = None, classMethodKeyNode = Some (Identifier name), methodType = kind,
       classMethodComputed = False, classPrototype = ObjectValue 5 None,
       classMethodIsStatic = False \<rparr>"

definition classEnvironment :: "class_method_instance \<Rightarrow> environment" where
  "classEnvironment classMethodInstance =
     (plainEnvironment twoLocations (\<lambda>b. Some closedInfo))
       \<lparr>residualClassMethodInstances := (\<lambda>fv. Some classMethodInstance)\<rparr>"

definition oneMethodClass :: residual_functions where
  "oneMethodClass =
     (initialResidualFunctions [] (\<lambda>a. []))
       \<lparr>classes := [(5, \<lparr> superClass = None, classBody = [OtherStatement ''m() {}''] \<rparr>)]\<rparr>"

section \<open>The vocabulary of the claims about residual functions\<close>

text \<open>
  When an instance on the factory path needs a wrapper around \<^verbatim>\<open>factory.call\<close>: it has a
  delayed initializer statement, or its code uses \<^verbatim>\<open>this\<close>, or one of its varying bindings is
  function-valued, or a first usage is recorded for it and
  \<^verbatim>\<open>firstUsage.isNotEarlierThan(insertionPoint)\<close> is false (the usage that the specification
  calls earlier than the insertion point; how two body references compare is decided by
  \<^verbatim>\<open>BodyReference\<close>, a collaborator), or it has an associated prototype identifier.
\<close>

definition requiresCallWrapper ::
  "environment \<Rightarrow> residual_functions \<Rightarrow> bool \<Rightarrow> string list \<Rightarrow> function_instance \<Rightarrow> bool" where
  "requiresCallWrapper env rf usesThisFlag factoryNames inst =
     (hasInitializerStatement env (functionValue inst) \<or>
      usesThisFlag \<or>
      list_ex (\<lambda>name. case map_of (residualFunctionBindings inst) name of
                         None \<Rightarrow> False
                       | Some residualBinding \<Rightarrow>
                           (case bvalue residualBinding of
                              None \<Rightarrow> False
                            | Some v \<Rightarrow> instanceofFunctionValue v))
        factoryNames \<or>
      (case map_of (firstFunctionUsages rf) (functionValue inst) of
         None \<Rightarrow> False
       | Some usage \<Rightarrow>
           (case insertionPoint inst of
              None \<Rightarrow> False
            | Some point \<Rightarrow> \<not> isNotEarlierThan env usage point)) \<or>
      map_of (functionPrototypes rf) (functionValue inst) \<noteq> None)"

text \<open>
  The arguments that an instance passes to the factory: the serialized values of its varying
  bindings, in the order of the factory's parameters, then the ids of its scopes.
\<close>

definition serializedArguments ::
  "string list \<Rightarrow> function_instance \<Rightarrow> node list" where
  "serializedArguments factoryNames inst =
     map (\<lambda>name. the (serializedValue (the (map_of (residualFunctionBindings inst) name))))
       factoryNames @
     map (\<lambda>entry. NumericLiteral (scopeId (snd entry))) (scopeInstances inst)"

text \<open>
  The lookups that the stub of an instance asserts: every varying name has a binding with a
  serialized value; and, with them, the function value has a location and the instance an
  insertion point.
\<close>

definition bindingsSerialized :: "string list \<Rightarrow> function_instance \<Rightarrow> bool" where
  "bindingsSerialized factoryNames inst =
     list_all (\<lambda>name. case map_of (residualFunctionBindings inst) name of
                         None \<Rightarrow> False
                       | Some residualBinding \<Rightarrow> serializedValue residualBinding \<noteq> None)
       factoryNames"

definition stubInvariants :: "environment \<Rightarrow> string list \<Rightarrow> function_instance \<Rightarrow> bool" where
  "stubInvariants env factoryNames inst =
     (getLocation env (functionValue inst) \<noteq> None \<and>
      bindingsSerialized factoryNames inst \<and>
      insertionPoint inst \<noteq> None)"

text \<open>
  The two stubs in the words of the specification: the wrapper function
  \<^verbatim>\<open>function (params) { return factory.call(this, ...args, ...params); }\<close> and the expression
  \<^verbatim>\<open>factory.bind(null, ...args)\<close>.
\<close>

definition callWrapper :: "node \<Rightarrow> string list \<Rightarrow> node list \<Rightarrow> function_instance \<Rightarrow> node" where
  "callWrapper factoryIdent factoryNames params inst =
     FunctionExpression params
       (blockStatement
          [ReturnStatement
             (CallExpression (MemberExpression factoryIdent (Identifier ''call''))
                (ThisExpression # serializedArguments factoryNames inst @ params))])"

definition bindExpression :: "node \<Rightarrow> string list \<Rightarrow> function_instance \<Rightarrow> node" where
  "bindExpression factoryIdent factoryNames inst =
     CallExpression (MemberExpression factoryIdent (Identifier ''bind''))
       (NullLiteral # serializedArguments factoryNames inst)"

text \<open>
  The statements that one of the arrays of \<^verbatim>\<open>spliceFunctions\<close> holds; an array that was not
  created yet holds none.  The prelude of an instance is the array that \<^verbatim>\<open>getPrelude\<close> returns
  for it.  The declaration of the prototype identifier that follows the definition of a
  function value with an associated prototype identifier.
\<close>

fun statementsAt :: "residual_functions \<Rightarrow> statement_target \<Rightarrow> node list" where
  "statementsAt rf GlobalPrelude = globalPrelude rf"
| "statementsAt rf (AdditionalFunctionPrelude additionalFunction) =
     (case map_of (additionalFunctionPreludes rf) additionalFunction of
        None \<Rightarrow> [] | Some b \<Rightarrow> b)"
| "statementsAt rf (FunctionBody inst) =
     (case map_of (functionBodies rf) inst of None \<Rightarrow> [] | Some b \<Rightarrow> b)"

definition preludeOf :: "function_instance \<Rightarrow> statement_target" where
  "preludeOf inst =
     (case containingAdditionalFunction inst of
        Some additionalFunction \<Rightarrow> AdditionalFunctionPrelude additionalFunction
      | None \<Rightarrow> GlobalPrelude)"

definition prototypeDeclaration ::
  "environment \<Rightarrow> residual_functions \<Rightarrow> function_instance \<Rightarrow> node list" where
  "prototypeDeclaration env rf inst =
     (case map_of (functionPrototypes rf) (functionValue inst) of
        None \<Rightarrow> []
      | Some prototypeId \<Rightarrow>
          [varDeclaration prototypeId
             (MemberExpression (the (getLocation env (functionValue inst)))
                (Identifier ''prototype''))])"

text \<open>
  The class methods in the body of the class node stored for the prototype at address \<open>a\<close>;
  a class node that does not exist yet has none.
\<close>

definition classMethodsOf :: "residual_functions \<Rightarrow> nat \<Rightarrow> node list" where
  "classMethodsOf rf a = (case map_of (classes rf) a of None \<Rightarrow> [] | Some c \<Rightarrow> classBody c)"

text \<open>
  The decision for a shared factory function in the words of the specification: the size
  is the absolute character span of the block, and a scope is captured when at least one
  instance closes over a referentialized scope.
\<close>

definition claimedFactoryDecision ::
  "block \<Rightarrow> function_info \<Rightarrow> function_instance list \<Rightarrow> bool" where
  "claimedFactoryDecision funcBody functionInfo instances =
     (let size = \<bar>the (bend funcBody) - the (bstart funcBody)\<bar>;
          hasScopeCapture = list_ex (\<lambda>inst. scopeInstances inst \<noteq> []) instances;
          shouldInline = (\<not> hasScopeCapture \<and> size \<le> 30)
      in \<not> shouldInline \<and> length instances > 1 \<and> \<not> usesArguments functionInfo)"


section \<open>Properties of the lazy objects serializer\<close>

text \<open>The definitions that evaluate a run of the serializer on a concrete input.\<close>

lemmas lazy_eval =
  LazyObjectsSerializer_def invariant_def serializeValueRawObject_def
  serializeLazyObjectInitializer_def serializeCreateLazyObject_def getValueLazyId_def
  getOrDefault_def serializeInitializationCallback_def
  serializeLazyObjectInitializerSwitchCase_def defaultSwitchCase_def Let_def
  LAZY_OBJECTS_SERIALIZER_BODY_TYPE_def

subsection \<open>Lazy ids\<close>

lemma getValueLazyId_hit:
  "map_of (valueLazyIds s) obj = Some n \<Longrightarrow> getValueLazyId s obj = (n, s)"
  by (simp add: getValueLazyId_def getOrDefault_def)

lemma getValueLazyId_miss:
  "map_of (valueLazyIds s) obj = None \<Longrightarrow>
   getValueLazyId s obj =
     (lazyObjectIdSeed s,
      s\<lparr>valueLazyIds := AList.update obj (lazyObjectIdSeed s) (valueLazyIds s),
        lazyObjectIdSeed := lazyObjectIdSeed s + 1\<rparr>)"
  by (simp add: getValueLazyId_def getOrDefault_def)

text \<open>What a request leaves alone: the ids already assigned and every other field.\<close>

lemma getValueLazyId_frame:
  assumes "getValueLazyId s obj = (n, s')"
  shows "map_of (valueLazyIds s') obj = Some n \<and>
         (\<forall>k v. map_of (valueLazyIds s) k = Some v \<longrightarrow> map_of (valueLazyIds s') k = Some v) \<and>
         lazyObjectInitializers s' = lazyObjectInitializers s \<and>
         callbackLazyObjectParam s' = callbackLazyObjectParam s \<and>
         lazyObjectJSRuntimeName s' = lazyObjectJSRuntimeName s \<and>
         initializationCallbackName s' = initializationCallbackName s \<and>
         lazy_serializer.prelude s' = lazy_serializer.prelude s \<and>
         emitterBody s' = emitterBody s \<and> nextBodyAddress s' = nextBodyAddress s"
proof (cases "map_of (valueLazyIds s) obj")
  case (Some m)
  with assms show ?thesis by (simp add: getValueLazyId_hit)
next
  case None
  with assms show ?thesis by (auto simp add: getValueLazyId_miss update_conv')
qed

lemma getValueLazyId_step:
  assumes "lazyIdsInv s" and "0 < lazyObjectIdSeed s" and "getValueLazyId s obj = (n, s')"
  shows "lazyIdsInv s' \<and> 0 < lazyObjectIdSeed s'"
proof (cases "map_of (valueLazyIds s) obj")
  case (Some m)
  with assms show ?thesis by (simp add: getValueLazyId_hit)
next
  case None
  with assms(3) have s': "s' = s\<lparr>valueLazyIds :=
        AList.update obj (lazyObjectIdSeed s) (valueLazyIds s),
        lazyObjectIdSeed := lazyObjectIdSeed s + 1\<rparr>"
    by (auto simp add: getValueLazyId_miss)
  have old: "\<And>k v. map_of (valueLazyIds s) k = Some v \<Longrightarrow> 0 < v"
    and old': "\<And>k v. map_of (valueLazyIds s) k = Some v \<Longrightarrow> v < Suc (lazyObjectIdSeed s)"
    and new: "\<And>k. map_of (valueLazyIds s) k \<noteq> Some (lazyObjectIdSeed s)"
    using assms(1) unfolding lazyIdsInv_def by (blast, fastforce, fastforce)
  have inj: "\<And>k k' v. map_of (valueLazyIds s) k = Some v \<Longrightarrow>
      map_of (valueLazyIds s) k' = Some v \<Longrightarrow> k = k'"
    using assms(1) unfolding lazyIdsInv_def by blast
  have "lazyIdsInv s'"
    unfolding lazyIdsInv_def s'
    using old old' new inj assms(2) by (auto simp add: update_conv' split: if_splits)
  then show ?thesis unfolding s' by simp
qed

lemma getValueLazyIds_run:
  assumes "lazyIdsInv s" and "0 < lazyObjectIdSeed s"
    and "getValueLazyIds s objs = (lazyIds, s')"
  shows "lazyIdsInv s' \<and> 0 < lazyObjectIdSeed s' \<and> length lazyIds = length objs \<and>
         (\<forall>i<length objs. map_of (valueLazyIds s') (objs ! i) = Some (lazyIds ! i)) \<and>
         (\<forall>k v. map_of (valueLazyIds s) k = Some v \<longrightarrow> map_of (valueLazyIds s') k = Some v)"
  using assms
proof (induction objs arbitrary: s lazyIds s')
  case Nil
  then show ?case by simp
next
  case (Cons obj objs)
  obtain n s1 where step: "getValueLazyId s obj = (n, s1)"
    by (cases "getValueLazyId s obj")
  obtain ns s2 where rest: "getValueLazyIds s1 objs = (ns, s2)"
    by (cases "getValueLazyIds s1 objs")
  from Cons.prems(3) step rest have res: "lazyIds = n # ns" "s' = s2" by simp_all
  from getValueLazyId_step [OF Cons.prems(1,2) step]
  have s1: "lazyIdsInv s1" "0 < lazyObjectIdSeed s1" by blast+
  from getValueLazyId_frame [OF step]
  have here: "map_of (valueLazyIds s1) obj = Some n"
    and ext1: "\<And>k v. map_of (valueLazyIds s) k = Some v \<Longrightarrow> map_of (valueLazyIds s1) k = Some v"
    by blast+
  from Cons.IH [OF s1 rest]
  have s2: "lazyIdsInv s2" "0 < lazyObjectIdSeed s2" "length ns = length objs"
    and look: "\<And>i. i < length objs \<Longrightarrow> map_of (valueLazyIds s2) (objs ! i) = Some (ns ! i)"
    and ext2: "\<And>k v. map_of (valueLazyIds s1) k = Some v \<Longrightarrow> map_of (valueLazyIds s2) k = Some v"
    by blast+
  have "\<forall>i<length (obj # objs). map_of (valueLazyIds s2) ((obj # objs) ! i) = Some ((n # ns) ! i)"
  proof (intro allI impI)
    fix i assume "i < length (obj # objs)"
    then show "map_of (valueLazyIds s2) ((obj # objs) ! i) = Some ((n # ns) ! i)"
      using look ext2 [OF here] by (cases i) simp_all
  qed
  with s2 ext1 ext2 show ?case unfolding res by simp
qed

lemma constructed_lazyIdsInv:
  assumes "LazyObjectsSerializer rt prel b fresh = Inr s0"
  shows "lazyIdsInv s0 \<and> 0 < lazyObjectIdSeed s0"
  using assms
  by (auto simp add: LazyObjectsSerializer_def invariant_def lazyIdsInv_def split: if_splits)

text \<open>
  Claim C2.  Within one pass, that is from the state the constructor leaves, any sequence of
  id requests is answered (the allocator is a total function), every id is a positive
  integer, and two requests get the same id exactly when they are for the same object: a
  repeated request returns the id of the first one, and distinct objects never share an id.
\<close>

theorem lazy_id_total_injective:
  assumes "LazyObjectsSerializer rt prel b fresh = Inr s0"
    and "getValueLazyIds s0 objs = (lazyIds, s)"
  shows "length lazyIds = length objs \<and>
         (\<forall>i<length objs. 0 < lazyIds ! i) \<and>
         (\<forall>i<length objs. \<forall>j<length objs.
             (lazyIds ! i = lazyIds ! j) = (objs ! i = objs ! j))"
proof -
  from constructed_lazyIdsInv [OF assms(1)]
  have "lazyIdsInv s0" "0 < lazyObjectIdSeed s0" by simp_all
  from getValueLazyIds_run [OF this assms(2)]
  have inv: "lazyIdsInv s" and len: "length lazyIds = length objs"
    and look: "\<And>i. i < length objs \<Longrightarrow> map_of (valueLazyIds s) (objs ! i) = Some (lazyIds ! i)"
    by blast+
  have pos: "\<And>k v. map_of (valueLazyIds s) k = Some v \<Longrightarrow> 0 < v"
    using inv unfolding lazyIdsInv_def by blast
  have inj: "\<And>k k' v. map_of (valueLazyIds s) k = Some v \<Longrightarrow>
      map_of (valueLazyIds s) k' = Some v \<Longrightarrow> k = k'"
    using inv unfolding lazyIdsInv_def by blast
  have "\<forall>i<length objs. 0 < lazyIds ! i" using look pos by blast
  moreover have "\<forall>i<length objs. \<forall>j<length objs.
      (lazyIds ! i = lazyIds ! j) = (objs ! i = objs ! j)"
  proof (intro allI impI)
    fix i j assume ij: "i < length objs" "j < length objs"
    show "(lazyIds ! i = lazyIds ! j) = (objs ! i = objs ! j)"
    proof
      assume "lazyIds ! i = lazyIds ! j"
      with look [OF ij(1)] look [OF ij(2)] show "objs ! i = objs ! j" using inj by metis
    next
      assume "objs ! i = objs ! j"
      with look [OF ij(1)] look [OF ij(2)] show "lazyIds ! i = lazyIds ! j" by simp
    qed
  qed
  ultimately show ?thesis using len by simp
qed

text \<open>
  Three requests, the third for the object of the first: the ids are 1, 2 and 1 again.
\<close>

theorem lazy_id_total_injective_witness:
  "LazyObjectsSerializer (Some ''LazyRuntime'') []
     (SerializedBody 0 ''MainGenerator'' None [] False) 1 =
   Inr \<lparr> lazyObjectIdSeed = 1, valueLazyIds = [], lazyObjectInitializers = [],
         callbackLazyObjectParam = Identifier ''obj'',
         lazyObjectJSRuntimeName = Identifier ''LazyRuntime'',
         initializationCallbackName = Identifier ''__initializerCallback'',
         prelude = [], emitterBody = SerializedBody 0 ''MainGenerator'' None [] False,
         nextBodyAddress = 1 \<rparr> \<and>
   fst (getValueLazyIds
          \<lparr> lazyObjectIdSeed = 1, valueLazyIds = [], lazyObjectInitializers = [],
            callbackLazyObjectParam = Identifier ''obj'',
            lazyObjectJSRuntimeName = Identifier ''LazyRuntime'',
            initializationCallbackName = Identifier ''__initializerCallback'',
            prelude = [], emitterBody = SerializedBody 0 ''MainGenerator'' None [] False,
            nextBodyAddress = 1 \<rparr>
          [ObjectValue 7 None, ObjectValue 9 None, ObjectValue 7 None]) = [1, 2, 1] \<and>
   (0::nat) < [1, 2, 1] ! 2 \<and>
   (([1, 2, 1] ! 0 = ([1, 2, 1] ! 2 :: nat)) =
    ([ObjectValue 7 None, ObjectValue 9 None, ObjectValue 7 None] ! 0 =
     [ObjectValue 7 None, ObjectValue 9 None, ObjectValue 7 None] ! 2))"
proof -
  let ?s0 = "\<lparr> lazyObjectIdSeed = 1, valueLazyIds = [], lazyObjectInitializers = [],
         callbackLazyObjectParam = Identifier ''obj'',
         lazyObjectJSRuntimeName = Identifier ''LazyRuntime'',
         initializationCallbackName = Identifier ''__initializerCallback'',
         prelude = [], emitterBody = SerializedBody 0 ''MainGenerator'' None [] False,
         nextBodyAddress = 1 \<rparr>"
  let ?objs = "[ObjectValue 7 None, ObjectValue 9 None, ObjectValue 7 None]"
  have c: "LazyObjectsSerializer (Some ''LazyRuntime'') []
     (SerializedBody 0 ''MainGenerator'' None [] False) 1 = Inr ?s0"
    by (simp add: LazyObjectsSerializer_def invariant_def)
  obtain s where r: "getValueLazyIds ?s0 ?objs = ([1, 2, 1], s)"
    by (simp add: getValueLazyId_def getOrDefault_def)
  from lazy_id_total_injective [OF c r] c r show ?thesis by simp
qed

subsection \<open>Self references\<close>

text \<open>
  Claim C3.  An object is selected for laziness once \<^verbatim>\<open>_lazyObjectInitializers\<close> records its
  initializer body.  \<^verbatim>\<open>getSerializeObjectIdentifier\<close> returns the parameter of the hydration
  callback when the value is such an object and the emitter's current body is that very
  body or an offspring of it.  In every other position, and for every other value (an object
  that was not selected, a value that is no object, another lazy object whose body the
  emitter is not in), it returns the normal identifier of the base class, which is not the
  parameter.
\<close>

theorem self_reference_substitution:
  assumes "super v \<noteq> callbackLazyObjectParam s"
  shows "(if instanceofObjectValue v \<and>
            (\<exists>b. map_of (lazyObjectInitializers s) v = Some b \<and>
                 isBodyOffspringOf (emitterBody s) b)
          then getSerializeObjectIdentifier super s v = callbackLazyObjectParam s
          else getSerializeObjectIdentifier super s v = super v \<and>
               getSerializeObjectIdentifier super s v \<noteq> callbackLazyObjectParam s)"
  using assms
  by (auto simp add: getSerializeObjectIdentifier_def isEmittingIntoLazyObjectInitializerBody_def
      split: option.splits)

text \<open>
  Two lazy objects; the emitter is in a conditional branch nested in the initializer body of
  the second.  A reference to the second object is the parameter, a reference to the first
  is its normal identifier.
\<close>

theorem self_reference_substitution_witness:
  "getSerializeObjectIdentifier (\<lambda>v. Identifier ''_1'')
     \<lparr> lazyObjectIdSeed = 3,
       valueLazyIds = [(ObjectValue 7 None, 1), (ObjectValue 9 None, 2)],
       lazyObjectInitializers =
         [(ObjectValue 7 None, SerializedBody 1 ''LazyObjectInitializer'' None [] False),
          (ObjectValue 9 None, SerializedBody 2 ''LazyObjectInitializer'' None [] False)],
       callbackLazyObjectParam = Identifier ''obj'',
       lazyObjectJSRuntimeName = Identifier ''LazyRuntime'',
       initializationCallbackName = Identifier ''__initializerCallback'',
       prelude = [],
       emitterBody =
         SerializedBody 5 ''ConditionalAssignmentBranch''
           (Some (SerializedBody 2 ''LazyObjectInitializer'' None [] False)) [] False,
       nextBodyAddress = 6 \<rparr>
     (ObjectValue 9 None) = Identifier ''obj'' \<and>
   getSerializeObjectIdentifier (\<lambda>v. Identifier ''_1'')
     \<lparr> lazyObjectIdSeed = 3,
       valueLazyIds = [(ObjectValue 7 None, 1), (ObjectValue 9 None, 2)],
       lazyObjectInitializers =
         [(ObjectValue 7 None, SerializedBody 1 ''LazyObjectInitializer'' None [] False),
          (ObjectValue 9 None, SerializedBody 2 ''LazyObjectInitializer'' None [] False)],
       callbackLazyObjectParam = Identifier ''obj'',
       lazyObjectJSRuntimeName = Identifier ''LazyRuntime'',
       initializationCallbackName = Identifier ''__initializerCallback'',
       prelude = [],
       emitterBody =
         SerializedBody 5 ''ConditionalAssignmentBranch''
           (Some (SerializedBody 2 ''LazyObjectInitializer'' None [] False)) [] False,
       nextBodyAddress = 6 \<rparr>
     (ObjectValue 7 None) = Identifier ''_1''"
proof -
  let ?s = "\<lparr> lazyObjectIdSeed = 3,
       valueLazyIds = [(ObjectValue 7 None, 1), (ObjectValue 9 None, 2)],
       lazyObjectInitializers =
         [(ObjectValue 7 None, SerializedBody 1 ''LazyObjectInitializer'' None [] False),
          (ObjectValue 9 None, SerializedBody 2 ''LazyObjectInitializer'' None [] False)],
       callbackLazyObjectParam = Identifier ''obj'',
       lazyObjectJSRuntimeName = Identifier ''LazyRuntime'',
       initializationCallbackName = Identifier ''__initializerCallback'',
       prelude = [],
       emitterBody =
         SerializedBody 5 ''ConditionalAssignmentBranch''
           (Some (SerializedBody 2 ''LazyObjectInitializer'' None [] False)) [] False,
       nextBodyAddress = 6 \<rparr>"
  have h: "(\<lambda>v. Identifier ''_1'') v \<noteq> callbackLazyObjectParam ?s" for v :: val by simp
  from self_reference_substitution [of "\<lambda>v. Identifier ''_1''" "ObjectValue 9 None" ?s, OF h]
       self_reference_substitution [of "\<lambda>v. Identifier ''_1''" "ObjectValue 7 None" ?s, OF h]
  show ?thesis by simp
qed


subsection \<open>The initializer callback\<close>

text \<open>
  \<^verbatim>\<open>Map.set\<close> appends a new key and keeps the position of a present one, so the keys of
  \<^verbatim>\<open>_lazyObjectInitializers\<close> are the selected objects, once each, in the order of their first
  selection.
\<close>

lemma update_keys_first:
  "map fst (AList.update k v al) = (if k \<in> set (map fst al) then map fst al else map fst al @ [k])"
  by (induction al) auto

lemma serializeValueRawObject_frame:
  assumes "temporalAlias obj = None"
  shows "map fst (lazyObjectInitializers (snd (serializeValueRawObject super emit s obj))) =
           (if obj \<in> set (map fst (lazyObjectInitializers s))
            then map fst (lazyObjectInitializers s)
            else map fst (lazyObjectInitializers s) @ [obj])"
proof -
  let ?s2 = "s\<lparr>nextBodyAddress := nextBodyAddress s + 1,
               lazyObjectInitializers :=
                 AList.update obj
                   (SerializedBody (nextBodyAddress s) LAZY_OBJECTS_SERIALIZER_BODY_TYPE None
                      (emit obj) False) (lazyObjectInitializers s)\<rparr>"
  obtain n s3 where id: "getValueLazyId ?s2 obj = (n, s3)" by (cases "getValueLazyId ?s2 obj")
  from getValueLazyId_frame [OF id]
  have "lazyObjectInitializers s3 = lazyObjectInitializers ?s2" by blast
  moreover have "snd (serializeValueRawObject super emit s obj) = s3"
    using assms id
    by (simp add: serializeValueRawObject_def serializeLazyObjectInitializer_def
        serializeCreateLazyObject_def Let_def)
  ultimately show ?thesis by (simp add: update_keys_first)
qed

lemma serializeValueRawObjects_append:
  "serializeValueRawObjects super emit s (objs @ [obj]) =
     snd (serializeValueRawObject super emit (serializeValueRawObjects super emit s objs) obj)"
  by (induction objs arbitrary: s) simp_all

lemma first_selection_order:
  assumes "\<And>obj. obj \<in> set objs \<Longrightarrow> temporalAlias obj = None"
    and "lazyObjectInitializers s = []"
  shows "map fst (lazyObjectInitializers (serializeValueRawObjects super emit s objs)) =
           rev (remdups (rev objs))"
  using assms(1)
proof (induction objs rule: rev_induct)
  case Nil
  then show ?case using assms(2) by simp
next
  case (snoc obj objs)
  then have IH: "map fst (lazyObjectInitializers (serializeValueRawObjects super emit s objs)) =
           rev (remdups (rev objs))" by simp
  have na: "temporalAlias obj = None" using snoc.prems by simp
  show ?case
    unfolding serializeValueRawObjects_append
    by (simp add: serializeValueRawObject_frame [OF na] IH)
qed


lemma switchCasesLoop_spec:
  assumes "switchCasesLoop s inits = (cs, s')"
  shows "length cs = length inits \<and>
         (\<forall>i<length inits. \<exists>n.
             cs ! i = SwitchCase (Some (NumericLiteral (int n)))
                        (entries (snd (inits ! i)) @ [BreakStatement]) \<and>
             map_of (valueLazyIds s') (fst (inits ! i)) = Some n) \<and>
         (\<forall>k v. map_of (valueLazyIds s) k = Some v \<longrightarrow> map_of (valueLazyIds s') k = Some v) \<and>
         lazyObjectInitializers s' = lazyObjectInitializers s \<and>
         callbackLazyObjectParam s' = callbackLazyObjectParam s \<and>
         lazyObjectJSRuntimeName s' = lazyObjectJSRuntimeName s \<and>
         initializationCallbackName s' = initializationCallbackName s \<and>
         lazy_serializer.prelude s' = lazy_serializer.prelude s \<and> emitterBody s' = emitterBody s"
  using assms
proof (induction inits arbitrary: s cs s')
  case Nil
  then show ?case by simp
next
  case (Cons p inits)
  obtain obj ini where p: "p = (obj, ini)" by (cases p)
  obtain n s1 where id: "getValueLazyId s obj = (n, s1)" by (cases "getValueLazyId s obj")
  obtain cs1 s2 where rest: "switchCasesLoop s1 inits = (cs1, s2)"
    by (cases "switchCasesLoop s1 inits")
  let ?c = "SwitchCase (Some (NumericLiteral (int n))) (entries ini @ [BreakStatement])"
  from Cons.prems p id rest have res: "cs = ?c # cs1" "s' = s2"
    by (simp_all add: serializeLazyObjectInitializerSwitchCase_def)
  note f1 = getValueLazyId_frame [OF id]
  note IH = Cons.IH [OF rest]
  have look: "map_of (valueLazyIds s2) obj = Some n" using f1 IH by blast
  have "\<forall>i<length (p # inits). \<exists>m.
           (?c # cs1) ! i = SwitchCase (Some (NumericLiteral (int m)))
                        (entries (snd ((p # inits) ! i)) @ [BreakStatement]) \<and>
           map_of (valueLazyIds s2) (fst ((p # inits) ! i)) = Some m"
  proof (intro allI impI)
    fix i assume "i < length (p # inits)"
    then show "\<exists>m. (?c # cs1) ! i = SwitchCase (Some (NumericLiteral (int m)))
                        (entries (snd ((p # inits) ! i)) @ [BreakStatement]) \<and>
           map_of (valueLazyIds s2) (fst ((p # inits) ! i)) = Some m"
      using IH look p by (cases i) auto
  qed
  moreover have "length (?c # cs1) = length (p # inits)" using IH by simp
  moreover have "\<forall>k v. map_of (valueLazyIds s) k = Some v \<longrightarrow> map_of (valueLazyIds s2) k = Some v"
    using f1 IH by blast
  ultimately show ?case unfolding res using f1 IH by simp
qed

text \<open>
  Claim C5.  When at least one object was selected, the declared callback is a function of
  the parameters \<open>obj\<close> and \<open>id\<close> whose body is one switch on \<open>id\<close>.  The switch has one case
  per entry of \<^verbatim>\<open>_lazyObjectInitializers\<close>, in the order of the map (the order of first
  selection, \<open>first_selection_order\<close>); the case of an object tests for the object's lazy id
  and consists of the entries of its recorded initializer body followed by \<^verbatim>\<open>break\<close>.  The
  last case is the default, which throws \<^verbatim>\<open>new Error("Unknown lazy id")\<close>.
\<close>

theorem initializer_callback_shape:
  assumes "callbackLazyObjectParam s = Identifier ''obj''"
    and "lazyObjectInitializers s \<noteq> []"
  shows "\<exists>cases s'.
           serializeInitializationCallback s =
             (varDeclaration (initializationCallbackName s)
                (FunctionExpression [Identifier ''obj'', Identifier ''id'']
                   (blockStatement
                      [SwitchStatement (Identifier ''id'')
                         (cases @
                          [SwitchCase None
                             [ThrowStatement
                                (NewExpression (Identifier ''Error'')
                                   [StringLiteral ''Unknown lazy id''])]])])), s') \<and>
           length cases = length (lazyObjectInitializers s) \<and>
           (\<forall>i<length (lazyObjectInitializers s). \<exists>n.
               cases ! i = SwitchCase (Some (NumericLiteral (int n)))
                             (entries (snd (lazyObjectInitializers s ! i)) @ [BreakStatement]) \<and>
               map_of (valueLazyIds s') (fst (lazyObjectInitializers s ! i)) = Some n)"
proof -
  obtain cs s' where loop: "switchCasesLoop s (lazyObjectInitializers s) = (cs, s')"
    by (cases "switchCasesLoop s (lazyObjectInitializers s)")
  note spec = switchCasesLoop_spec [OF loop]
  have "serializeInitializationCallback s =
          (varDeclaration (initializationCallbackName s)
             (FunctionExpression [Identifier ''obj'', Identifier ''id'']
                (blockStatement
                   [SwitchStatement (Identifier ''id'')
                      (cs @ [SwitchCase None
                             [ThrowStatement
                                (NewExpression (Identifier ''Error'')
                                   [StringLiteral ''Unknown lazy id''])]])])), s')"
    using loop spec assms(1)
    by (simp add: serializeInitializationCallback_def defaultSwitchCase_def Let_def)
  with spec show ?thesis by blast
qed

text \<open>
  Two objects selected, the first of them twice: two cases, in the order of first selection.
\<close>

theorem initializer_callback_shape_witness:
  "fst (serializeInitializationCallback
     (serializeValueRawObjects (\<lambda>v. Identifier ''_0'')
        (\<lambda>v. [ExpressionStatement (OtherExpression (if address v = 7 then ''_1.x = 1'' else ''_2.y = 2''))])
        (projr (LazyObjectsSerializer (Some ''LazyRuntime'') []
                  (SerializedBody 0 ''MainGenerator'' None [] False) 1))
        [ObjectValue 7 None, ObjectValue 9 None, ObjectValue 7 None])) =
   VariableDeclaration ''var''
     [VariableDeclarator (Identifier ''__initializerCallback'')
        (FunctionExpression [Identifier ''obj'', Identifier ''id'']
           (BlockStatement None None None
              [SwitchStatement (Identifier ''id'')
                 [SwitchCase (Some (NumericLiteral 1))
                    [ExpressionStatement (OtherExpression ''_1.x = 1''), BreakStatement],
                  SwitchCase (Some (NumericLiteral 2))
                    [ExpressionStatement (OtherExpression ''_2.y = 2''), BreakStatement],
                  SwitchCase None
                    [ThrowStatement
                       (NewExpression (Identifier ''Error'')
                          [StringLiteral ''Unknown lazy id''])]]]))]"
  using initializer_callback_shape [of
     "serializeValueRawObjects (\<lambda>v. Identifier ''_0'')
        (\<lambda>v. [ExpressionStatement (OtherExpression (if address v = 7 then ''_1.x = 1'' else ''_2.y = 2''))])
        (projr (LazyObjectsSerializer (Some ''LazyRuntime'') []
                  (SerializedBody 0 ''MainGenerator'' None [] False) 1))
        [ObjectValue 7 None, ObjectValue 9 None, ObjectValue 7 None]"]
  by (simp add: lazy_eval varDeclaration_def blockStatement_def)

subsection \<open>The end of the pass\<close>

text \<open>
  Claim C4.  \<^verbatim>\<open>postGeneratorSerialization\<close> leaves the serializer as it is, the prelude
  included, when no object was selected for laziness.  When at least one was selected, it
  appends exactly two statements to the prelude: the declaration of the initializer callback
  and the call \<^verbatim>\<open>runtime.setLazyObjectInitializer(callback)\<close>.
\<close>

theorem post_generator_prelude:
  "(lazyObjectInitializers s = [] \<longrightarrow> postGeneratorSerialization s = s) \<and>
   (lazyObjectInitializers s \<noteq> [] \<longrightarrow>
      (\<exists>params body.
         fst (serializeInitializationCallback s) =
           varDeclaration (initializationCallbackName s) (FunctionExpression params body)) \<and>
      lazy_serializer.prelude (postGeneratorSerialization s) =
        lazy_serializer.prelude s @
          [fst (serializeInitializationCallback s),
           ExpressionStatement
             (CallExpression
                (MemberExpression (lazyObjectJSRuntimeName s)
                   (Identifier ''setLazyObjectInitializer''))
                [initializationCallbackName s])])"
proof -
  obtain cs s' where loop: "switchCasesLoop s (lazyObjectInitializers s) = (cs, s')"
    by (cases "switchCasesLoop s (lazyObjectInitializers s)")
  note spec = switchCasesLoop_spec [OF loop]
  have cb: "fst (serializeInitializationCallback s) =
      varDeclaration (initializationCallbackName s)
        (FunctionExpression [callbackLazyObjectParam s, Identifier ''id'']
           (blockStatement [SwitchStatement (Identifier ''id'') (cs @ [defaultSwitchCase])]))"
    using loop spec by (simp add: serializeInitializationCallback_def Let_def)
  have shape: "\<exists>params body. fst (serializeInitializationCallback s) =
      varDeclaration (initializationCallbackName s) (FunctionExpression params body)"
    unfolding cb by blast
  have "lazyObjectInitializers s \<noteq> [] \<longrightarrow>
      lazy_serializer.prelude (postGeneratorSerialization s) =
        lazy_serializer.prelude s @
          [fst (serializeInitializationCallback s),
           ExpressionStatement
             (CallExpression
                (MemberExpression (lazyObjectJSRuntimeName s)
                   (Identifier ''setLazyObjectInitializer''))
                [initializationCallbackName s])]"
    using loop spec
    by (simp add: postGeneratorSerialization_def serializeInitializationCallback_def
        serializeRegisterInitializationCallback_def Let_def)
  moreover have "lazyObjectInitializers s = [] \<longrightarrow> postGeneratorSerialization s = s"
    by (simp add: postGeneratorSerialization_def)
  ultimately show ?thesis using shape by blast
qed

text \<open>
  One object selected: the two statements follow the old prelude.  Only an alias object
  serialized (it takes the eager path of the base class): the prelude stays as it was.
\<close>

theorem post_generator_prelude_witness:
  "lazy_serializer.prelude (postGeneratorSerialization
     (serializeValueRawObjects (\<lambda>v. Identifier ''_0'') (\<lambda>v. [])
        (projr (LazyObjectsSerializer (Some ''LazyRuntime'') [OtherStatement ''var _0 = 1;'']
                  (SerializedBody 0 ''MainGenerator'' None [] False) 1))
        [ObjectValue 7 None])) =
   [OtherStatement ''var _0 = 1;'',
    VariableDeclaration ''var''
     [VariableDeclarator (Identifier ''__initializerCallback'')
        (FunctionExpression [Identifier ''obj'', Identifier ''id'']
           (BlockStatement None None None
              [SwitchStatement (Identifier ''id'')
                 [SwitchCase (Some (NumericLiteral 1)) [BreakStatement],
                  SwitchCase None
                    [ThrowStatement
                       (NewExpression (Identifier ''Error'')
                          [StringLiteral ''Unknown lazy id''])]]]))],
    ExpressionStatement
      (CallExpression
         (MemberExpression (Identifier ''LazyRuntime'') (Identifier ''setLazyObjectInitializer''))
         [Identifier ''__initializerCallback''])] \<and>
   lazy_serializer.prelude (postGeneratorSerialization
     (serializeValueRawObjects (\<lambda>v. Identifier ''_0'') (\<lambda>v. [])
        (projr (LazyObjectsSerializer (Some ''LazyRuntime'') [OtherStatement ''var _0 = 1;'']
                  (SerializedBody 0 ''MainGenerator'' None [] False) 1))
        [ObjectValue 7 (Some 3)])) =
   [OtherStatement ''var _0 = 1;'']"
  using post_generator_prelude [of
     "serializeValueRawObjects (\<lambda>v. Identifier ''_0'') (\<lambda>v. [])
        (projr (LazyObjectsSerializer (Some ''LazyRuntime'') [OtherStatement ''var _0 = 1;'']
                  (SerializedBody 0 ''MainGenerator'' None [] False) 1))
        [ObjectValue 7 None]"]
    post_generator_prelude [of
     "serializeValueRawObjects (\<lambda>v. Identifier ''_0'') (\<lambda>v. [])
        (projr (LazyObjectsSerializer (Some ''LazyRuntime'') [OtherStatement ''var _0 = 1;'']
                  (SerializedBody 0 ''MainGenerator'' None [] False) 1))
        [ObjectValue 7 (Some 3)]"]
  by (simp add: lazy_eval varDeclaration_def blockStatement_def)

section \<open>Properties of the residual functions\<close>

subsection \<open>The final splice\<close>

lemma expectedInterleaving_Nil: "expectedInterleaving p [] es = es"
  by (induction es arbitrary: p) simp_all

lemma arraySplice_0: "arraySplice 0 g es = g @ es"
  by (simp add: arraySplice_def)

lemma arraySplice_Suc: "arraySplice (Suc i) g (e # es) = e # arraySplice i g es"
  by (simp add: arraySplice_def)

lemma expectedInterleaving_past:
  "i < q \<Longrightarrow> expectedInterleaving q ((i, g) # groups) es = expectedInterleaving q groups es"
  by (induction es arbitrary: q) simp_all

lemma expectedInterleaving_Cons:
  assumes "\<forall>g\<in>set groups. i \<le> fst g" and "p \<le> i" and "i \<le> p + length es"
  shows "expectedInterleaving p ((i, g) # groups) es =
           arraySplice (i - p) g (expectedInterleaving p groups es)"
  using assms
proof (induction es arbitrary: p)
  case Nil
  then have "i = p" by simp
  then show ?case by (simp add: arraySplice_0)
next
  case (Cons e es)
  show ?case
  proof (cases "i = p")
    case True
    then show ?thesis by (simp add: arraySplice_0 expectedInterleaving_past)
  next
    case False
    with Cons.prems have lt: "p < i" by simp
    then have none: "filter (\<lambda>g. fst g = p) groups = []"
      using Cons.prems(1) by (auto simp add: filter_empty_conv)
    have ih: "expectedInterleaving (Suc p) ((i, g) # groups) es =
          arraySplice (i - Suc p) g (expectedInterleaving (Suc p) groups es)"
      using Cons.IH [of "Suc p"] Cons.prems lt by simp
    have "i - p = Suc (i - Suc p)" using lt by simp
    then show ?thesis using lt none ih by (simp add: arraySplice_Suc)
  qed
qed

lemma reverse_splices_interleave:
  assumes "sorted (map fst groups)" and "\<forall>g\<in>set groups. fst g \<le> length es"
  shows "foldr (\<lambda>g. arraySplice (fst g) (snd g)) groups es = expectedInterleaving 0 groups es"
  using assms
proof (induction groups)
  case Nil
  then show ?case by (simp add: expectedInterleaving_Nil)
next
  case (Cons a groups)
  obtain i g where a: "a = (i, g)" by (cases a)
  from Cons.prems have le: "\<forall>h\<in>set groups. i \<le> fst h" and bound: "i \<le> length es"
    and rest: "sorted (map fst groups)" "\<forall>g\<in>set groups. fst g \<le> length es"
    unfolding a by auto
  from expectedInterleaving_Cons [OF le, of 0 es g] bound
  have "expectedInterleaving 0 ((i, g) # groups) es =
      arraySplice i g (expectedInterleaving 0 groups es)"
    by simp
  with Cons.IH [OF rest] show ?case unfolding a by simp
qed

lemma forEach_append:
  "forEach f s (xs @ ys) = (case forEach f s xs of Inl e \<Rightarrow> Inl e | Inr s' \<Rightarrow> forEach f s' ys)"
  by (induction xs arbitrary: s) (simp_all split: sum.splits)

lemma forEach_single: "forEach f s [x] = f s x"
  by (simp split: sum.splits)

lemma spliceFunctionBody_None:
  "map_of (functionBodies rf) inst = None \<Longrightarrow> spliceFunctionBody rf inst = Inr rf"
  by (simp add: spliceFunctionBody_def)

lemma spliceFunctionBody_Some:
  "map_of (functionBodies rf) inst = Some functionBody \<Longrightarrow>
   insertionPoint inst = Some (BodyReference a i) \<Longrightarrow>
   spliceFunctionBody rf inst =
     Inr (rf\<lparr>bodyEntries := (bodyEntries rf)(a := arraySplice i functionBody (bodyEntries rf a))\<rparr>)"
  by (simp add: spliceFunctionBody_def)

lemma spliceFunctionBody_loop:
  assumes "\<forall>inst\<in>set insts. map_of (functionBodies rf) inst \<noteq> None \<longrightarrow> insertionPoint inst \<noteq> None"
  shows "\<exists>rf'. forEach spliceFunctionBody rf (rev insts) = Inr rf' \<and>
           functionBodies rf' = functionBodies rf \<and>
           functionInstances rf' = functionInstances rf \<and>
           (\<forall>b. bodyEntries rf' b =
                 foldr (\<lambda>g. arraySplice (fst g) (snd g))
                   (List.map_filter (statementGroup (functionBodies rf) b) insts) (bodyEntries rf b))"
  using assms
proof (induction insts)
  case Nil
  then show ?case by (simp add: List.map_filter_simps)
next
  case (Cons inst insts)
  then obtain rf1 where run: "forEach spliceFunctionBody rf (rev insts) = Inr rf1"
    and fb: "functionBodies rf1 = functionBodies rf"
    and fi: "functionInstances rf1 = functionInstances rf"
    and ent: "\<And>b. bodyEntries rf1 b =
                 foldr (\<lambda>g. arraySplice (fst g) (snd g))
                   (List.map_filter (statementGroup (functionBodies rf) b) insts) (bodyEntries rf b)"
    by auto
  have step: "forEach spliceFunctionBody rf (rev (inst # insts)) = spliceFunctionBody rf1 inst"
    using run by (simp add: forEach_append split: sum.splits)
  show ?case
  proof (cases "map_of (functionBodies rf) inst")
    case None
    then have "spliceFunctionBody rf1 inst = Inr rf1"
      using fb by (simp add: spliceFunctionBody_None)
    moreover have "\<And>b. List.map_filter (statementGroup (functionBodies rf) b) (inst # insts) =
        List.map_filter (statementGroup (functionBodies rf) b) insts"
      using None by (simp add: List.map_filter_simps statementGroup_def)
    ultimately show ?thesis using step fb fi ent by simp
  next
    case (Some functionBody)
    with Cons.prems obtain point where pt: "insertionPoint inst = Some point" by auto
    obtain a i where point: "point = BodyReference a i" by (cases point)
    have res: "spliceFunctionBody rf1 inst =
      Inr (rf1\<lparr>bodyEntries := (bodyEntries rf1)(a := arraySplice i functionBody (bodyEntries rf1 a))\<rparr>)"
      using Some fb pt point by (simp add: spliceFunctionBody_Some)
    have grp: "\<And>b. List.map_filter (statementGroup (functionBodies rf) b) (inst # insts) =
        (if a = b then [(i, functionBody)] else []) @
        List.map_filter (statementGroup (functionBodies rf) b) insts"
      using Some pt point by (simp add: List.map_filter_simps statementGroup_def)
    show ?thesis unfolding step res grp using fb fi ent by simp
  qed
qed

text \<open>
  Claim C8, as amended.  Let the instances that have accumulated statements all have an
  insertion point, and let, for a body \<open>b\<close>, the indices recorded by the groups for \<open>b\<close> be
  ascending (not necessarily strictly) in processing order and lie within the body.  Then the
  loop that splices the groups in reverse processing order ends without error, and the
  entries of \<open>b\<close> are the expected interleaving of its original entries with the groups:
  every group stands at its recorded position, and groups that share an insertion point
  stand there in processing order.
\<close>

theorem reverse_splice_interleaves:
  assumes "\<forall>inst\<in>set (functionInstances rf).
             map_of (functionBodies rf) inst \<noteq> None \<longrightarrow> insertionPoint inst \<noteq> None"
    and "sorted (map fst (statementGroups rf b))"
    and "\<forall>g\<in>set (statementGroups rf b). fst g \<le> length (bodyEntries rf b)"
  shows "\<exists>rf'. spliceFunctionBodies rf = Inr rf' \<and>
           bodyEntries rf' b = expectedInterleaving 0 (statementGroups rf b) (bodyEntries rf b)"
proof -
  let ?start = "rf\<lparr>functionInstances := rev (functionInstances rf)\<rparr>"
  have pre: "\<forall>inst\<in>set (functionInstances rf).
      map_of (functionBodies ?start) inst \<noteq> None \<longrightarrow> insertionPoint inst \<noteq> None"
    using assms(1) by simp
  from spliceFunctionBody_loop [OF pre]
  obtain rf' where run: "forEach spliceFunctionBody ?start (rev (functionInstances rf)) = Inr rf'"
    and ent: "bodyEntries rf' b =
                 foldr (\<lambda>g. arraySplice (fst g) (snd g))
                   (List.map_filter (statementGroup (functionBodies ?start) b) (functionInstances rf))
                   (bodyEntries ?start b)"
    by blast
  have groups: "List.map_filter (statementGroup (functionBodies ?start) b) (functionInstances rf) =
      statementGroups rf b"
    by (simp add: statementGroups_def)
  from reverse_splices_interleave [OF assms(2,3)] ent groups run
  show ?thesis by (simp add: spliceFunctionBodies_def)
qed


text \<open>
  Three groups share the insertion point 1 of a body of three entries, a fourth group is
  recorded for the end of the body.
\<close>

theorem reverse_splice_interleaves_witness:
  "bodyEntries
     (projr (spliceFunctionBodies
        ((initialResidualFunctions []
            (\<lambda>a. [OtherStatement ''a'', OtherStatement ''b'', OtherStatement ''c'']))
         \<lparr> functionInstances :=
             [plainInstance (plainFunctionValue 1 (blockStatement []) []) [] (Some (BodyReference 1 1)),
              plainInstance (plainFunctionValue 2 (blockStatement []) []) [] (Some (BodyReference 1 1)),
              plainInstance (plainFunctionValue 3 (blockStatement []) []) [] (Some (BodyReference 1 1)),
              plainInstance (plainFunctionValue 4 (blockStatement []) []) [] (Some (BodyReference 1 3))],
           functionBodies :=
             [(plainInstance (plainFunctionValue 1 (blockStatement []) []) [] (Some (BodyReference 1 1)),
               [OtherStatement ''f1'']),
              (plainInstance (plainFunctionValue 2 (blockStatement []) []) [] (Some (BodyReference 1 1)),
               [OtherStatement ''f2'']),
              (plainInstance (plainFunctionValue 3 (blockStatement []) []) [] (Some (BodyReference 1 1)),
               [OtherStatement ''f3'']),
              (plainInstance (plainFunctionValue 4 (blockStatement []) []) [] (Some (BodyReference 1 3)),
               [OtherStatement ''f4''])] \<rparr>))) 1 =
   [OtherStatement ''a'', OtherStatement ''f1'', OtherStatement ''f2'', OtherStatement ''f3'',
    OtherStatement ''b'', OtherStatement ''c'', OtherStatement ''f4'']"
  using reverse_splice_interleaves [of
     "(initialResidualFunctions []
            (\<lambda>a. [OtherStatement ''a'', OtherStatement ''b'', OtherStatement ''c'']))
         \<lparr> functionInstances :=
             [plainInstance (plainFunctionValue 1 (blockStatement []) []) [] (Some (BodyReference 1 1)),
              plainInstance (plainFunctionValue 2 (blockStatement []) []) [] (Some (BodyReference 1 1)),
              plainInstance (plainFunctionValue 3 (blockStatement []) []) [] (Some (BodyReference 1 1)),
              plainInstance (plainFunctionValue 4 (blockStatement []) []) [] (Some (BodyReference 1 3))],
           functionBodies :=
             [(plainInstance (plainFunctionValue 1 (blockStatement []) []) [] (Some (BodyReference 1 1)),
               [OtherStatement ''f1'']),
              (plainInstance (plainFunctionValue 2 (blockStatement []) []) [] (Some (BodyReference 1 1)),
               [OtherStatement ''f2'']),
              (plainInstance (plainFunctionValue 3 (blockStatement []) []) [] (Some (BodyReference 1 1)),
               [OtherStatement ''f3'']),
              (plainInstance (plainFunctionValue 4 (blockStatement []) []) [] (Some (BodyReference 1 3)),
               [OtherStatement ''f4''])] \<rparr>" 1]
  by (simp add: initialResidualFunctions_def plainInstance_def plainFunctionValue_def
      statementGroups_def statementGroup_def List.map_filter_simps spliceFunctionBodies_def
      spliceFunctionBody_def arraySplice_def)

text \<open>
  Without the order of the indices the claim fails: the first instance records index 2, the
  second index 0.  The second is spliced first and moves the entries after it by two, so the
  group of the first lands before \<open>a\<close> instead of before \<open>c\<close>.
\<close>

theorem reverse_splice_unsorted_counterexample:
  "bodyEntries
     (projr (spliceFunctionBodies
        ((initialResidualFunctions []
            (\<lambda>a. [OtherStatement ''a'', OtherStatement ''b'', OtherStatement ''c'']))
         \<lparr> functionInstances :=
             [plainInstance (plainFunctionValue 1 (blockStatement []) []) [] (Some (BodyReference 1 2)),
              plainInstance (plainFunctionValue 2 (blockStatement []) []) [] (Some (BodyReference 1 0))],
           functionBodies :=
             [(plainInstance (plainFunctionValue 1 (blockStatement []) []) [] (Some (BodyReference 1 2)),
               [OtherStatement ''f1'']),
              (plainInstance (plainFunctionValue 2 (blockStatement []) []) [] (Some (BodyReference 1 0)),
               [OtherStatement ''f2'', OtherStatement ''g2''])] \<rparr>))) 1 \<noteq>
   expectedInterleaving 0
     (statementGroups
        ((initialResidualFunctions []
            (\<lambda>a. [OtherStatement ''a'', OtherStatement ''b'', OtherStatement ''c'']))
         \<lparr> functionInstances :=
             [plainInstance (plainFunctionValue 1 (blockStatement []) []) [] (Some (BodyReference 1 2)),
              plainInstance (plainFunctionValue 2 (blockStatement []) []) [] (Some (BodyReference 1 0))],
           functionBodies :=
             [(plainInstance (plainFunctionValue 1 (blockStatement []) []) [] (Some (BodyReference 1 2)),
               [OtherStatement ''f1'']),
              (plainInstance (plainFunctionValue 2 (blockStatement []) []) [] (Some (BodyReference 1 0)),
               [OtherStatement ''f2'', OtherStatement ''g2''])] \<rparr>) 1)
     [OtherStatement ''a'', OtherStatement ''b'', OtherStatement ''c'']"
  by (simp add: initialResidualFunctions_def plainInstance_def plainFunctionValue_def
      statementGroups_def statementGroup_def List.map_filter_simps spliceFunctionBodies_def
      spliceFunctionBody_def arraySplice_def)

subsection \<open>The order of the code blocks\<close>

text \<open>The definitions that evaluate a run of the materializer on a concrete input.\<close>

lemmas residual_eval =
  ResidualFunctions_def initialResidualFunctions_def addFunctionInstance_def getOrDefault_def
  processNormalFunctions_def sortFunctionByOriginalOrdering_def processFunctionEntry_def
  shouldUseFactoryFunction_def shouldInlineFunction_def naiveProcessInstances_def
  naiveProcessInstance_def naiveFunction_def naiveClassMethod_def getIdentifierReplacements_def
  getCallReplacements_def createFunctionExpression_def defineFunction_def getPrelude_def
  getFunctionBody_def pushFunctionBodyNode_def getStatistics_def invariant_def
  invariantAt_def raisedAt_def generateFactoryFunctionInfos_def
  generateFactoryFunctionInfo_def hasRewrittenFunctionInstance_def decimal.simps
  factoryProcessInstances_def createFactory_def factoryProcessInstance_def
  factoryFuncNode_def thisInfo_def patternInstance_def
  partitionBindings_def getOrCreateClassNode_def addClassMethod_def
  plainEnvironment_def plainInstance_def plainFunctionValue_def varDeclaration_def
  blockStatement_def Let_def emittedDefinitions_def smallCode_def closedInfo_def
  twoLocations_def smallInstance_def largeCode_def freeVariableInfo_def constantBinding_def
  boundInstance_def factoryInfos_def scopedInstance_def classMethodOf_def classEnvironment_def
  oneMethodClass_def

lemma filter_key_singleton:
  "distinct (map f xs) \<Longrightarrow> k \<in> set xs \<Longrightarrow> filter (\<lambda>x. f k = f x) xs = [k]"
proof (induction xs)
  case Nil
  then show ?case by simp
next
  case (Cons x xs)
  show ?case
  proof (cases "k = x")
    case True
    with Cons.prems have "\<forall>y\<in>set xs. f x \<noteq> f y" by auto
    then have "filter (\<lambda>y. f x = f y) xs = []" by (simp add: filter_empty_conv)
    with True show ?thesis by simp
  next
    case False
    with Cons.prems have k: "k \<in> set xs" and "f k \<noteq> f x" by (auto simp add: image_iff)
    with Cons show ?thesis by simp
  qed
qed

lemma sort_key_permutation_invariant:
  assumes "mset xs = mset ys" and "distinct (map f xs)"
  shows "sort_key f xs = sort_key f ys"
proof (rule properties_for_sort_key)
  show "mset (sort_key f ys) = mset xs" using assms(1) by simp
  have dy: "distinct (map f (sort_key f ys))"
  proof -
    have "mset (map f (sort_key f ys)) = mset (map f xs)" using assms(1) by simp
    then show ?thesis using assms(2) by (metis mset_eq_imp_distinct_iff)
  qed
  show "\<And>k. k \<in> set (sort_key f ys) \<Longrightarrow>
      filter (\<lambda>x. f k = f x) (sort_key f ys) = filter (\<lambda>x. f k = f x) xs"
  proof -
    fix k assume k: "k \<in> set (sort_key f ys)"
    then have "k \<in> set xs" using assms(1) by (metis mset_eq_setD set_sort)
    with filter_key_singleton [OF assms(2)] filter_key_singleton [OF dy k]
    show "filter (\<lambda>x. f k = f x) (sort_key f ys) = filter (\<lambda>x. f k = f x) xs" by simp
  qed
  show "sorted (map f (sort_key f ys))" by simp
qed

text \<open>
  On tags that are pairwise distinct there is one ascending arrangement of the entries, and
  the sort returns it for every order in which the map lists them.
\<close>

lemma ascending_arrangement:
  fixes f :: "'a \<Rightarrow> nat"
  assumes "mset functionEntries = mset es" and "sorted_wrt (<) (map f functionEntries)"
  shows "sort_key f es = functionEntries"
proof -
  from assms(2) have s: "sorted (map f functionEntries)" and d: "distinct (map f functionEntries)"
    by (simp_all add: strict_sorted_iff)
  have "sort_key f es = sort_key f functionEntries"
    by (rule sort_key_permutation_invariant [symmetric, OF assms(1) d])
  also have "\<dots> = functionEntries" using s by (rule sort_key_id_if_sorted)
  finally show ?thesis .
qed

text \<open>
  Two ascending arrangements of the same code blocks are the same list: two runs whose maps
  hold the same code blocks process them in the same order.
\<close>

lemma same_code_blocks_same_order:
  fixes tag :: "'a \<Rightarrow> nat"
  assumes "sorted_wrt (<) (map tag blocks1)" and "sorted_wrt (<) (map tag blocks2)"
    and "set blocks1 = set blocks2"
  shows "blocks1 = blocks2"
proof -
  from assms(1,2) have s: "sorted (map tag blocks1)" "sorted (map tag blocks2)"
    and d: "distinct (map tag blocks1)" "distinct (map tag blocks2)"
    by (simp_all add: strict_sorted_iff)
  have "set (map tag blocks1) = set (map tag blocks2)" using assms(3) by simp
  with s d have eq: "map tag blocks1 = map tag blocks2"
    by (metis sorted_distinct_set_unique)
  from d(1) have "inj_on tag (set blocks1)" by (simp add: distinct_map)
  with assms(3) have "inj_on tag (set blocks1 \<union> set blocks2)" by simp
  from inj_on_map_eq_map [OF this] eq show ?thesis by simp
qed

text \<open>
  What the constructor leaves in \<^verbatim>\<open>this.functions\<close>: the keys are distinct, and the array of a
  code block holds the added instances of that block in the order in which they were added.
\<close>

lemma addFunctionInstance_entries:
  assumes "addFunctionInstance rf inst = Inr rf'" and "distinct (map fst (functionsMap rf))"
  shows "distinct (map fst (functionsMap rf')) \<and>
         (\<forall>code. (case map_of (functionsMap rf') code of None \<Rightarrow> [] | Some a \<Rightarrow> a) =
                  (case map_of (functionsMap rf) code of None \<Rightarrow> [] | Some a \<Rightarrow> a) @
                  (if ECMAScriptCode (functionValue inst) = Some code then [inst] else []))"
proof -
  from assms have "distinct (map fst (functionsMap rf'))"
    by (auto simp add: addFunctionInstance_def getOrDefault_def Let_def distinct_update
        split: option.splits)
  moreover from assms(1)
  have "\<forall>code. (case map_of (functionsMap rf') code of None \<Rightarrow> [] | Some a \<Rightarrow> a) =
                  (case map_of (functionsMap rf) code of None \<Rightarrow> [] | Some a \<Rightarrow> a) @
                  (if ECMAScriptCode (functionValue inst) = Some code then [inst] else [])"
    by (cases "ECMAScriptCode (functionValue inst)";
        cases "map_of (functionsMap rf) (the (ECMAScriptCode (functionValue inst)))")
       (auto simp add: addFunctionInstance_def getOrDefault_def Let_def update_conv')
  ultimately show ?thesis by simp
qed

lemma constructor_entries:
  assumes "forEach
             (\<lambda>this inst.
                if \<not> additionalFunctionValueInfos env (functionValue inst)
                then addFunctionInstance this inst else Inr this)
             rf0 insts = Inr rf"
    and "distinct (map fst (functionsMap rf0))"
  shows "distinct (map fst (functionsMap rf)) \<and>
         (\<forall>code. (case map_of (functionsMap rf) code of None \<Rightarrow> [] | Some a \<Rightarrow> a) =
                  (case map_of (functionsMap rf0) code of None \<Rightarrow> [] | Some a \<Rightarrow> a) @
                  filter (\<lambda>inst. ECMAScriptCode (functionValue inst) = Some code)
                    (filter (\<lambda>inst. \<not> additionalFunctionValueInfos env (functionValue inst))
                       insts))"
  using assms
proof (induction insts arbitrary: rf0)
  case Nil
  then show ?case by simp
next
  case (Cons inst insts)
  show ?case
  proof (cases "additionalFunctionValueInfos env (functionValue inst)")
    case True
    with Cons.prems(1) have "forEach
             (\<lambda>this inst.
                if \<not> additionalFunctionValueInfos env (functionValue inst)
                then addFunctionInstance this inst else Inr this)
             rf0 insts = Inr rf" by simp
    from Cons.IH [OF this Cons.prems(2)] True show ?thesis by simp
  next
    case False
    with Cons.prems(1) obtain rf1 where
      one: "addFunctionInstance rf0 inst = Inr rf1"
      and rest: "forEach
             (\<lambda>this inst.
                if \<not> additionalFunctionValueInfos env (functionValue inst)
                then addFunctionInstance this inst else Inr this)
             rf1 insts = Inr rf"
      by (auto split: sum.splits)
    from addFunctionInstance_entries [OF one Cons.prems(2)]
    have d1: "distinct (map fst (functionsMap rf1))"
      and l1: "\<And>code. (case map_of (functionsMap rf1) code of None \<Rightarrow> [] | Some a \<Rightarrow> a) =
                  (case map_of (functionsMap rf0) code of None \<Rightarrow> [] | Some a \<Rightarrow> a) @
                  (if ECMAScriptCode (functionValue inst) = Some code then [inst] else [])"
      by simp_all
    from Cons.IH [OF rest d1] False show ?thesis by (simp add: l1)
  qed
qed

text \<open>
  Claim C6, as amended.  Let the constructor have added the instances, let \<open>functionEntries\<close> list the
  entries of \<^verbatim>\<open>this.functions\<close> in strictly ascending order of the tags of their code blocks,
  every tag truthy, and let the statistics be available.  Then, whatever the iteration order
  of the map, \<^verbatim>\<open>spliceFunctions\<close> generates the factory function infos and runs the body of the
  loop "Process normal functions" on the entries in this ascending order, one after the
  other.  The instances of one code block are not sorted: the entry of a code block holds
  the instances that the constructor added for it, in the order in which it added them, and
  the loop body processes them in this order (\<open>naiveProcessInstances\<close> and the factory path
  both run over the array from its first element to its last).
\<close>

theorem code_blocks_processed_in_tag_order:
  assumes "ResidualFunctions env prel bodies residualFunctionInstances = Inr rf"
    and "mset functionEntries = mset (functionsMap rf)"
    and "sorted_wrt (<) (map (\<lambda>func. the (uniqueOrderedTag (fst func))) functionEntries)"
    and "list_all (\<lambda>func. truthy (uniqueOrderedTag (fst func))) functionEntries"
    and "statisticsAvailable env"
  shows "processNormalFunctions env rf =
           (case generateFactoryFunctionInfos env rf of
              Inl e \<Rightarrow> Inl e
            | Inr (factoryFunctionInfos, rf1) \<Rightarrow>
                forEach (processFunctionEntry env factoryFunctionInfos) rf1 functionEntries) \<and>
         list_all
           (\<lambda>func. snd func =
              filter (\<lambda>inst. ECMAScriptCode (functionValue inst) = Some (fst func))
                (filter (\<lambda>inst. \<not> additionalFunctionValueInfos env (functionValue inst))
                   residualFunctionInstances))
           functionEntries"
proof -
  let ?f = "\<lambda>func :: block \<times> function_instance list. the (uniqueOrderedTag (fst func))"
  have all: "list_all (\<lambda>func. truthy (uniqueOrderedTag (fst func))) (functionsMap rf)"
    using assms(2,4) by (metis list_all_iff mset_eq_setD)
  have sorted: "sort_key ?f (functionsMap rf) = functionEntries"
    by (rule ascending_arrangement [OF assms(2,3)])
  have first: "processNormalFunctions env rf =
           (case generateFactoryFunctionInfos env rf of
              Inl e \<Rightarrow> Inl e
            | Inr (factoryFunctionInfos, rf1) \<Rightarrow>
                forEach (processFunctionEntry env factoryFunctionInfos) rf1 functionEntries)"
    using all assms(5) sorted
    by (simp add: processNormalFunctions_def sortFunctionByOriginalOrdering_def invariant_def
        raisedAt_def getStatistics_def invariantAt_def)
  from assms(1) have loop: "forEach
             (\<lambda>this inst.
                if \<not> additionalFunctionValueInfos env (functionValue inst)
                then addFunctionInstance this inst else Inr this)
             (initialResidualFunctions prel bodies) residualFunctionInstances = Inr rf"
    by (simp add: ResidualFunctions_def)
  have "distinct (map fst (functionsMap (initialResidualFunctions prel bodies)))"
    by (simp add: initialResidualFunctions_def)
  from constructor_entries [OF loop this]
  have d: "distinct (map fst (functionsMap rf))"
    and l: "\<And>code. (case map_of (functionsMap rf) code of None \<Rightarrow> [] | Some a \<Rightarrow> a) =
                  filter (\<lambda>inst. ECMAScriptCode (functionValue inst) = Some code)
                    (filter (\<lambda>inst. \<not> additionalFunctionValueInfos env (functionValue inst))
                       residualFunctionInstances)"
    by (simp_all add: initialResidualFunctions_def)
  have second: "list_all
           (\<lambda>func. snd func =
              filter (\<lambda>inst. ECMAScriptCode (functionValue inst) = Some (fst func))
                (filter (\<lambda>inst. \<not> additionalFunctionValueInfos env (functionValue inst))
                   residualFunctionInstances))
           functionEntries"
    unfolding list_all_iff
  proof
    fix func assume "func \<in> set functionEntries"
    then have "func \<in> set (functionsMap rf)" using assms(2) by (metis mset_eq_setD)
    then have "(fst func, snd func) \<in> set (functionsMap rf)" by simp
    with d have "map_of (functionsMap rf) (fst func) = Some (snd func)" by (rule map_of_is_SomeI)
    with l [of "fst func"] show "snd func =
              filter (\<lambda>inst. ECMAScriptCode (functionValue inst) = Some (fst func))
                (filter (\<lambda>inst. \<not> additionalFunctionValueInfos env (functionValue inst))
                   residualFunctionInstances)" by simp
  qed
  from first second show ?thesis by simp
qed

text \<open>
  Two code blocks whose instances are added in descending order of the tags: the map lists
  the block with tag 2 first, the loop processes the block with tag 1 first, and the
  definition of its instance comes first in the prelude.
\<close>

theorem code_blocks_processed_in_tag_order_witness:
  "\<exists>rf. ResidualFunctions (plainEnvironment twoLocations (\<lambda>b. Some closedInfo)) [] (\<lambda>a. [])
           [boundInstance 1, smallInstance 2] = Inr rf \<and>
         map fst (functionsMap rf) = [largeCode, smallCode] \<and>
         processNormalFunctions (plainEnvironment twoLocations (\<lambda>b. Some closedInfo)) rf =
           (case generateFactoryFunctionInfos
                   (plainEnvironment twoLocations (\<lambda>b. Some closedInfo)) rf of
              Inl e \<Rightarrow> Inl e
            | Inr (factoryFunctionInfos, rf1) \<Rightarrow>
                forEach
                  (processFunctionEntry (plainEnvironment twoLocations (\<lambda>b. Some closedInfo))
                     factoryFunctionInfos)
                  rf1 [(smallCode, [smallInstance 2]), (largeCode, [boundInstance 1])]) \<and>
         map_sum fst globalPrelude
           (processNormalFunctions (plainEnvironment twoLocations (\<lambda>b. Some closedInfo)) rf) =
           Inr [varDeclaration (Identifier ''_2'') (FunctionExpression [] smallCode),
                varDeclaration (Identifier ''_1'')
                  (FunctionExpression [Identifier ''y''] largeCode)]"
  using code_blocks_processed_in_tag_order [where
      env = "plainEnvironment twoLocations (\<lambda>b. Some closedInfo)" and prel = "[]"
      and bodies = "\<lambda>a. []" and residualFunctionInstances = "[boundInstance 1, smallInstance 2]"
      and functionEntries = "[(smallCode, [smallInstance 2]), (largeCode, [boundInstance 1])]"]
  by (simp add: residual_eval)

text \<open>
  The claim as stated fails for the instances of one code block.  Two function values share
  a small code block, so each is cloned.  When the map of instances lists the first before
  the second, the definition of \<open>_1\<close> is emitted before the definition of \<open>_2\<close>; when it lists
  them the other way round, so are the definitions.
\<close>

theorem instance_order_counterexample:
  "mset [smallInstance 1, smallInstance 2] = mset [smallInstance 2, smallInstance 1] \<and>
   emittedDefinitions (plainEnvironment twoLocations (\<lambda>b. Some closedInfo))
     [smallInstance 1, smallInstance 2] =
     Inr [varDeclaration (Identifier ''_1'') (FunctionExpression [] smallCode),
          varDeclaration (Identifier ''_2'') (FunctionExpression [] smallCode)] \<and>
   emittedDefinitions (plainEnvironment twoLocations (\<lambda>b. Some closedInfo))
     [smallInstance 2, smallInstance 1] =
     Inr [varDeclaration (Identifier ''_2'') (FunctionExpression [] smallCode),
          varDeclaration (Identifier ''_1'') (FunctionExpression [] smallCode)] \<and>
   emittedDefinitions (plainEnvironment twoLocations (\<lambda>b. Some closedInfo))
     [smallInstance 1, smallInstance 2] \<noteq>
   emittedDefinitions (plainEnvironment twoLocations (\<lambda>b. Some closedInfo))
     [smallInstance 2, smallInstance 1]"
  by (simp add: residual_eval)

subsection \<open>What defining a function leaves alone\<close>

lemma getFunctionBody_frame:
  "getFunctionBody rf inst = (t, rf') \<Longrightarrow>
   t = FunctionBody inst \<and> functionPrototypes rf' = functionPrototypes rf \<and>
   firstFunctionUsages rf' = firstFunctionUsages rf \<and> classes rf' = classes rf \<and>
         unstrictFunctionBodies rf' = unstrictFunctionBodies rf \<and>
         strictFunctionBodies rf' = strictFunctionBodies rf \<and>
         functionClones rf' = functionClones rf"
  by (auto simp add: getFunctionBody_def getOrDefault_def Let_def split: option.splits)

lemma getPrelude_frame:
  "getPrelude rf inst = (t, rf') \<Longrightarrow>
   functionPrototypes rf' = functionPrototypes rf \<and>
   firstFunctionUsages rf' = firstFunctionUsages rf \<and> classes rf' = classes rf \<and>
         unstrictFunctionBodies rf' = unstrictFunctionBodies rf \<and>
         strictFunctionBodies rf' = strictFunctionBodies rf \<and>
         functionClones rf' = functionClones rf"
  by (auto simp add: getPrelude_def getOrDefault_def Let_def split: option.splits)

lemma pushStatements_frame:
  "functionPrototypes (pushStatements rf t stmts) = functionPrototypes rf \<and>
   firstFunctionUsages (pushStatements rf t stmts) = firstFunctionUsages rf \<and>
   classes (pushStatements rf t stmts) = classes rf \<and>
         unstrictFunctionBodies (pushStatements rf t stmts) = unstrictFunctionBodies rf \<and>
         strictFunctionBodies (pushStatements rf t stmts) = strictFunctionBodies rf \<and>
         functionClones (pushStatements rf t stmts) = functionClones rf"
  by (cases t) simp_all

lemma defineFunction_frame:
  assumes "defineFunction env rf inst funcId node = Inr rf'"
  shows "functionPrototypes rf' = functionPrototypes rf \<and>
         firstFunctionUsages rf' = firstFunctionUsages rf \<and> classes rf' = classes rf \<and>
         unstrictFunctionBodies rf' = unstrictFunctionBodies rf \<and>
         strictFunctionBodies rf' = strictFunctionBodies rf \<and>
         functionClones rf' = functionClones rf"
proof -
  define rf1 where "rf1 = (if length (initializationStatements inst) > 0
             then (let (initializationBody, t) = getFunctionBody rf inst
                   in pushStatements t initializationBody (initializationStatements inst))
             else rf)"
  have f1: "functionPrototypes rf1 = functionPrototypes rf \<and>
         firstFunctionUsages rf1 = firstFunctionUsages rf \<and> classes rf1 = classes rf \<and>
         unstrictFunctionBodies rf1 = unstrictFunctionBodies rf \<and>
         strictFunctionBodies rf1 = strictFunctionBodies rf \<and>
         functionClones rf1 = functionClones rf"
    unfolding rf1_def
    by (cases "getFunctionBody rf inst")
       (use getFunctionBody_frame pushStatements_frame in \<open>auto simp add: Let_def\<close>)
  define sel where "sel = (if isFunctionExpression node
               then Inr (getPrelude
                           (rf1\<lparr>funcNodes := AList.update (functionValue inst) node
                                                  (funcNodes rf1)\<rparr>) inst)
               else invariantAt rf1 (isCallExpression node \<or> isClassExpression node)
                      (Inr (getFunctionBody rf1 inst)))"
  from assms obtain t rf2 where sel: "sel = Inr (t, rf2)"
    unfolding defineFunction_def sel_def rf1_def Let_def
    by (auto split: sum.splits)
  have f2: "functionPrototypes rf2 = functionPrototypes rf \<and>
         firstFunctionUsages rf2 = firstFunctionUsages rf \<and> classes rf2 = classes rf \<and>
         unstrictFunctionBodies rf2 = unstrictFunctionBodies rf \<and>
         strictFunctionBodies rf2 = strictFunctionBodies rf \<and>
         functionClones rf2 = functionClones rf"
  proof (cases "isFunctionExpression node")
    case True
    with sel have "getPrelude (rf1\<lparr>funcNodes := AList.update (functionValue inst) node
                                                  (funcNodes rf1)\<rparr>) inst = (t, rf2)"
      unfolding sel_def by simp
    from getPrelude_frame [OF this] f1 show ?thesis by simp
  next
    case False
    with sel have "getFunctionBody rf1 inst = (t, rf2)"
      unfolding sel_def by (simp add: invariantAt_def split: if_splits)
    from getFunctionBody_frame [OF this] f1 show ?thesis by simp
  qed
  have res: "defineFunction env rf inst funcId node =
      (let rf3 = pushStatements rf2 t [varDeclaration funcId node]
             in (case map_of (functionPrototypes rf3) (functionValue inst) of
                   None \<Rightarrow> Inr rf3
                 | Some prototypeId \<Rightarrow>
                     (case getLocation env (functionValue inst) of
                        None \<Rightarrow> Inl (InvariantViolation, rf3)
                      | Some ident \<Rightarrow>
                          Inr (pushStatements rf3 t
                                 [varDeclaration prototypeId
                                    (MemberExpression ident (Identifier ''prototype''))]))))"
    using sel unfolding defineFunction_def sel_def rf1_def Let_def by simp
  from assms show ?thesis
    unfolding res Let_def using f2 pushStatements_frame
    by (auto split: option.splits)
qed


lemma defineFunction_succeeds:
  assumes "isFunctionExpression node \<or> isCallExpression node \<or> isClassExpression node"
    and "map_of (functionPrototypes rf) (functionValue inst) \<noteq> None \<longrightarrow>
         getLocation env (functionValue inst) \<noteq> None"
  shows "\<exists>rf'. defineFunction env rf inst funcId node = Inr rf'"
proof -
  define rf1 where "rf1 = (if length (initializationStatements inst) > 0
             then (let (initializationBody, t) = getFunctionBody rf inst
                   in pushStatements t initializationBody (initializationStatements inst))
             else rf)"
  have f1: "functionPrototypes rf1 = functionPrototypes rf"
    unfolding rf1_def
    by (cases "getFunctionBody rf inst")
       (use getFunctionBody_frame pushStatements_frame in \<open>auto simp add: Let_def\<close>)
  define sel where "sel = (if isFunctionExpression node
               then Inr (getPrelude
                           (rf1\<lparr>funcNodes := AList.update (functionValue inst) node
                                                  (funcNodes rf1)\<rparr>) inst)
               else invariantAt rf1 (isCallExpression node \<or> isClassExpression node)
                      (Inr (getFunctionBody rf1 inst)))"
  have "\<exists>t rf2. sel = Inr (t, rf2)"
  proof (cases "isFunctionExpression node")
    case True
    then show ?thesis unfolding sel_def by simp
  next
    case False
    with assms(1) show ?thesis unfolding sel_def by (simp add: invariantAt_def)
  qed
  then obtain t rf2 where sel: "sel = Inr (t, rf2)" by blast
  have f2: "functionPrototypes rf2 = functionPrototypes rf"
  proof (cases "isFunctionExpression node")
    case True
    with sel have "getPrelude (rf1\<lparr>funcNodes := AList.update (functionValue inst) node
                                                  (funcNodes rf1)\<rparr>) inst = (t, rf2)"
      unfolding sel_def by simp
    from getPrelude_frame [OF this] f1 show ?thesis by simp
  next
    case False
    with sel have "getFunctionBody rf1 inst = (t, rf2)"
      unfolding sel_def by (simp add: invariantAt_def split: if_splits)
    from getFunctionBody_frame [OF this] f1 show ?thesis by simp
  qed
  have res: "defineFunction env rf inst funcId node =
      (let rf3 = pushStatements rf2 t [varDeclaration funcId node]
             in (case map_of (functionPrototypes rf3) (functionValue inst) of
                   None \<Rightarrow> Inr rf3
                 | Some prototypeId \<Rightarrow>
                     (case getLocation env (functionValue inst) of
                        None \<Rightarrow> Inl (InvariantViolation, rf3)
                      | Some ident \<Rightarrow>
                          Inr (pushStatements rf3 t
                                 [varDeclaration prototypeId
                                    (MemberExpression ident (Identifier ''prototype''))]))))"
    using sel unfolding defineFunction_def sel_def rf1_def Let_def by simp
  show ?thesis
    unfolding res Let_def using f2 assms(2) pushStatements_frame
    by (auto split: option.splits)
qed

lemma requiresCallWrapper_frame:
  "functionPrototypes rf' = functionPrototypes rf \<Longrightarrow>
   firstFunctionUsages rf' = firstFunctionUsages rf \<Longrightarrow>
   requiresCallWrapper env rf' usesThisFlag factoryNames inst =
   requiresCallWrapper env rf usesThisFlag factoryNames inst"
  by (simp add: requiresCallWrapper_def)



subsection \<open>What defining a function adds\<close>

lemma statementsAt_pushStatements:
  "statementsAt (pushStatements rf t stmts) t' =
     statementsAt rf t' @ (if t' = t then stmts else [])"
  by (cases t; cases t') (auto simp add: update_conv' split: option.splits)

lemma funcNodes_pushStatements:
  "funcNodes (pushStatements rf t stmts) = funcNodes rf"
  by (cases t) simp_all

lemma statementsAt_getFunctionBody:
  "getFunctionBody rf inst = (t, rf') \<Longrightarrow>
   statementsAt rf' t' = statementsAt rf t' \<and> funcNodes rf' = funcNodes rf"
  by (cases t')
     (auto simp add: getFunctionBody_def getOrDefault_def Let_def update_conv'
      split: option.splits if_splits)

lemma statementsAt_getPrelude:
  "getPrelude rf inst = (t, rf') \<Longrightarrow>
   t = preludeOf inst \<and> statementsAt rf' t' = statementsAt rf t' \<and>
   funcNodes rf' = funcNodes rf"
  by (cases t')
     (auto simp add: getPrelude_def preludeOf_def getOrDefault_def Let_def update_conv'
      split: option.splits if_splits)

text \<open>
  The whole effect of \<^verbatim>\<open>defineFunction\<close> on the arrays of statements: the initialization
  statements go to the insertion point of the instance, the definition \<^verbatim>\<open>var funcId = node\<close>
  and the declaration of the prototype identifier go to the prelude of the instance when
  the node is a function expression and to its insertion point otherwise.
\<close>

lemma defineFunction_effect:
  assumes "isFunctionExpression node \<or> isCallExpression node \<or> isClassExpression node"
    and "map_of (functionPrototypes rf) (functionValue inst) \<noteq> None \<longrightarrow>
         getLocation env (functionValue inst) \<noteq> None"
  shows "\<exists>rf'. defineFunction env rf inst funcId node = Inr rf' \<and>
           (\<forall>t'. statementsAt rf' t' =
                  statementsAt rf t' @
                  (if t' = FunctionBody inst then initializationStatements inst else []) @
                  (if t' = (if isFunctionExpression node then preludeOf inst
                            else FunctionBody inst)
                   then varDeclaration funcId node # prototypeDeclaration env rf inst
                   else [])) \<and>
           funcNodes rf' =
             (if isFunctionExpression node
              then AList.update (functionValue inst) node (funcNodes rf) else funcNodes rf)"
proof -
  define rf1 where "rf1 = (if length (initializationStatements inst) > 0
             then (let (initializationBody, t) = getFunctionBody rf inst
                   in pushStatements t initializationBody (initializationStatements inst))
             else rf)"
  have f1: "functionPrototypes rf1 = functionPrototypes rf"
    unfolding rf1_def
    by (cases "getFunctionBody rf inst")
       (use getFunctionBody_frame pushStatements_frame in \<open>auto simp add: Let_def\<close>)
  have s1: "statementsAt rf1 t' =
      statementsAt rf t' @
      (if t' = FunctionBody inst then initializationStatements inst else [])" for t'
  proof (cases "getFunctionBody rf inst")
    case (Pair tb rfb)
    from getFunctionBody_frame [OF Pair] have tb: "tb = FunctionBody inst" by simp
    have eq: "statementsAt rfb t'' = statementsAt rf t''" for t''
      using statementsAt_getFunctionBody [OF Pair] by simp
    from Pair tb show ?thesis
      unfolding rf1_def
      by (simp add: statementsAt_pushStatements eq
          del: pushStatements.simps statementsAt.simps)
  qed
  have n1: "funcNodes rf1 = funcNodes rf"
  proof (cases "getFunctionBody rf inst")
    case (Pair tb rfb)
    from statementsAt_getFunctionBody [OF Pair] Pair show ?thesis
      unfolding rf1_def by (simp add: funcNodes_pushStatements del: pushStatements.simps)
  qed
  define sel where "sel = (if isFunctionExpression node
               then Inr (getPrelude
                           (rf1\<lparr>funcNodes := AList.update (functionValue inst) node
                                                  (funcNodes rf1)\<rparr>) inst)
               else invariantAt rf1 (isCallExpression node \<or> isClassExpression node)
                      (Inr (getFunctionBody rf1 inst)))"
  have "\<exists>t rf2. sel = Inr (t, rf2)"
  proof (cases "isFunctionExpression node")
    case True
    then show ?thesis unfolding sel_def by simp
  next
    case False
    with assms(1) show ?thesis unfolding sel_def by (simp add: invariantAt_def)
  qed
  then obtain t rf2 where sel: "sel = Inr (t, rf2)" by blast
  have f2: "functionPrototypes rf2 = functionPrototypes rf \<and>
      t = (if isFunctionExpression node then preludeOf inst else FunctionBody inst) \<and>
      (\<forall>t'. statementsAt rf2 t' = statementsAt rf1 t') \<and>
      funcNodes rf2 =
        (if isFunctionExpression node
         then AList.update (functionValue inst) node (funcNodes rf) else funcNodes rf)"
  proof (cases "isFunctionExpression node")
    case True
    let ?rf = "rf1\<lparr>funcNodes := AList.update (functionValue inst) node (funcNodes rf1)\<rparr>"
    from True sel have g: "getPrelude ?rf inst = (t, rf2)"
      unfolding sel_def by simp
    have "statementsAt ?rf t' = statementsAt rf1 t'" for t' by (cases t') simp_all
    with getPrelude_frame [OF g] statementsAt_getPrelude [OF g] f1 n1 True
    show ?thesis by simp
  next
    case False
    with sel have g: "getFunctionBody rf1 inst = (t, rf2)"
      unfolding sel_def by (simp add: invariantAt_def split: if_splits)
    from getFunctionBody_frame [OF g] statementsAt_getFunctionBody [OF g] f1 n1 False
    show ?thesis by simp
  qed
  have res: "defineFunction env rf inst funcId node =
      (let rf3 = pushStatements rf2 t [varDeclaration funcId node]
             in (case map_of (functionPrototypes rf3) (functionValue inst) of
                   None \<Rightarrow> Inr rf3
                 | Some prototypeId \<Rightarrow>
                     (case getLocation env (functionValue inst) of
                        None \<Rightarrow> Inl (InvariantViolation, rf3)
                      | Some ident \<Rightarrow>
                          Inr (pushStatements rf3 t
                                 [varDeclaration prototypeId
                                    (MemberExpression ident (Identifier ''prototype''))]))))"
    using sel unfolding defineFunction_def sel_def rf1_def Let_def by simp
  have p3: "functionPrototypes (pushStatements rf2 t [varDeclaration funcId node]) =
      functionPrototypes rf"
    using f2 pushStatements_frame by simp
  show ?thesis
  proof (cases "map_of (functionPrototypes rf) (functionValue inst)")
    case None
    then have "defineFunction env rf inst funcId node =
        Inr (pushStatements rf2 t [varDeclaration funcId node])"
      unfolding res Let_def p3 by simp
    with f2 s1 None show ?thesis
      by (simp add: statementsAt_pushStatements funcNodes_pushStatements
          prototypeDeclaration_def del: pushStatements.simps statementsAt.simps)
  next
    case (Some prototypeId)
    with assms(2) obtain ident where loc: "getLocation env (functionValue inst) = Some ident"
      by auto
    with Some have "defineFunction env rf inst funcId node =
        Inr (pushStatements (pushStatements rf2 t [varDeclaration funcId node]) t
               [varDeclaration prototypeId
                  (MemberExpression ident (Identifier ''prototype''))])"
      unfolding res Let_def p3 by simp
    with f2 s1 Some loc show ?thesis
      by (simp add: statementsAt_pushStatements funcNodes_pushStatements
          prototypeDeclaration_def del: pushStatements.simps statementsAt.simps)
  qed
qed

subsection \<open>What the replacements of require calls change\<close>

lemma forEach_preserves:
  assumes "\<And>s x s'. P s \<Longrightarrow> f s x = Inr s' \<Longrightarrow> P s'"
    and "P s" and "forEach f s xs = Inr s'"
  shows "P s'"
  using assms(2,3)
proof (induction xs arbitrary: s)
  case Nil
  then show ?case by simp
next
  case (Cons x xs)
  from Cons.prems(2) obtain s1 where s1: "f s x = Inr s1" and rest: "forEach f s1 xs = Inr s'"
    by (auto split: sum.splits)
  from assms(1) [OF Cons.prems(1) s1] have "P s1" .
  from Cons.IH [OF this rest] show ?case .
qed

text \<open>
  \<^verbatim>\<open>_getCallReplacements\<close> counts in the statistics; it leaves the prelude, the function
  bodies, the prototype identifiers and the first usages alone.
\<close>

lemma getCallReplacements_leaves:
  assumes "getCallReplacements env rf funcBody = Inr (calls, rf')"
  shows "globalPrelude rf' = globalPrelude rf \<and>
         strictFunctionBodies rf' = strictFunctionBodies rf \<and>
         unstrictFunctionBodies rf' = unstrictFunctionBodies rf \<and>
         functionPrototypes rf' = functionPrototypes rf \<and>
         firstFunctionUsages rf' = firstFunctionUsages rf"
proof -
  from assms obtain functionInfo where info: "residualFunctionInfos env funcBody = Some functionInfo"
    by (auto simp add: getCallReplacements_def split: option.splits)
  let ?P = "\<lambda>p :: ((nat \<times> string) \<times> replacement) list \<times> residual_functions.
              globalPrelude (snd p) = globalPrelude rf \<and>
              strictFunctionBodies (snd p) = strictFunctionBodies rf \<and>
              unstrictFunctionBodies (snd p) = unstrictFunctionBodies rf \<and>
              functionPrototypes (snd p) = functionPrototypes rf \<and>
              firstFunctionUsages (snd p) = firstFunctionUsages rf"
  have "?P (calls, rf')"
  proof (rule forEach_preserves [where P = ?P and s = "([], rf)"])
    show "?P ([], rf)" by simp
    show "forEach
            (\<lambda>(res, this) (callNode, moduleId).
               getStatistics env this
                 (let this1 = this\<lparr>requireCallsSeen := requireCallsSeen this + 1\<rparr>
                  in if snd callNode \<in> modifiedNames functionInfo then Inr (res, this1)
                     else
                       (case requireReturns env moduleId of
                          None \<Rightarrow> Inr (res, this1)
                        | Some r \<Rightarrow>
                            Inr (AList.update callNode r res,
                                 this1\<lparr>requireCallsReplaced :=
                                          requireCallsReplaced this1 + 1\<rparr>))))
            ([], rf) (requireCalls functionInfo) = Inr (calls, rf')"
      using assms info by (simp add: getCallReplacements_def)
  next
    fix s x s'
    assume "?P s" and "(case s of (res, this) \<Rightarrow> \<lambda>(callNode, moduleId).
               getStatistics env this
                 (let this1 = this\<lparr>requireCallsSeen := requireCallsSeen this + 1\<rparr>
                  in if snd callNode \<in> modifiedNames functionInfo then Inr (res, this1)
                     else
                       (case requireReturns env moduleId of
                          None \<Rightarrow> Inr (res, this1)
                        | Some r \<Rightarrow>
                            Inr (AList.update callNode r res,
                                 this1\<lparr>requireCallsReplaced :=
                                          requireCallsReplaced this1 + 1\<rparr>)))) x = Inr s'"
    then show "?P s'"
      by (cases s; cases x)
         (auto simp add: getStatistics_def invariantAt_def Let_def
          split: if_splits option.splits)
  qed
  then show ?thesis by simp
qed
subsection \<open>The stubs of the factory path\<close>

lemma factoryArguments_spec:
  assumes "list_all (\<lambda>name. case map_of bindings name of
                         None \<Rightarrow> False
                       | Some residualBinding \<Rightarrow> serializedValue residualBinding \<noteq> None) names"
  shows "factoryArguments bindings names =
           Inr (map (\<lambda>name. the (serializedValue (the (map_of bindings name)))) names,
                list_ex (\<lambda>name. case map_of bindings name of
                         None \<Rightarrow> False
                       | Some residualBinding \<Rightarrow>
                           (case bvalue residualBinding of
                              None \<Rightarrow> False
                            | Some v \<Rightarrow> instanceofFunctionValue v)) names)"
  using assms by (induction names) (auto split: option.splits)

lemma pushParameters_identifiers:
  "list_all isIdentifier params \<Longrightarrow> pushParameters callArgs params = Inr (callArgs @ params)"
  by (induction params arbitrary: callArgs) simp_all

lemma pushParameters_fatal:
  "\<not> list_all isIdentifier params \<Longrightarrow>
   pushParameters callArgs params =
     Inl (FatalError ''TODO: do not know how to deal with non-Identifier parameters'')"
  by (induction params arbitrary: callArgs) simp_all

lemma factoryFuncNode_cases:
  assumes "bindingsSerialized factoryNames inst"
    and "insertionPoint inst = Some point"
  shows "factoryFuncNode env rf factoryIdent factoryNames params usesThisFlag inst =
           (if requiresCallWrapper env rf usesThisFlag factoryNames inst
            then (case pushParameters (ThisExpression # serializedArguments factoryNames inst)
                         params of
                    Inl e \<Rightarrow> Inl e
                  | Inr callArgs \<Rightarrow>
                      Inr (FunctionExpression params
                             (blockStatement
                                [ReturnStatement
                                   (CallExpression
                                      (MemberExpression factoryIdent (Identifier ''call''))
                                      callArgs)])))
            else Inr (CallExpression
                        (MemberExpression factoryIdent (Identifier ''bind''))
                        (NullLiteral # serializedArguments factoryNames inst)))"
proof -
  define h where "h = list_ex (\<lambda>name. case map_of (residualFunctionBindings inst) name of
                         None \<Rightarrow> False
                       | Some residualBinding \<Rightarrow>
                           (case bvalue residualBinding of
                              None \<Rightarrow> False
                            | Some v \<Rightarrow> instanceofFunctionValue v)) factoryNames"
  define args where "args = map (\<lambda>name. the (serializedValue
      (the (map_of (residualFunctionBindings inst) name)))) factoryNames"
  have fa: "factoryArguments (residualFunctionBindings inst) factoryNames = Inr (args, h)"
    unfolding args_def h_def
    by (rule factoryArguments_spec) (use assms(1) in \<open>simp add: bindingsSerialized_def\<close>)
  have req: "requiresCallWrapper env rf usesThisFlag factoryNames inst =
      (hasInitializerStatement env (functionValue inst) \<or> usesThisFlag \<or> h \<or>
       (case map_of (firstFunctionUsages rf) (functionValue inst) of
          None \<Rightarrow> False
        | Some usage \<Rightarrow> \<not> isNotEarlierThan env usage point) \<or>
       map_of (functionPrototypes rf) (functionValue inst) \<noteq> None)"
    unfolding requiresCallWrapper_def h_def using assms(2) by (simp cong: option.case_cong)
  have flat: "serializedArguments factoryNames inst =
      args @ map (\<lambda>entry. NumericLiteral (scopeId (snd entry))) (scopeInstances inst)"
    unfolding serializedArguments_def args_def by simp
  show ?thesis
    unfolding factoryFuncNode_def fa req flat using assms(2) by (simp add: Let_def)
qed

lemma factoryFuncNode_result:
  assumes "bindingsSerialized factoryNames inst"
    and "insertionPoint inst = Some point"
  shows "factoryFuncNode env rf factoryIdent factoryNames params usesThisFlag inst =
           (if requiresCallWrapper env rf usesThisFlag factoryNames inst
            then (if list_all isIdentifier params
                  then Inr (callWrapper factoryIdent factoryNames params inst)
                  else Inl (FatalError
                              ''TODO: do not know how to deal with non-Identifier parameters''))
            else Inr (bindExpression factoryIdent factoryNames inst))"
  by (simp add: factoryFuncNode_cases [OF assms] pushParameters_identifiers
      pushParameters_fatal callWrapper_def bindExpression_def)

lemma getPrelude_target: "fst (getPrelude rf inst) = preludeOf inst"
  by (simp add: getPrelude_def preludeOf_def getOrDefault_def Let_def
      split: option.splits prod.splits)

lemma pushFunctionBodyNode_frame:
  "statementsAt (pushFunctionBodyNode rf fv node) t = statementsAt rf t \<and>
   functionPrototypes (pushFunctionBodyNode rf fv node) = functionPrototypes rf \<and>
   firstFunctionUsages (pushFunctionBodyNode rf fv node) = firstFunctionUsages rf \<and>
   funcNodes (pushFunctionBodyNode rf fv node) = funcNodes rf \<and>
   prototypeDeclaration env (pushFunctionBodyNode rf fv node) inst =
     prototypeDeclaration env rf inst"
  by (cases t) (simp_all add: pushFunctionBodyNode_def prototypeDeclaration_def)

text \<open>
  The iteration for an instance that requires the wrapper, all formal parameters being
  identifiers: the wrapper is pushed onto the array of function bodies and defined in the
  prelude of the instance.
\<close>

lemma factoryProcessInstance_wrapper:
  assumes "stubInvariants env factoryNames inst"
    and "requiresCallWrapper env rf usesThisFlag factoryNames inst"
    and "list_all isIdentifier params"
  shows "\<exists>rf'. factoryProcessInstance env factoryIdent factoryNames params usesThisFlag rf inst =
                 Inr rf' \<and>
               strictFunctionBodies rf' =
                 strictFunctionBodies rf @
                 (if Strict (functionValue inst)
                  then [callWrapper factoryIdent factoryNames params inst] else []) \<and>
               unstrictFunctionBodies rf' =
                 unstrictFunctionBodies rf @
                 (if Strict (functionValue inst)
                  then [] else [callWrapper factoryIdent factoryNames params inst]) \<and>
               map_of (funcNodes rf') (functionValue inst) =
                 Some (callWrapper factoryIdent factoryNames params inst) \<and>
               statementsAt rf' (preludeOf inst) =
                 statementsAt rf (preludeOf inst) @
                 varDeclaration (the (getLocation env (functionValue inst)))
                   (callWrapper factoryIdent factoryNames params inst) #
                 prototypeDeclaration env rf inst \<and>
               statementsAt rf' (FunctionBody inst) =
                 statementsAt rf (FunctionBody inst) @ initializationStatements inst"
proof -
  from assms(1) obtain functionId point where
    loc: "getLocation env (functionValue inst) = Some functionId"
    and bs: "bindingsSerialized factoryNames inst"
    and pt: "insertionPoint inst = Some point"
    unfolding stubInvariants_def by auto
  define node where "node = callWrapper factoryIdent factoryNames params inst"
  have fe: "isFunctionExpression node" unfolding node_def callWrapper_def by simp
  define rfp where "rfp = pushFunctionBodyNode rf (functionValue inst) node"
  have step: "factoryProcessInstance env factoryIdent factoryNames params usesThisFlag rf inst =
      defineFunction env rfp inst functionId node"
    using assms(2,3) fe
    by (simp add: factoryProcessInstance_def loc factoryFuncNode_result [OF bs pt]
        raisedAt_def node_def [symmetric] rfp_def)
  from defineFunction_effect [of node rfp inst env functionId] fe loc
  obtain rf' where d: "defineFunction env rfp inst functionId node = Inr rf'"
    and st: "\<And>t'. statementsAt rf' t' =
                  statementsAt rfp t' @
                  (if t' = FunctionBody inst then initializationStatements inst else []) @
                  (if t' = preludeOf inst
                   then varDeclaration functionId node # prototypeDeclaration env rfp inst
                   else [])"
    and fn: "funcNodes rf' = AList.update (functionValue inst) node (funcNodes rfp)"
    by auto
  have ne: "preludeOf inst \<noteq> FunctionBody inst"
    by (simp add: preludeOf_def split: option.splits)
  from defineFunction_frame [OF d]
  have "strictFunctionBodies rf' = strictFunctionBodies rfp"
    and "unstrictFunctionBodies rf' = unstrictFunctionBodies rfp" by simp_all
  then have bodies: "strictFunctionBodies rf' =
                 strictFunctionBodies rf @ (if Strict (functionValue inst) then [node] else [])"
      "unstrictFunctionBodies rf' =
                 unstrictFunctionBodies rf @ (if Strict (functionValue inst) then [] else [node])"
    by (simp_all add: rfp_def pushFunctionBodyNode_def)
  have nodes: "map_of (funcNodes rf') (functionValue inst) = Some node"
    by (simp add: fn update_conv')
  have pre: "statementsAt rf' (preludeOf inst) =
      statementsAt rf (preludeOf inst) @
      varDeclaration functionId node # prototypeDeclaration env rf inst"
    using st [of "preludeOf inst"] ne pushFunctionBodyNode_frame [of rf "functionValue inst" node]
    by (simp add: rfp_def)
  have bod: "statementsAt rf' (FunctionBody inst) =
      statementsAt rf (FunctionBody inst) @ initializationStatements inst"
    using st [of "FunctionBody inst"] ne
      pushFunctionBodyNode_frame [of rf "functionValue inst" node "FunctionBody inst"]
    by (simp add: rfp_def del: statementsAt.simps)
  from step d bodies nodes pre bod loc show ?thesis
    unfolding node_def by simp
qed

text \<open>
  The iteration for an instance that does not require the wrapper: the \<^verbatim>\<open>bind\<close> expression
  is defined at the insertion point of the instance, after its initialization statements;
  nothing else is pushed anywhere.
\<close>

lemma factoryProcessInstance_bind:
  assumes "stubInvariants env factoryNames inst"
    and "\<not> requiresCallWrapper env rf usesThisFlag factoryNames inst"
  shows "\<exists>rf'. factoryProcessInstance env factoryIdent factoryNames params usesThisFlag rf inst =
                 Inr rf' \<and>
               functionPrototypes rf' = functionPrototypes rf \<and>
               firstFunctionUsages rf' = firstFunctionUsages rf \<and>
               strictFunctionBodies rf' = strictFunctionBodies rf \<and>
               unstrictFunctionBodies rf' = unstrictFunctionBodies rf \<and>
               funcNodes rf' = funcNodes rf \<and>
               (\<forall>t'. statementsAt rf' t' =
                  statementsAt rf t' @
                  (if t' = FunctionBody inst
                   then initializationStatements inst @
                        [varDeclaration (the (getLocation env (functionValue inst)))
                           (bindExpression factoryIdent factoryNames inst)]
                   else []))"
proof -
  from assms(1) obtain functionId point where
    loc: "getLocation env (functionValue inst) = Some functionId"
    and bs: "bindingsSerialized factoryNames inst"
    and pt: "insertionPoint inst = Some point"
    unfolding stubInvariants_def by auto
  define node where "node = bindExpression factoryIdent factoryNames inst"
  have ce: "isCallExpression node" "\<not> isFunctionExpression node"
    unfolding node_def bindExpression_def by simp_all
  have step: "factoryProcessInstance env factoryIdent factoryNames params usesThisFlag rf inst =
      defineFunction env rf inst functionId node"
    using assms(2) ce
    by (simp add: factoryProcessInstance_def loc factoryFuncNode_result [OF bs pt]
        raisedAt_def node_def [symmetric])
  from assms(2) have np: "map_of (functionPrototypes rf) (functionValue inst) = None"
    by (simp add: requiresCallWrapper_def)
  then have pd: "prototypeDeclaration env rf inst = []"
    by (simp add: prototypeDeclaration_def)
  from defineFunction_effect [of node rf inst env functionId] ce np
  obtain rf' where d: "defineFunction env rf inst functionId node = Inr rf'"
    and st: "\<And>t'. statementsAt rf' t' =
                  statementsAt rf t' @
                  (if t' = FunctionBody inst then initializationStatements inst else []) @
                  (if t' = FunctionBody inst
                   then varDeclaration functionId node # prototypeDeclaration env rf inst
                   else [])"
    and fn: "funcNodes rf' = funcNodes rf"
    by auto
  from defineFunction_frame [OF d] step d st fn pd loc show ?thesis
    unfolding node_def by (simp del: statementsAt.simps)
qed

lemma factoryProcessInstance_fatal:
  assumes "stubInvariants env factoryNames inst"
    and "requiresCallWrapper env rf usesThisFlag factoryNames inst"
    and "\<not> list_all isIdentifier params"
  shows "factoryProcessInstance env factoryIdent factoryNames params usesThisFlag rf inst =
           Inl (FatalError ''TODO: do not know how to deal with non-Identifier parameters'',
                rf)"
proof -
  from assms(1) obtain functionId point where
    loc: "getLocation env (functionValue inst) = Some functionId"
    and bs: "bindingsSerialized factoryNames inst"
    and pt: "insertionPoint inst = Some point"
    unfolding stubInvariants_def by auto
  show ?thesis
    using assms(2,3)
    by (simp add: factoryProcessInstance_def loc factoryFuncNode_result [OF bs pt]
        raisedAt_def)
qed

text \<open>
  Claim C7, as amended.  One iteration of the loop of the factory path, for an instance
  whose asserted lookups succeed (its function value has a location, every varying name has
  a binding with a serialized value, the insertion point is known).  The arguments of the
  instance are the serialized values of its varying bindings followed by the ids of its
  scopes.
  \<^item> When the instance requires the wrapper and every formal parameter is an identifier, the
    wrapper \<^verbatim>\<open>function (params) { return factory.call(this, ...args, ...params); }\<close> is pushed
    onto the array of strict or of unstrict function bodies, recorded as the node of the
    function value, and defined as \<^verbatim>\<open>var functionId = wrapper\<close> in the prelude of the instance,
    followed by the declaration of the prototype identifier, if there is one; the
    initialization statements of the instance go to its insertion point.
  \<^item> When the instance requires the wrapper and some formal parameter is no identifier, no
    stub is emitted: the iteration throws the fatal error and changes nothing.
  \<^item> When the instance does not require the wrapper, its value is the expression
    \<^verbatim>\<open>factory.bind(null, ...args)\<close>, defined as \<^verbatim>\<open>var functionId = factory.bind(...)\<close> at the
    insertion point of the instance, after its initialization statements; no function body
    is pushed and the prelude is left alone.
\<close>

theorem factory_stub_emitted:
  assumes "stubInvariants env factoryNames inst"
  shows "(requiresCallWrapper env rf usesThisFlag factoryNames inst \<and>
          list_all isIdentifier params \<longrightarrow>
            (\<exists>rf'. factoryProcessInstance env factoryIdent factoryNames params usesThisFlag
                     rf inst = Inr rf' \<and>
               strictFunctionBodies rf' =
                 strictFunctionBodies rf @
                 (if Strict (functionValue inst)
                  then [callWrapper factoryIdent factoryNames params inst] else []) \<and>
               unstrictFunctionBodies rf' =
                 unstrictFunctionBodies rf @
                 (if Strict (functionValue inst)
                  then [] else [callWrapper factoryIdent factoryNames params inst]) \<and>
               map_of (funcNodes rf') (functionValue inst) =
                 Some (callWrapper factoryIdent factoryNames params inst) \<and>
               statementsAt rf' (fst (getPrelude rf inst)) =
                 statementsAt rf (fst (getPrelude rf inst)) @
                 varDeclaration (the (getLocation env (functionValue inst)))
                   (callWrapper factoryIdent factoryNames params inst) #
                 prototypeDeclaration env rf inst \<and>
               statementsAt rf' (FunctionBody inst) =
                 statementsAt rf (FunctionBody inst) @ initializationStatements inst)) \<and>
         (requiresCallWrapper env rf usesThisFlag factoryNames inst \<and>
          \<not> list_all isIdentifier params \<longrightarrow>
            factoryProcessInstance env factoryIdent factoryNames params usesThisFlag rf inst =
              Inl (FatalError ''TODO: do not know how to deal with non-Identifier parameters'',
                   rf)) \<and>
         (\<not> requiresCallWrapper env rf usesThisFlag factoryNames inst \<longrightarrow>
            (\<exists>rf'. factoryProcessInstance env factoryIdent factoryNames params usesThisFlag
                     rf inst = Inr rf' \<and>
               strictFunctionBodies rf' = strictFunctionBodies rf \<and>
               unstrictFunctionBodies rf' = unstrictFunctionBodies rf \<and>
               funcNodes rf' = funcNodes rf \<and>
               statementsAt rf' (FunctionBody inst) =
                 statementsAt rf (FunctionBody inst) @ initializationStatements inst @
                 [varDeclaration (the (getLocation env (functionValue inst)))
                    (bindExpression factoryIdent factoryNames inst)] \<and>
               statementsAt rf' (fst (getPrelude rf inst)) =
                 statementsAt rf (fst (getPrelude rf inst))))"
proof (intro conjI impI)
  assume "requiresCallWrapper env rf usesThisFlag factoryNames inst \<and>
          list_all isIdentifier params"
  then have r: "requiresCallWrapper env rf usesThisFlag factoryNames inst"
    and p: "list_all isIdentifier params" by simp_all
  from factoryProcessInstance_wrapper [OF assms r p, of factoryIdent]
  show "\<exists>rf'. factoryProcessInstance env factoryIdent factoryNames params usesThisFlag
                     rf inst = Inr rf' \<and>
               strictFunctionBodies rf' =
                 strictFunctionBodies rf @
                 (if Strict (functionValue inst)
                  then [callWrapper factoryIdent factoryNames params inst] else []) \<and>
               unstrictFunctionBodies rf' =
                 unstrictFunctionBodies rf @
                 (if Strict (functionValue inst)
                  then [] else [callWrapper factoryIdent factoryNames params inst]) \<and>
               map_of (funcNodes rf') (functionValue inst) =
                 Some (callWrapper factoryIdent factoryNames params inst) \<and>
               statementsAt rf' (fst (getPrelude rf inst)) =
                 statementsAt rf (fst (getPrelude rf inst)) @
                 varDeclaration (the (getLocation env (functionValue inst)))
                   (callWrapper factoryIdent factoryNames params inst) #
                 prototypeDeclaration env rf inst \<and>
               statementsAt rf' (FunctionBody inst) =
                 statementsAt rf (FunctionBody inst) @ initializationStatements inst"
    unfolding getPrelude_target .
next
  assume "requiresCallWrapper env rf usesThisFlag factoryNames inst \<and>
          \<not> list_all isIdentifier params"
  then have r: "requiresCallWrapper env rf usesThisFlag factoryNames inst"
    and p: "\<not> list_all isIdentifier params" by simp_all
  from factoryProcessInstance_fatal [OF assms r p]
  show "factoryProcessInstance env factoryIdent factoryNames params usesThisFlag rf inst =
              Inl (FatalError ''TODO: do not know how to deal with non-Identifier parameters'',
                   rf)" .
next
  assume r: "\<not> requiresCallWrapper env rf usesThisFlag factoryNames inst"
  have ne: "preludeOf inst \<noteq> FunctionBody inst"
    by (simp add: preludeOf_def split: option.splits)
  from factoryProcessInstance_bind [OF assms r, of factoryIdent params]
  obtain rf' where
    "factoryProcessInstance env factoryIdent factoryNames params usesThisFlag rf inst = Inr rf'"
    and "strictFunctionBodies rf' = strictFunctionBodies rf"
    and "unstrictFunctionBodies rf' = unstrictFunctionBodies rf"
    and "funcNodes rf' = funcNodes rf"
    and st: "\<And>t'. statementsAt rf' t' =
                  statementsAt rf t' @
                  (if t' = FunctionBody inst
                   then initializationStatements inst @
                        [varDeclaration (the (getLocation env (functionValue inst)))
                           (bindExpression factoryIdent factoryNames inst)]
                   else [])"
    by blast
  moreover from st [of "FunctionBody inst"]
  have "statementsAt rf' (FunctionBody inst) =
                 statementsAt rf (FunctionBody inst) @ initializationStatements inst @
                 [varDeclaration (the (getLocation env (functionValue inst)))
                    (bindExpression factoryIdent factoryNames inst)]"
    by (simp del: statementsAt.simps)
  moreover from st [of "preludeOf inst"] ne
  have "statementsAt rf' (fst (getPrelude rf inst)) = statementsAt rf (fst (getPrelude rf inst))"
    unfolding getPrelude_target by (simp del: statementsAt.simps)
  ultimately show "\<exists>rf'. factoryProcessInstance env factoryIdent factoryNames params
                     usesThisFlag rf inst = Inr rf' \<and>
               strictFunctionBodies rf' = strictFunctionBodies rf \<and>
               unstrictFunctionBodies rf' = unstrictFunctionBodies rf \<and>
               funcNodes rf' = funcNodes rf \<and>
               statementsAt rf' (FunctionBody inst) =
                 statementsAt rf (FunctionBody inst) @ initializationStatements inst @
                 [varDeclaration (the (getLocation env (functionValue inst)))
                    (bindExpression factoryIdent factoryNames inst)] \<and>
               statementsAt rf' (fst (getPrelude rf inst)) =
                 statementsAt rf (fst (getPrelude rf inst))"
    by blast
qed

text \<open>
  The same instance without and with a use of \<^verbatim>\<open>this\<close> in its code: the \<^verbatim>\<open>bind\<close> expression
  defined at the insertion point, and the wrapper that forwards \<^verbatim>\<open>this\<close>, the constant and
  the formal parameter \<open>y\<close>, pushed onto the unstrict function bodies and defined in the
  prelude.
\<close>

theorem factory_stub_emitted_witness:
  "map_sum fst functionBodies
     (factoryProcessInstance (plainEnvironment twoLocations (\<lambda>b. Some freeVariableInfo))
        (Identifier ''$f_0'') [''x''] [Identifier ''y''] False
        (initialResidualFunctions [] (\<lambda>a. [])) (boundInstance 1)) =
   Inr [(boundInstance 1,
         [varDeclaration (Identifier ''_1'')
            (CallExpression (MemberExpression (Identifier ''$f_0'') (Identifier ''bind''))
               [NullLiteral, NumericLiteral 1])])] \<and>
   map_sum fst (\<lambda>rf. (globalPrelude rf, unstrictFunctionBodies rf))
     (factoryProcessInstance (plainEnvironment twoLocations (\<lambda>b. Some freeVariableInfo))
        (Identifier ''$f_0'') [''x''] [Identifier ''y''] True
        (initialResidualFunctions [] (\<lambda>a. [])) (boundInstance 1)) =
   Inr ([varDeclaration (Identifier ''_1'')
           (FunctionExpression [Identifier ''y'']
              (blockStatement
                 [ReturnStatement
                    (CallExpression
                       (MemberExpression (Identifier ''$f_0'') (Identifier ''call''))
                       [ThisExpression, NumericLiteral 1, Identifier ''y''])]))],
        [FunctionExpression [Identifier ''y'']
           (blockStatement
              [ReturnStatement
                 (CallExpression
                    (MemberExpression (Identifier ''$f_0'') (Identifier ''call''))
                    [ThisExpression, NumericLiteral 1, Identifier ''y''])])])"
  using factory_stub_emitted [where
      env = "plainEnvironment twoLocations (\<lambda>b. Some freeVariableInfo)"
      and rf = "initialResidualFunctions [] (\<lambda>a. [])" and factoryIdent = "Identifier ''$f_0''"
      and factoryNames = "[''x'']" and params = "[Identifier ''y'']" and usesThisFlag = False
      and inst = "boundInstance 1"]
    factory_stub_emitted [where
      env = "plainEnvironment twoLocations (\<lambda>b. Some freeVariableInfo)"
      and rf = "initialResidualFunctions [] (\<lambda>a. [])" and factoryIdent = "Identifier ''$f_0''"
      and factoryNames = "[''x'']" and params = "[Identifier ''y'']" and usesThisFlag = True
      and inst = "boundInstance 1"]
  by (simp add: residual_eval requiresCallWrapper_def stubInvariants_def
      bindingsSerialized_def serializedArguments_def callWrapper_def bindExpression_def
      prototypeDeclaration_def)

text \<open>
  The claim as stated fails for a formal parameter that is no identifier.  The code of the
  instance uses \<^verbatim>\<open>this\<close>, so the instance requires the wrapper, and its asserted lookups
  succeed; its only formal parameter is a destructuring pattern.  No wrapper is emitted
  for it: the iteration throws the fatal error.
\<close>

theorem pattern_parameter_counterexample:
  "stubInvariants (plainEnvironment twoLocations (\<lambda>b. Some thisInfo)) [''x'']
     (patternInstance 1) \<and>
   requiresCallWrapper (plainEnvironment twoLocations (\<lambda>b. Some thisInfo))
     (initialResidualFunctions [] (\<lambda>a. [])) (usesThis thisInfo) [''x''] (patternInstance 1) \<and>
   factoryProcessInstance (plainEnvironment twoLocations (\<lambda>b. Some thisInfo))
     (Identifier ''$f_0'') [''x''] (the (FormalParameters (functionValue (patternInstance 1))))
     (usesThis thisInfo) (initialResidualFunctions [] (\<lambda>a. [])) (patternInstance 1) =
   Inl (FatalError ''TODO: do not know how to deal with non-Identifier parameters'',
        initialResidualFunctions [] (\<lambda>a. []))"
  by (simp add: residual_eval requiresCallWrapper_def stubInvariants_def
      bindingsSerialized_def)

subsection \<open>A formal parameter that is no identifier\<close>

text \<open>
  The factory path up to the factory node leaves the prelude, the function bodies, the
  prototype identifiers and the first usages alone.
\<close>

lemma createFactory_frame:
  assumes "createFactory env factoryFunctionInfos funcBody functionInfo params rf
             normalInstances = Inr (factoryInfo, factoryNames, factoryNode, rf1)"
  shows "globalPrelude rf1 = globalPrelude rf \<and>
         strictFunctionBodies rf1 = strictFunctionBodies rf \<and>
         unstrictFunctionBodies rf1 = unstrictFunctionBodies rf \<and>
         functionPrototypes rf1 = functionPrototypes rf \<and>
         firstFunctionUsages rf1 = firstFunctionUsages rf"
proof -
  from assms obtain calls where "getCallReplacements env rf funcBody = Inr (calls, rf1)"
    by (auto simp add: createFactory_def invariantAt_def raisedAt_def Let_def
        split: if_splits option.splits sum.splits)
  from getCallReplacements_leaves [OF this] show ?thesis by simp
qed

text \<open>
  The loop over the instances when some instance requires the wrapper and some formal
  parameter is no identifier: the instances before the first that requires the wrapper are
  defined by \<^verbatim>\<open>bind\<close> expressions at their insertion points, and the iteration for that
  instance throws.
\<close>

lemma factory_loop_fatal:
  assumes "list_all (stubInvariants env factoryNames) normalInstances"
    and "list_ex (requiresCallWrapper env rf usesThisFlag factoryNames) normalInstances"
    and "\<not> list_all isIdentifier params"
  shows "\<exists>rf'. forEach
                 (factoryProcessInstance env factoryIdent factoryNames params usesThisFlag)
                 rf normalInstances =
               Inl (FatalError ''TODO: do not know how to deal with non-Identifier parameters'',
                    rf') \<and>
               globalPrelude rf' = globalPrelude rf \<and>
               strictFunctionBodies rf' = strictFunctionBodies rf \<and>
               unstrictFunctionBodies rf' = unstrictFunctionBodies rf"
  using assms(1,2)
proof (induction normalInstances arbitrary: rf)
  case Nil
  then show ?case by simp
next
  case (Cons inst insts)
  from Cons.prems(1) have inv: "stubInvariants env factoryNames inst"
    and invs: "list_all (stubInvariants env factoryNames) insts" by simp_all
  show ?case
  proof (cases "requiresCallWrapper env rf usesThisFlag factoryNames inst")
    case True
    from factoryProcessInstance_fatal [OF inv True assms(3)] show ?thesis by simp
  next
    case False
    from factoryProcessInstance_bind [OF inv False, of factoryIdent params]
    obtain rf1 where step: "factoryProcessInstance env factoryIdent factoryNames params
        usesThisFlag rf inst = Inr rf1"
      and fp: "functionPrototypes rf1 = functionPrototypes rf"
      and fu: "firstFunctionUsages rf1 = firstFunctionUsages rf"
      and sb: "strictFunctionBodies rf1 = strictFunctionBodies rf"
      and ub: "unstrictFunctionBodies rf1 = unstrictFunctionBodies rf"
      and st: "\<And>t'. statementsAt rf1 t' =
                  statementsAt rf t' @
                  (if t' = FunctionBody inst
                   then initializationStatements inst @
                        [varDeclaration (the (getLocation env (functionValue inst)))
                           (bindExpression factoryIdent factoryNames inst)]
                   else [])"
      by blast
    from st [of GlobalPrelude] have gp: "globalPrelude rf1 = globalPrelude rf" by simp
    from Cons.prems(2) False
    have "list_ex (requiresCallWrapper env rf usesThisFlag factoryNames) insts" by simp
    then have "list_ex (requiresCallWrapper env rf1 usesThisFlag factoryNames) insts"
      using requiresCallWrapper_frame [OF fp fu] by (simp add: list_ex_iff)
    from Cons.IH [OF invs this] step gp sb ub show ?thesis by simp
  qed
qed

text \<open>
  Claim C9, as amended.  Let the factory path of a code block have built its factory
  function, let the asserted lookups of every instance succeed, let some instance require
  the wrapper, and let some formal parameter of the code block be no identifier.  Then the
  factory path ends with the fatal error, and with it the loop "Process normal functions"
  and \<^verbatim>\<open>spliceFunctions\<close>, which returns no result (\<open>forEach_aborts\<close>).  The exception undoes
  nothing: when it is thrown, the prelude holds the declaration of the factory function
  after everything it held before, and the array of strict or unstrict function bodies
  holds the factory function.
\<close>

theorem non_identifier_parameter_aborts:
  assumes "createFactory env factoryFunctionInfos funcBody functionInfo params rf
             normalInstances = Inr (factoryInfo, factoryNames, factoryNode, rf1)"
    and "factoryId factoryInfo = Some factoryIdent"
    and "list_all (stubInvariants env factoryNames) normalInstances"
    and "list_ex (requiresCallWrapper env rf (usesThis functionInfo) factoryNames)
           normalInstances"
    and "\<not> list_all isIdentifier params"
  shows "\<exists>rf'. factoryProcessInstances env factoryFunctionInfos funcBody functionInfo params
                 rf normalInstances =
               Inl (FatalError ''TODO: do not know how to deal with non-Identifier parameters'',
                    rf') \<and>
               globalPrelude rf' =
                 globalPrelude rf @ [varDeclaration factoryIdent factoryNode] \<and>
               strictFunctionBodies rf' =
                 strictFunctionBodies rf @
                 (if Strict (functionValue (hd normalInstances)) then [factoryNode] else []) \<and>
               unstrictFunctionBodies rf' =
                 unstrictFunctionBodies rf @
                 (if Strict (functionValue (hd normalInstances)) then [] else [factoryNode])"
proof -
  define start where "start = pushFunctionBodyNode
      (rf1\<lparr>globalPrelude := globalPrelude rf1 @ [varDeclaration factoryIdent factoryNode]\<rparr>)
      (functionValue (hd normalInstances)) factoryNode"
  from createFactory_frame [OF assms(1)]
  have gp: "globalPrelude rf1 = globalPrelude rf"
    and sb: "strictFunctionBodies rf1 = strictFunctionBodies rf"
    and ub: "unstrictFunctionBodies rf1 = unstrictFunctionBodies rf"
    and fp: "functionPrototypes rf1 = functionPrototypes rf"
    and fu: "firstFunctionUsages rf1 = firstFunctionUsages rf"
    by simp_all
  have fps: "functionPrototypes start = functionPrototypes rf"
    and fus: "firstFunctionUsages start = firstFunctionUsages rf"
    using fp fu by (simp_all add: start_def pushFunctionBodyNode_def)
  have req: "list_ex (requiresCallWrapper env start (usesThis functionInfo) factoryNames)
      normalInstances"
    using assms(4) requiresCallWrapper_frame [OF fps fus] by (simp add: list_ex_iff)
  from factory_loop_fatal [OF assms(3) req assms(5), of factoryIdent]
  obtain rf' where loop: "forEach
                 (factoryProcessInstance env factoryIdent factoryNames params
                    (usesThis functionInfo))
                 start normalInstances =
               Inl (FatalError ''TODO: do not know how to deal with non-Identifier parameters'',
                    rf')"
    and gp': "globalPrelude rf' = globalPrelude start"
    and sb': "strictFunctionBodies rf' = strictFunctionBodies start"
    and ub': "unstrictFunctionBodies rf' = unstrictFunctionBodies start"
    by blast
  have "factoryProcessInstances env factoryFunctionInfos funcBody functionInfo params
                 rf normalInstances =
               Inl (FatalError ''TODO: do not know how to deal with non-Identifier parameters'',
                    rf')"
    using loop by (simp add: factoryProcessInstances_def assms(1,2) start_def)
  moreover have "globalPrelude rf' =
                 globalPrelude rf @ [varDeclaration factoryIdent factoryNode]"
    using gp' gp by (simp add: start_def pushFunctionBodyNode_def)
  moreover have "strictFunctionBodies rf' =
                 strictFunctionBodies rf @
                 (if Strict (functionValue (hd normalInstances)) then [factoryNode] else [])"
    using sb' sb by (simp add: start_def pushFunctionBodyNode_def)
  moreover have "unstrictFunctionBodies rf' =
                 unstrictFunctionBodies rf @
                 (if Strict (functionValue (hd normalInstances)) then [] else [factoryNode])"
    using ub' ub by (simp add: start_def pushFunctionBodyNode_def)
  ultimately show ?thesis by blast
qed

text \<open>
  Two instances whose code uses \<^verbatim>\<open>this\<close>, and a destructuring pattern as the only formal
  parameter: the factory path throws the fatal error, with the declaration of the factory
  in the prelude and the factory among the unstrict function bodies.
\<close>

theorem non_identifier_parameter_aborts_witness:
  "map_sum (\<lambda>thrown. (fst thrown, globalPrelude (snd thrown),
                        unstrictFunctionBodies (snd thrown))) id
     (factoryProcessInstances (plainEnvironment twoLocations (\<lambda>b. Some thisInfo)) factoryInfos
        largeCode thisInfo [Pattern ''{a, b}''] (initialResidualFunctions [] (\<lambda>a. []))
        [patternInstance 1, patternInstance 2]) =
   Inl (FatalError ''TODO: do not know how to deal with non-Identifier parameters'',
        [varDeclaration (Identifier ''$f_0'')
           (FunctionExpression [Identifier ''x'', Pattern ''{a, b}''] largeCode)],
        [FunctionExpression [Identifier ''x'', Pattern ''{a, b}''] largeCode])"
  using non_identifier_parameter_aborts [where
      env = "plainEnvironment twoLocations (\<lambda>b. Some thisInfo)"
      and factoryFunctionInfos = factoryInfos and funcBody = largeCode
      and functionInfo = thisInfo and params = "[Pattern ''{a, b}'']"
      and rf = "initialResidualFunctions [] (\<lambda>a. [])"
      and normalInstances = "[patternInstance 1, patternInstance 2]"
      and factoryInfo = "snd (hd factoryInfos)" and factoryNames = "[''x'']"
      and factoryNode = "FunctionExpression [Identifier ''x'', Pattern ''{a, b}''] largeCode"
      and ?rf1.0 = "initialResidualFunctions [] (\<lambda>a. [])"
      and factoryIdent = "Identifier ''$f_0''"]
  by (simp add: residual_eval requiresCallWrapper_def stubInvariants_def
      bindingsSerialized_def)

text \<open>
  The claim as stated fails for the prelude.  A whole run from an empty prelude, over two
  instances of a code block that uses \<^verbatim>\<open>this\<close> and takes a destructuring pattern: the run ends
  with the fatal error, and the prelude, which the caller holds, now contains the
  declaration of the factory function.
\<close>

theorem partial_prelude_counterexample:
  "map_sum (\<lambda>thrown. (fst thrown, globalPrelude (snd thrown))) id
     (emittedDefinitions (plainEnvironment twoLocations (\<lambda>b. Some thisInfo))
        [patternInstance 1, patternInstance 2]) =
   Inl (FatalError ''TODO: do not know how to deal with non-Identifier parameters'',
        [varDeclaration (Identifier ''$f_0'')
           (FunctionExpression [Identifier ''x'', Pattern ''{a, b}''] largeCode)]) \<and>
   globalPrelude (initialResidualFunctions [] (\<lambda>a. [])) = []"
  by (simp add: residual_eval)

subsection \<open>The decision for a factory function\<close>

lemma processFunctionEntry_nonempty:
  assumes "instances \<noteq> []"
  shows "processFunctionEntry env factoryFunctionInfos rf (funcBody, instances) =
     (case residualFunctionInfos env funcBody of
           None \<Rightarrow> Inl (InvariantViolation, rf)
         | Some functionInfo \<Rightarrow>
                  (case FormalParameters (functionValue (hd instances)) of
                     None \<Rightarrow> Inl (InvariantViolation, rf)
                   | Some params \<Rightarrow>
                       let normalInstances =
                             filter (\<lambda>inst. \<not> additionalFunctionValueNestedFunctions env
                                                 (functionValue inst)) instances;
                           additionalFunctionNestedInstances =
                             filter (\<lambda>inst. additionalFunctionValueNestedFunctions env
                                               (functionValue inst)) instances
                       in (case (if length additionalFunctionNestedInstances > 0
                                 then naiveProcessInstances env factoryFunctionInfos funcBody
                                        params rf additionalFunctionNestedInstances
                                 else Inr rf) of
                             Inl e \<Rightarrow> Inl e
                           | Inr this1 \<Rightarrow>
                               if length normalInstances > 0
                               then
                                 (case raisedAt this1
                                         (shouldUseFactoryFunction env funcBody
                                            normalInstances) of
                                    Inl e \<Rightarrow> Inl e
                                  | Inr useFactory \<Rightarrow>
                                      if \<not> useFactory
                                      then
                                        (case naiveProcessInstances env factoryFunctionInfos
                                                funcBody params this1 normalInstances of
                                           Inl e \<Rightarrow> Inl e
                                         | Inr this2 \<Rightarrow>
                                             getStatistics env this2
                                               (Inr (this2\<lparr>functionClones :=
                                                       functionClones this2 - 1\<rparr>)))
                                      else
                                        factoryProcessInstances env factoryFunctionInfos
                                          funcBody functionInfo params this1 normalInstances)
                               else Inr this1)))"
proof -
  from assms obtain first others where "instances = first # others" by (cases instances) auto
  then show ?thesis by (simp add: processFunctionEntry_def Let_def split: option.split)
qed

text \<open>
  Claim C1, as amended.  For a code block with at least one instance that is not nested in
  an additional function, whose function info and formal parameters are known and whose
  nested instances (if any) were cloned without error: the normal instances take the factory
  path if and only if \<open>\<not> shouldInline \<and> instanceCount > 1 \<and> \<not> usesArguments\<close>, where
  \<open>instanceCount\<close> counts the normal instances, \<open>shouldInline\<close> holds when the first normal
  instance closes over no referentialized scope and the block either lacks a truthy start
  or end offset or has \<open>end - start \<le> 30\<close>.  Otherwise every normal instance is cloned by
  \<open>naiveProcessInstances\<close> (one clone per instance, \<open>naiveProcessInstances_clone_each\<close>).
\<close>

theorem factory_decision:
  assumes "residualFunctionInfos env funcBody = Some functionInfo"
    and "FormalParameters (functionValue (hd instances)) = Some params"
    and "normalInstances =
           filter (\<lambda>inst. \<not> additionalFunctionValueNestedFunctions env (functionValue inst))
             instances"
    and "normalInstances \<noteq> []"
    and "(if filter (\<lambda>inst. additionalFunctionValueNestedFunctions env (functionValue inst))
               instances \<noteq> []
          then naiveProcessInstances env factoryFunctionInfos funcBody params rf
                 (filter (\<lambda>inst. additionalFunctionValueNestedFunctions env
                                    (functionValue inst)) instances)
          else Inr rf) = Inr rf1"
  shows "processFunctionEntry env factoryFunctionInfos rf (funcBody, instances) =
           (if \<not> (scopeInstances (hd normalInstances) = [] \<and>
                   (truthy (bstart funcBody) \<and> truthy (bend funcBody) \<longrightarrow>
                      the (bend funcBody) - the (bstart funcBody) \<le> 30)) \<and>
               1 < length normalInstances \<and> \<not> usesArguments functionInfo
            then factoryProcessInstances env factoryFunctionInfos funcBody functionInfo params
                   rf1 normalInstances
            else (case naiveProcessInstances env factoryFunctionInfos funcBody params rf1
                         normalInstances of
                    Inl e \<Rightarrow> Inl e
                  | Inr rf2 \<Rightarrow>
                      getStatistics env rf2
                        (Inr (rf2\<lparr>functionClones := functionClones rf2 - 1\<rparr>))))"
proof -
  have ne: "instances \<noteq> []" using assms(3,4) by auto
  define d where "d = (\<not> (scopeInstances (hd normalInstances) = [] \<and>
                   (truthy (bstart funcBody) \<and> truthy (bend funcBody) \<longrightarrow>
                      the (bend funcBody) - the (bstart funcBody) \<le> 30)) \<and>
               1 < length normalInstances \<and> \<not> usesArguments functionInfo)"
  have use: "shouldUseFactoryFunction env funcBody normalInstances = Inr d"
    unfolding d_def using assms(1,4)
    by (auto simp add: shouldUseFactoryFunction_def shouldInlineFunction_def invariant_def)
  have len: "0 < length normalInstances" using assms(4) by simp
  have nested: "(if 0 < length (filter (\<lambda>inst. additionalFunctionValueNestedFunctions env
                                    (functionValue inst)) instances)
          then naiveProcessInstances env factoryFunctionInfos funcBody params rf
                 (filter (\<lambda>inst. additionalFunctionValueNestedFunctions env
                                    (functionValue inst)) instances)
          else Inr rf) = Inr rf1"
    using assms(5) by simp
  have "processFunctionEntry env factoryFunctionInfos rf (funcBody, instances) =
           (if d
            then factoryProcessInstances env factoryFunctionInfos funcBody functionInfo params
                   rf1 normalInstances
            else (case naiveProcessInstances env factoryFunctionInfos funcBody params rf1
                         normalInstances of
                    Inl e \<Rightarrow> Inl e
                  | Inr rf2 \<Rightarrow>
                      getStatistics env rf2
                        (Inr (rf2\<lparr>functionClones := functionClones rf2 - 1\<rparr>))))"
    using assms(4)
    by (simp add: processFunctionEntry_nonempty [OF ne] assms(1,2,5) Let_def
        assms(3) [symmetric] use raisedAt_def)
  then show ?thesis unfolding d_def .
qed

text \<open>
  The scenario of the specification with two call sites: a block of extent 40, no scope, no
  \<^verbatim>\<open>arguments\<close>, the free variable \<open>x\<close> bound to a different constant by each instance.  One
  factory with the parameter \<open>x\<close> goes to the prelude, and each instance is defined by a
  \<^verbatim>\<open>bind\<close> expression.
\<close>

theorem factory_decision_witness:
  "map_sum id globalPrelude
     (processFunctionEntry (plainEnvironment twoLocations (\<lambda>b. Some freeVariableInfo))
        factoryInfos (initialResidualFunctions [] (\<lambda>a. []))
        (largeCode, [boundInstance 1, boundInstance 2])) =
   Inr [varDeclaration (Identifier ''$f_0'')
          (FunctionExpression [Identifier ''x'', Identifier ''y''] largeCode)] \<and>
   map_sum id functionBodies
     (processFunctionEntry (plainEnvironment twoLocations (\<lambda>b. Some freeVariableInfo))
        factoryInfos (initialResidualFunctions [] (\<lambda>a. []))
        (largeCode, [boundInstance 1, boundInstance 2])) =
   Inr [(boundInstance 1,
         [varDeclaration (Identifier ''_1'')
            (CallExpression (MemberExpression (Identifier ''$f_0'') (Identifier ''bind''))
               [NullLiteral, NumericLiteral 1])]),
        (boundInstance 2,
         [varDeclaration (Identifier ''_2'')
            (CallExpression (MemberExpression (Identifier ''$f_0'') (Identifier ''bind''))
               [NullLiteral, NumericLiteral 2])])]"
  using factory_decision [where env = "plainEnvironment twoLocations (\<lambda>b. Some freeVariableInfo)"
      and funcBody = largeCode and functionInfo = freeVariableInfo
      and instances = "[boundInstance 1, boundInstance 2]"
      and normalInstances = "[boundInstance 1, boundInstance 2]"
      and params = "[Identifier ''y'']" and factoryFunctionInfos = factoryInfos
      and rf = "initialResidualFunctions [] (\<lambda>a. [])"
      and ?rf1.0 = "initialResidualFunctions [] (\<lambda>a. [])"]
  by (simp add: residual_eval)

text \<open>
  The claim as stated fails where only a later instance captures a scope.  The block is
  small, the first instance closes over no scope, the second over one.  In the words of the
  claim a scope is captured, nothing is inlined and the two instances share a factory; the
  code looks at the first instance only, finds the block small and clones both.
\<close>

theorem first_instance_scope_counterexample:
  "shouldUseFactoryFunction (plainEnvironment twoLocations (\<lambda>b. Some closedInfo)) smallCode
     [smallInstance 1, scopedInstance 2] = Inr False \<and>
   claimedFactoryDecision smallCode closedInfo [smallInstance 1, scopedInstance 2] \<and>
   shouldUseFactoryFunction (plainEnvironment twoLocations (\<lambda>b. Some closedInfo)) smallCode
     [smallInstance 1, scopedInstance 2] \<noteq>
   Inr (claimedFactoryDecision smallCode closedInfo [smallInstance 1, scopedInstance 2])"
  by (simp add: residual_eval claimedFactoryDecision_def)


subsection \<open>Class methods on the naive path\<close>

lemma getCallReplacements_frame:
  assumes "getCallReplacements env rf funcBody = Inr (calls, rf')"
  shows "classes rf' = classes rf \<and> functionPrototypes rf' = functionPrototypes rf \<and>
         unstrictFunctionBodies rf' = unstrictFunctionBodies rf \<and>
         strictFunctionBodies rf' = strictFunctionBodies rf \<and>
         functionClones rf' = functionClones rf"
proof -
  from assms obtain functionInfo where info: "residualFunctionInfos env funcBody = Some functionInfo"
    by (auto simp add: getCallReplacements_def split: option.splits)
  let ?P = "\<lambda>p :: ((nat \<times> string) \<times> replacement) list \<times> residual_functions.
              classes (snd p) = classes rf \<and> functionPrototypes (snd p) = functionPrototypes rf \<and>
         unstrictFunctionBodies (snd p) = unstrictFunctionBodies rf \<and>
         strictFunctionBodies (snd p) = strictFunctionBodies rf \<and>
         functionClones (snd p) = functionClones rf"
  have "?P (calls, rf')"
  proof (rule forEach_preserves [where P = ?P and s = "([], rf)"])
    show "?P ([], rf)" by simp
    show "forEach
            (\<lambda>(res, this) (callNode, moduleId).
               getStatistics env this
                 (let this1 = this\<lparr>requireCallsSeen := requireCallsSeen this + 1\<rparr>
                  in if snd callNode \<in> modifiedNames functionInfo then Inr (res, this1)
                     else
                       (case requireReturns env moduleId of
                          None \<Rightarrow> Inr (res, this1)
                        | Some r \<Rightarrow>
                            Inr (AList.update callNode r res,
                                 this1\<lparr>requireCallsReplaced :=
                                          requireCallsReplaced this1 + 1\<rparr>))))
            ([], rf) (requireCalls functionInfo) = Inr (calls, rf')"
      using assms info by (simp add: getCallReplacements_def)
  next
    fix s x s'
    assume "?P s" and "(case s of (res, this) \<Rightarrow> \<lambda>(callNode, moduleId).
               getStatistics env this
                 (let this1 = this\<lparr>requireCallsSeen := requireCallsSeen this + 1\<rparr>
                  in if snd callNode \<in> modifiedNames functionInfo then Inr (res, this1)
                     else
                       (case requireReturns env moduleId of
                          None \<Rightarrow> Inr (res, this1)
                        | Some r \<Rightarrow>
                            Inr (AList.update callNode r res,
                                 this1\<lparr>requireCallsReplaced :=
                                          requireCallsReplaced this1 + 1\<rparr>)))) x = Inr s'"
    then show "?P s'"
      by (cases s; cases x)
         (auto simp add: getStatistics_def invariantAt_def raisedAt_def Let_def split: if_splits option.splits)
  qed
  then show ?thesis by simp
qed

lemma classMethodsOf_getOrCreateClassNode:
  "classMethodsOf (snd (getOrCreateClassNode rf a)) a = classMethodsOf rf a \<and>
   map_of (classes (snd (getOrCreateClassNode rf a))) a \<noteq> None \<and>
   fst (getOrCreateClassNode rf a) = ClassExpressionRef a \<and>
   functionPrototypes (snd (getOrCreateClassNode rf a)) = functionPrototypes rf"
  by (auto simp add: getOrCreateClassNode_def classMethodsOf_def update_conv')

lemma classMethodsOf_addClassMethod:
  assumes "map_of (classes rf) a \<noteq> None"
  shows "classMethodsOf (addClassMethod rf a isConstructor m) a =
           (if isConstructor then m # classMethodsOf rf a else classMethodsOf rf a @ [m])"
  using assms by (auto simp add: addClassMethod_def classMethodsOf_def map_of_map_entry)

lemma classMethodsOf_superClass:
  "classMethodsOf (rf\<lparr>classes := AList.map_entry a (\<lambda>c. c\<lparr>superClass := Some superNode\<rparr>)
                                     (classes rf)\<rparr>) a = classMethodsOf rf a"
  by (auto simp add: classMethodsOf_def map_of_map_entry split: option.splits)

lemma classMethodsOf_cong: "classes rf' = classes rf \<Longrightarrow> classMethodsOf rf' a = classMethodsOf rf a"
  by (simp add: classMethodsOf_def)

lemma naiveClassMethod_empty_constructor:
  assumes "classPrototype cmi = ObjectValue a al"
    and "classMethodKeyNode cmi = Some key" and "isExpression key \<or> isIdentifier key"
    and "methodType cmi = ''constructor''" and "HasEmptyConstructor (functionValue inst)"
  shows "\<exists>rf1. naiveClassMethod env ffi funcBody params rf inst cmi =
                 Inr (Some (ClassExpressionRef a), rf1) \<and>
               classMethodsOf rf1 a = classMethodsOf rf a \<and>
               functionPrototypes rf1 = functionPrototypes rf"
proof -
  note c = classMethodsOf_getOrCreateClassNode [of rf a]
  show ?thesis
  proof (cases "classSuperNode cmi")
    case None
    then show ?thesis using assms c
      by (simp add: naiveClassMethod_def invariantAt_def raisedAt_def Let_def case_prod_beta)
  next
    case (Some superNode)
    then show ?thesis using assms c
      by (simp add: naiveClassMethod_def invariantAt_def raisedAt_def Let_def case_prod_beta
          classMethodsOf_superClass)
  qed
qed

lemma naiveClassMethod_adds:
  assumes "classPrototype cmi = ObjectValue a al"
    and "classMethodKeyNode cmi = Some key" and "isExpression key \<or> isIdentifier key"
    and "\<not> (methodType cmi = ''constructor'' \<and> HasEmptyConstructor (functionValue inst))"
    and "getIdentifierReplacements env funcBody (residualFunctionBindings inst) = Inr ids"
    and "getCallReplacements env (snd (getOrCreateClassNode rf a)) funcBody = Inr (calls, rf2)"
  shows "\<exists>rf3. naiveClassMethod env ffi funcBody params rf inst cmi =
                 Inr (if methodType cmi = ''constructor'' then Some (ClassExpressionRef a)
                      else None, rf3) \<and>
               classMethodsOf rf3 a =
                 (if methodType cmi = ''constructor''
                  then instantiate env ffi ids calls
                         (ClassMethod (methodType cmi) key params funcBody
                            (classMethodComputed cmi) (classMethodIsStatic cmi)) #
                       classMethodsOf rf a
                  else classMethodsOf rf a @
                       [instantiate env ffi ids calls
                          (ClassMethod (methodType cmi) key params funcBody
                             (classMethodComputed cmi) (classMethodIsStatic cmi))]) \<and>
               functionPrototypes rf3 = functionPrototypes rf"
proof -
  note c = classMethodsOf_getOrCreateClassNode [of rf a]
  note f = getCallReplacements_frame [OF assms(6)]
  let ?m = "instantiate env ffi ids calls
                         (ClassMethod (methodType cmi) key params funcBody
                            (classMethodComputed cmi) (classMethodIsStatic cmi))"
  have present: "map_of (classes rf2) a \<noteq> None" using f c by simp
  have old: "classMethodsOf rf2 a = classMethodsOf rf a"
    using f c classMethodsOf_cong [of rf2 "snd (getOrCreateClassNode rf a)" a] by simp
  have added: "classMethodsOf (addClassMethod rf2 a (methodType cmi = ''constructor'') ?m) a =
      (if methodType cmi = ''constructor'' then ?m # classMethodsOf rf a
       else classMethodsOf rf a @ [?m])"
    using classMethodsOf_addClassMethod [OF present] old by simp
  have fp: "functionPrototypes (addClassMethod rf2 a (methodType cmi = ''constructor'') ?m) =
      functionPrototypes rf"
    using f c by (simp add: addClassMethod_def)
  show ?thesis
  proof (cases "classSuperNode cmi")
    case None
    then show ?thesis using assms c added fp
      by (auto simp add: naiveClassMethod_def invariantAt_def raisedAt_def Let_def case_prod_beta)
  next
    case (Some superNode)
    then show ?thesis using assms c added fp
      by (auto simp add: naiveClassMethod_def invariantAt_def raisedAt_def Let_def case_prod_beta
          classMethodsOf_superClass)
  qed
qed

lemma naiveProcessInstance_define:
  assumes "residualClassMethodInstances env (functionValue inst) = Some cmi"
    and "naiveClassMethod env ffi funcBody params rf inst cmi = Inr (Some (ClassExpressionRef a), rf1)"
    and "getLocation env (functionValue inst) = Some ident"
  shows "\<exists>rf'. naiveProcessInstance env ffi funcBody params rf inst = Inr rf' \<and>
               classes rf' = classes rf1"
proof -
  let ?rf2 = "pushFunctionBodyNode rf1 (functionValue inst) (ClassExpressionRef a)"
  have step: "naiveProcessInstance env ffi funcBody params rf inst =
      defineFunction env ?rf2 inst ident (ClassExpressionRef a)"
    using assms by (simp add: naiveProcessInstance_def)
  from defineFunction_succeeds [of "ClassExpressionRef a" ?rf2 inst env ident] assms(3)
  obtain rf' where d: "defineFunction env ?rf2 inst ident (ClassExpressionRef a) = Inr rf'"
    by auto
  from defineFunction_frame [OF d] have "classes rf' = classes rf1"
    by (simp add: pushFunctionBodyNode_def)
  with step d show ?thesis by simp
qed

text \<open>
  Claim C10.  On the naive path, for a class method instance whose asserted lookups succeed
  (the class prototype is an object, the key is an expression, and a constructor has a
  location): when the method is a constructor and the function value has an empty
  user-land constructor, the iteration succeeds and the class node has the methods it had
  (none, when the node was just created).  In every other case, when the replacements can be
  computed, the iteration succeeds and the instantiated method is added to the class node:
  at the front of the class body for a constructor, at the back for any other method.
\<close>

theorem class_method_placement:
  assumes "residualClassMethodInstances env (functionValue inst) = Some cmi"
    and "classPrototype cmi = ObjectValue a al"
    and "classMethodKeyNode cmi = Some key" and "isExpression key \<or> isIdentifier key"
    and "methodType cmi = ''constructor'' \<longrightarrow> getLocation env (functionValue inst) \<noteq> None"
  shows "(methodType cmi = ''constructor'' \<and> HasEmptyConstructor (functionValue inst) \<longrightarrow>
            (\<exists>rf'. naiveProcessInstance env ffi funcBody params rf inst = Inr rf' \<and>
                   classMethodsOf rf' a = classMethodsOf rf a)) \<and>
         (\<not> (methodType cmi = ''constructor'' \<and> HasEmptyConstructor (functionValue inst)) \<longrightarrow>
            (\<forall>ids calls rf2.
               getIdentifierReplacements env funcBody (residualFunctionBindings inst) = Inr ids \<and>
               getCallReplacements env (snd (getOrCreateClassNode rf a)) funcBody =
                 Inr (calls, rf2) \<longrightarrow>
               (\<exists>rf'. naiveProcessInstance env ffi funcBody params rf inst = Inr rf' \<and>
                      classMethodsOf rf' a =
                        (if methodType cmi = ''constructor''
                         then instantiate env ffi ids calls
                                (ClassMethod (methodType cmi) key params funcBody
                                   (classMethodComputed cmi) (classMethodIsStatic cmi)) #
                              classMethodsOf rf a
                         else classMethodsOf rf a @
                              [instantiate env ffi ids calls
                                 (ClassMethod (methodType cmi) key params funcBody
                                    (classMethodComputed cmi) (classMethodIsStatic cmi))]))))"
proof (intro conjI impI allI)
  assume e: "methodType cmi = ''constructor'' \<and> HasEmptyConstructor (functionValue inst)"
  from e have e1: "methodType cmi = ''constructor''"
    and e2: "HasEmptyConstructor (functionValue inst)" by simp_all
  from naiveClassMethod_empty_constructor [OF assms(2,3,4) e1 e2, of env ffi funcBody params rf]
  obtain rf1 where m: "naiveClassMethod env ffi funcBody params rf inst cmi =
                 Inr (Some (ClassExpressionRef a), rf1)"
    and b: "classMethodsOf rf1 a = classMethodsOf rf a" by blast
  from assms(5) e obtain ident where loc: "getLocation env (functionValue inst) = Some ident"
    by auto
  from naiveProcessInstance_define [OF assms(1) m loc]
  obtain rf' where p: "naiveProcessInstance env ffi funcBody params rf inst = Inr rf'"
    and c: "classes rf' = classes rf1" by blast
  from classMethodsOf_cong [OF c, of a] b have "classMethodsOf rf' a = classMethodsOf rf a"
    by simp
  with p show "\<exists>rf'. naiveProcessInstance env ffi funcBody params rf inst = Inr rf' \<and>
                   classMethodsOf rf' a = classMethodsOf rf a"
    by blast
next
  fix ids calls rf2
  assume ne: "\<not> (methodType cmi = ''constructor'' \<and> HasEmptyConstructor (functionValue inst))"
    and r: "getIdentifierReplacements env funcBody (residualFunctionBindings inst) = Inr ids \<and>
               getCallReplacements env (snd (getOrCreateClassNode rf a)) funcBody =
                 Inr (calls, rf2)"
  let ?m = "instantiate env ffi ids calls
                                (ClassMethod (methodType cmi) key params funcBody
                                   (classMethodComputed cmi) (classMethodIsStatic cmi))"
  from r have r1: "getIdentifierReplacements env funcBody (residualFunctionBindings inst) = Inr ids"
    and r2: "getCallReplacements env (snd (getOrCreateClassNode rf a)) funcBody = Inr (calls, rf2)"
    by simp_all
  from naiveClassMethod_adds [OF assms(2,3,4) ne r1 r2, of ffi params]
  obtain rf3 where m: "naiveClassMethod env ffi funcBody params rf inst cmi =
                 Inr (if methodType cmi = ''constructor'' then Some (ClassExpressionRef a)
                      else None, rf3)"
    and b: "classMethodsOf rf3 a =
                 (if methodType cmi = ''constructor'' then ?m # classMethodsOf rf a
                  else classMethodsOf rf a @ [?m])" by blast
  show "\<exists>rf'. naiveProcessInstance env ffi funcBody params rf inst = Inr rf' \<and>
                      classMethodsOf rf' a =
                        (if methodType cmi = ''constructor'' then ?m # classMethodsOf rf a
                         else classMethodsOf rf a @ [?m])"
  proof (cases "methodType cmi = ''constructor''")
    case True
    with assms(5) obtain ident where loc: "getLocation env (functionValue inst) = Some ident"
      by auto
    from m True have m': "naiveClassMethod env ffi funcBody params rf inst cmi =
                 Inr (Some (ClassExpressionRef a), rf3)" by simp
    from naiveProcessInstance_define [OF assms(1) m' loc]
    obtain rf' where p: "naiveProcessInstance env ffi funcBody params rf inst = Inr rf'"
      and c: "classes rf' = classes rf3" by blast
    from classMethodsOf_cong [OF c, of a] b
    have "classMethodsOf rf' a =
        (if methodType cmi = ''constructor'' then ?m # classMethodsOf rf a
         else classMethodsOf rf a @ [?m])"
      by simp
    with p show ?thesis by blast
  next
    case False
    with m assms(1) have "naiveProcessInstance env ffi funcBody params rf inst = Inr rf3"
      by (simp add: naiveProcessInstance_def)
    with b show ?thesis by simp
  qed
qed
text \<open>
  A class that already has the method \<open>m\<close>: an empty constructor adds nothing, any other
  constructor goes to the front, and the method \<open>n\<close> goes to the back.
\<close>

theorem class_method_placement_witness:
  "map_sum id (\<lambda>rf. classMethodsOf rf 5)
     (naiveProcessInstance (classEnvironment (classMethodOf ''constructor'' ''constructor''))
        [] smallCode [] oneMethodClass
        (plainInstance ((plainFunctionValue 1 smallCode [])\<lparr>HasEmptyConstructor := True\<rparr>)
           [] (Some (BodyReference 1 0)))) =
   Inr [OtherStatement ''m() {}''] \<and>
   map_sum id (\<lambda>rf. classMethodsOf rf 5)
     (naiveProcessInstance (classEnvironment (classMethodOf ''constructor'' ''constructor''))
        [] smallCode [] oneMethodClass (smallInstance 1)) =
   Inr [ClassMethod ''constructor'' (Identifier ''constructor'') [] smallCode False False,
        OtherStatement ''m() {}''] \<and>
   map_sum id (\<lambda>rf. classMethodsOf rf 5)
     (naiveProcessInstance (classEnvironment (classMethodOf ''method'' ''n''))
        [] smallCode [] oneMethodClass (smallInstance 1)) =
   Inr [OtherStatement ''m() {}'',
        ClassMethod ''method'' (Identifier ''n'') [] smallCode False False]"
  using class_method_placement [where
      env = "classEnvironment (classMethodOf ''constructor'' ''constructor'')"
      and cmi = "classMethodOf ''constructor'' ''constructor''" and a = 5 and al = None
      and key = "Identifier ''constructor''" and ffi = "[]" and funcBody = smallCode
      and params = "[]" and rf = oneMethodClass
      and inst = "plainInstance ((plainFunctionValue 1 smallCode [])\<lparr>HasEmptyConstructor := True\<rparr>)
           [] (Some (BodyReference 1 0))"]
    class_method_placement [where
      env = "classEnvironment (classMethodOf ''constructor'' ''constructor'')"
      and cmi = "classMethodOf ''constructor'' ''constructor''" and a = 5 and al = None
      and key = "Identifier ''constructor''" and ffi = "[]" and funcBody = smallCode
      and params = "[]" and rf = oneMethodClass and inst = "smallInstance 1"]
    class_method_placement [where
      env = "classEnvironment (classMethodOf ''method'' ''n'')"
      and cmi = "classMethodOf ''method'' ''n''" and a = 5 and al = None
      and key = "Identifier ''n''" and ffi = "[]" and funcBody = smallCode
      and params = "[]" and rf = oneMethodClass and inst = "smallInstance 1"]
  by (simp add: residual_eval classMethodsOf_def map_of_map_entry)

subsection \<open>The naive path clones every instance\<close>

text \<open>
  One iteration of \<open>naiveProcessInstances\<close> for a function that is no class method emits one
  function node, and the closure counts one clone per instance.
\<close>

lemma naiveFunction_result:
  assumes "naiveFunction env ffi funcBody params rf inst = Inr (r, rf1)"
  shows "(\<exists>node. r = Some node) \<and>
         unstrictFunctionBodies rf1 = unstrictFunctionBodies rf \<and>
         strictFunctionBodies rf1 = strictFunctionBodies rf \<and>
         functionClones rf1 = functionClones rf"
proof -
  from assms obtain ids calls rf2 where
    c: "getCallReplacements env rf funcBody = Inr (calls, rf2)" and rf1: "rf1 = rf2"
    and r: "\<exists>node. r = Some node"
    by (auto simp add: naiveFunction_def raisedAt_def Let_def split: sum.splits if_splits)
  from getCallReplacements_frame [OF c] rf1 r show ?thesis by simp
qed

lemma naiveProcessInstance_one_clone:
  assumes "residualClassMethodInstances env (functionValue inst) = None"
    and "naiveProcessInstance env ffi funcBody params rf inst = Inr rf'"
  shows "length (unstrictFunctionBodies rf') + length (strictFunctionBodies rf') =
           length (unstrictFunctionBodies rf) + length (strictFunctionBodies rf) + 1 \<and>
         functionClones rf' = functionClones rf"
proof -
  from assms obtain r rf1 where n: "naiveFunction env ffi funcBody params rf inst = Inr (r, rf1)"
    by (cases "naiveFunction env ffi funcBody params rf inst")
       (auto simp add: naiveProcessInstance_def)
  from naiveFunction_result [OF n] obtain node where r: "r = Some node"
    and f: "unstrictFunctionBodies rf1 = unstrictFunctionBodies rf"
      "strictFunctionBodies rf1 = strictFunctionBodies rf"
      "functionClones rf1 = functionClones rf"
    by blast
  from assms n r obtain ident where
    d: "defineFunction env (pushFunctionBodyNode rf1 (functionValue inst) node) inst ident node =
        Inr rf'"
    by (auto simp add: naiveProcessInstance_def split: option.splits)
  from defineFunction_frame [OF d] f show ?thesis
    by (simp add: pushFunctionBodyNode_def)
qed

lemma naiveProcessInstances_clone_each:
  assumes "list_all (\<lambda>inst. residualClassMethodInstances env (functionValue inst) = None)
             instancesToSplice"
    and "naiveProcessInstances env ffi funcBody params rf instancesToSplice = Inr rf'"
  shows "length (unstrictFunctionBodies rf') + length (strictFunctionBodies rf') =
           length (unstrictFunctionBodies rf) + length (strictFunctionBodies rf) +
           length instancesToSplice \<and>
         functionClones rf' = functionClones rf + int (length instancesToSplice)"
proof -
  have loop: "list_all (\<lambda>inst. residualClassMethodInstances env (functionValue inst) = None)
                insts \<Longrightarrow>
      forEach (naiveProcessInstance env ffi funcBody params) s insts = Inr s' \<Longrightarrow>
      length (unstrictFunctionBodies s') + length (strictFunctionBodies s') =
        length (unstrictFunctionBodies s) + length (strictFunctionBodies s) + length insts \<and>
      functionClones s' = functionClones s" for insts s s'
  proof (induction insts arbitrary: s)
    case Nil
    then show ?case by simp
  next
    case (Cons inst insts)
    from Cons.prems(2) obtain s1 where
      one: "naiveProcessInstance env ffi funcBody params s inst = Inr s1"
      and rest: "forEach (naiveProcessInstance env ffi funcBody params) s1 insts = Inr s'"
      by (auto split: sum.splits)
    from Cons.prems(1) have none: "residualClassMethodInstances env (functionValue inst) = None"
      and others: "list_all (\<lambda>inst. residualClassMethodInstances env (functionValue inst) = None)
                     insts" by simp_all
    from naiveProcessInstance_one_clone [OF none one] Cons.IH [OF others rest]
    show ?case by simp
  qed
  from assms(2) have "forEach (naiveProcessInstance env ffi funcBody params)
      (rf\<lparr>functionClones := functionClones rf + int (length instancesToSplice)\<rparr>)
      instancesToSplice = Inr rf'"
    by (simp add: naiveProcessInstances_def getStatistics_def invariantAt_def split: if_splits)
  from loop [OF assms(1) this] show ?thesis by simp
qed


subsection \<open>An error ends the pass\<close>

text \<open>
  The first iteration of a loop that fails is the result of the loop; the iterations after
  it do not run.
\<close>

lemma forEach_aborts:
  assumes "forEach f s xs = Inr s'" and "f s' x = Inl e"
  shows "forEach f s (xs @ x # ys) = Inl e"
  using assms by (simp add: forEach_append)


end
